theory Spec2Isabelle
  imports Complex_Main
begin

section \<open>The loan calculator of \<^verbatim>\<open>src/App.js\<close>\<close>

text \<open>
  The component \<^verbatim>\<open>App\<close> holds six state values (the four form fields, the monthly
  repayment and the override flag) and derives from them, in two \<^verbatim>\<open>useMemo\<close>
  callbacks, the amortization result and the yearly chart data. Both callbacks are pure
  functions of the state values and are embedded here as HOL functions.

  The four form fields are texts (what a number input delivers; the initial values
  250000, 3.5, 30 and 0 are read by \<^verbatim>\<open>parseFloat\<close> and \<^verbatim>\<open>parseInt\<close> through their
  decimal texts), the monthly repayment is a number and the override flag a boolean.

  Numbers. A JavaScript number is modelled as \<open>NaN\<close> or an exact real: the rounding of
  IEEE doubles, their overflow to an infinity and the sign of zero are not part of the
  model. A number that the code only ever obtains from \<^verbatim>\<open>parseInt\<close> is kept as an
  \<open>int option\<close>, \<open>None\<close> standing for \<open>NaN\<close>. The amortization callback is
  embedded a second time with the rounding of every operation to a double, for the one
  statement that rounding decides.
\<close>

subsection \<open>Numbers and the parsing built-ins\<close>

datatype number = NaN | Num real

text \<open>
  \<^verbatim>\<open>x / c\<close> for a non-zero constant \<open>c\<close> (line 25: \<^verbatim>\<open>/ 100 / 12\<close>). The quotient is
  exact: a double quotient is rounded, and the quotient of a positive number below about
  \<^verbatim>\<open>3e-321\<close> by 1200 underflows to 0, which the exact quotient never does.
  Statements on what the guard accepts are therefore made on the quotient and not on
  the number it is taken from.
\<close>

fun num_div :: "number \<Rightarrow> real \<Rightarrow> number" where
  "num_div NaN c = NaN"
| "num_div (Num x) c = Num (x / c)"

text \<open>\<^verbatim>\<open>x < y\<close> for a number \<open>x\<close> that is not \<open>NaN\<close>: false when \<open>y\<close> is \<open>NaN\<close>.\<close>

fun num_less :: "real \<Rightarrow> number \<Rightarrow> bool" where
  "num_less x NaN = False"
| "num_less x (Num y) = (x < y)"

definition isWhiteSpace :: "char \<Rightarrow> bool" where
  "isWhiteSpace c = (c \<in> set [CHR '' '', CHR 0x09, CHR 0x0A, CHR 0x0B, CHR 0x0C, CHR 0x0D])"

definition isDigit :: "char \<Rightarrow> bool" where
  "isDigit c = (c \<in> set ''0123456789'')"

definition isHexDigit :: "char \<Rightarrow> bool" where
  "isHexDigit c = (c \<in> set ''0123456789abcdefABCDEF'')"

definition digitVal :: "char \<Rightarrow> nat" where
  "digitVal c =
     (if c \<in> set ''0123456789'' then of_char c - 48
      else if c \<in> set ''abcdef'' then of_char c - 87
      else of_char c - 55)"

definition digitsVal :: "nat \<Rightarrow> string \<Rightarrow> nat" where
  "digitsVal radix ds = foldl (\<lambda>a c. a * radix + digitVal c) 0 ds"

text \<open>An optional sign: whether it is a minus, and the rest of the text.\<close>

fun signOf :: "string \<Rightarrow> bool \<times> string" where
  "signOf [] = (False, [])"
| "signOf (c # cs) =
     (if c = CHR ''-'' then (True, cs)
      else if c = CHR ''+'' then (False, cs)
      else (False, c # cs))"

text \<open>
  \<^verbatim>\<open>parseInt(s)\<close> without a radix: leading white space is skipped, a sign is read, a
  prefix \<^verbatim>\<open>0x\<close> selects radix 16, and the longest run of digits of the radix is the
  value; with no digit the result is \<open>NaN\<close>. Everything after the digits is ignored, so
  the text \<^verbatim>\<open>2.5\<close> reads as \<open>2\<close>.
\<close>

definition parseInt :: "string \<Rightarrow> int option" where
  "parseInt s =
     (let (neg, u) = signOf (dropWhile isWhiteSpace s);
          hex = (take 2 u = ''0x'' \<or> take 2 u = ''0X'');
          ds = (if hex then takeWhile isHexDigit (drop 2 u) else takeWhile isDigit u);
          v = int (digitsVal (if hex then 16 else 10) ds)
      in if ds = [] then None else Some (if neg then - v else v))"

text \<open>The exponent part of a decimal literal; \<open>0\<close> when there is none.\<close>

fun exponentOf :: "string \<Rightarrow> int" where
  "exponentOf [] = 0"
| "exponentOf (c # cs) =
     (if c = CHR ''e'' \<or> c = CHR ''E'' then
        (let (neg, u) = signOf cs; ds = takeWhile isDigit u; v = int (digitsVal 10 ds)
         in if ds = [] then 0 else if neg then - v else v)
      else 0)"

text \<open>The digits after a decimal point, and the rest of the text.\<close>

fun fractionOf :: "string \<Rightarrow> string \<times> string" where
  "fractionOf [] = ([], [])"
| "fractionOf (c # cs) =
     (if c = CHR ''.'' then (takeWhile isDigit cs, dropWhile isDigit cs) else ([], c # cs))"

text \<open>
  \<^verbatim>\<open>parseFloat(s)\<close>: leading white space is skipped and the longest prefix that is a
  decimal literal (sign, digits, fraction, exponent) is the value; with no digit the
  result is \<open>NaN\<close>. The value is the exact value of the literal: the program gets the
  nearest double, which is 0 for a literal below the smallest double (such as
  \<^verbatim>\<open>1e-400\<close>) and an infinity for one above the largest. The literal \<^verbatim>\<open>Infinity\<close> has
  no value in \<open>number\<close> and reads as \<open>NaN\<close> here; the fields of the form are number
  inputs and never deliver it.
\<close>

definition parseFloat :: "string \<Rightarrow> number" where
  "parseFloat s =
     (let (neg, u) = signOf (dropWhile isWhiteSpace s);
          ip = takeWhile isDigit u;
          (fp, rest) = fractionOf (dropWhile isDigit u);
          m = real (digitsVal 10 (ip @ fp)) / 10 ^ length fp;
          e = exponentOf rest;
          v = (if 0 \<le> e then m * 10 ^ nat e else m / 10 ^ nat (- e))
      in if ip = [] \<and> fp = [] then NaN else Num (if neg then - v else v))"

text \<open>
  \<^verbatim>\<open>Math.pow(x, k)\<close> for a non-zero base and a whole exponent, the only way the code
  calls it (the base is \<^verbatim>\<open>1 + rate\<close> with a positive rate). The power is exact: the
  program gets an approximation of it in double precision, which is an infinity when
  the power exceeds the largest double (rate 1200 and term 100, for instance, where the
  computed payment is then \<open>NaN\<close>) and 1 when the rate is absorbed in \<^verbatim>\<open>1 + rate\<close>.
  Statements on the number of entries of a schedule generated with the computed
  payment hold for the exact power only.
\<close>

definition Math_pow :: "real \<Rightarrow> int \<Rightarrow> real" where
  "Math_pow x k = (if 0 \<le> k then x ^ nat k else 1 / x ^ nat (- k))"

text \<open>
  \<^verbatim>\<open>x.toFixed(2)\<close> yields the decimal text of \<open>n / 100\<close> for the integer \<open>n\<close> nearest to
  \<open>100 * x\<close>, a tie going to the larger magnitude. The text is represented by the number
  it denotes, which is also what \<^verbatim>\<open>parseFloat\<close> reads back from it in the chart code.
\<close>

definition toFixed2 :: "real \<Rightarrow> real" where
  "toFixed2 x =
     (if x < 0 then - (real_of_int \<lfloor>(- x) * 100 + 1 / 2\<rfloor> / 100)
      else real_of_int \<lfloor>x * 100 + 1 / 2\<rfloor> / 100)"

subsection \<open>The amortization callback (lines 23 to 91)\<close>

record entry =
  month :: int
  interest :: real
  principal :: real
  payment :: real
  remainingBalance :: real

record result =
  schedule :: "entry list"
  totalInterest :: real
  totalPayment :: real
  calculatedMthRepayment :: real

text \<open>The object returned at line 30.\<close>

definition noResult :: result where
  "noResult = \<lparr>schedule = [], totalInterest = 0, totalPayment = 0, calculatedMthRepayment = 0\<rparr>"

text \<open>
  Lines 34 to 40. The comparison \<^verbatim>\<open>balloon > 0\<close> is false for \<open>NaN\<close>.
\<close>

definition pmt :: "real \<Rightarrow> real \<Rightarrow> int \<Rightarrow> number \<Rightarrow> real" where
  "pmt principal' rate termInMonths balloon =
     (let pmt0 = principal' * (rate * Math_pow (1 + rate) termInMonths)
                   / (Math_pow (1 + rate) termInMonths - 1)
      in case balloon of
           NaN \<Rightarrow> pmt0
         | Num b \<Rightarrow>
             if b > 0 then
               (let balloonFactor = b / Math_pow (1 + rate) termInMonths
                in (principal' - balloonFactor) * (rate / (1 - Math_pow (1 + rate) (- termInMonths))))
             else pmt0)"

text \<open>Line 42: \<^verbatim>\<open>overrideRepayment && monthlyRepayment > 0 ? monthlyRepayment : pmt\<close>.\<close>

definition finalMonthlyRepayment :: "bool \<Rightarrow> number \<Rightarrow> real \<Rightarrow> real" where
  "finalMonthlyRepayment overrideRepayment monthlyRepayment pmt' =
     (case monthlyRepayment of
        NaN \<Rightarrow> pmt'
      | Num m \<Rightarrow> if overrideRepayment \<and> m > 0 then m else pmt')"

text \<open>
  Lines 61 to 67, the balance after the balloon branch of period \<open>i\<close>. Both comparisons
  with a \<open>NaN\<close> balloon are false, so nothing is subtracted then.
\<close>

definition balloonBranch :: "int \<Rightarrow> int \<Rightarrow> number \<Rightarrow> real \<Rightarrow> real" where
  "balloonBranch i termInMonths balloon remainingBalance' =
     (case balloon of
        NaN \<Rightarrow> remainingBalance'
      | Num b \<Rightarrow>
          if i = termInMonths \<and> remainingBalance' > b then remainingBalance'
          else if i = termInMonths \<and> b > 0 then remainingBalance' - b
          else remainingBalance')"

text \<open>
  The loop of lines 49 to 81 as a function of its variables: the period \<open>i\<close>, the
  balance, the schedule built so far and the interest accumulated so far. It returns
  the schedule and the accumulated interest at the exit of the loop.
\<close>

function loop :: "real \<Rightarrow> int \<Rightarrow> number \<Rightarrow> real \<Rightarrow> int \<Rightarrow> real \<Rightarrow> entry list \<Rightarrow> real
                   \<Rightarrow> entry list \<times> real" where
  "loop rate termInMonths balloon finalPayment i remainingBalance' newSchedule cumulativeInterest =
     (if i \<le> termInMonths \<and> remainingBalance' > 0 then
        (let interestForMonth = remainingBalance' * rate;
             principalForMonth0 = finalPayment - interestForMonth;
             principalForMonth =
               (if remainingBalance' - principalForMonth0 < 0 then remainingBalance'
                else principalForMonth0);
             remainingBalance1 = remainingBalance' - principalForMonth;
             remainingBalance2 = balloonBranch i termInMonths balloon remainingBalance1;
             cumulativeInterest' = cumulativeInterest + interestForMonth;
             newSchedule' = newSchedule @
               [\<lparr>month = i,
                 interest = toFixed2 interestForMonth,
                 principal = toFixed2 principalForMonth,
                 payment = toFixed2 (principalForMonth + interestForMonth),
                 remainingBalance = toFixed2 remainingBalance2\<rparr>]
         in if remainingBalance2 \<le> 0 then (newSchedule', cumulativeInterest')
            else loop rate termInMonths balloon finalPayment (i + 1) remainingBalance2
                   newSchedule' cumulativeInterest')
      else (newSchedule, cumulativeInterest))"
  by pat_completeness auto
termination
  by (relation "measure (\<lambda>(rate, termInMonths, balloon, finalPayment, i, rest).
                  nat (termInMonths + 1 - i))") auto

declare loop.simps [simp del]

text \<open>
  The callback. The guard of line 29 rejects a \<open>NaN\<close> among \<^verbatim>\<open>principal\<close>,
  \<^verbatim>\<open>rate\<close> and \<^verbatim>\<open>termInMonths\<close> (the last alternative of the case distinction) and a
  value of them that is not positive; \<^verbatim>\<open>balloon\<close> does not occur in it.
\<close>

definition amortization :: "string \<Rightarrow> string \<Rightarrow> string \<Rightarrow> string \<Rightarrow> number \<Rightarrow> bool \<Rightarrow> result" where
  "amortization loanAmount interestRate loanTerm balloonPayment monthlyRepayment overrideRepayment =
     (let balloon = parseFloat balloonPayment
      in case (parseFloat loanAmount,
               num_div (num_div (parseFloat interestRate) 100) 12,
               map_option (\<lambda>k. k * 12) (parseInt loanTerm)) of
           (Num principal', Num rate, Some termInMonths) \<Rightarrow>
             if principal' \<le> 0 \<or> rate \<le> 0 \<or> termInMonths \<le> 0 then noResult
             else
               (let pmt' = pmt principal' rate termInMonths balloon;
                    finalPayment = finalMonthlyRepayment overrideRepayment monthlyRepayment pmt';
                    (newSchedule, cumulativeInterest) =
                       loop rate termInMonths balloon finalPayment 1 principal' [] 0;
                    finalTotalPayment = principal' + cumulativeInterest
                in \<lparr>schedule = newSchedule,
                    totalInterest = cumulativeInterest,
                    totalPayment = finalTotalPayment,
                    calculatedMthRepayment = pmt'\<rparr>)
         | _ \<Rightarrow> noResult)"

subsection \<open>The chart callback (lines 101 to 123)\<close>

record yearly =
  name :: nat
  Principal :: real
  Interest :: real

text \<open>\<^verbatim>\<open>xs.slice(a, b)\<close> for \<open>0 \<le> a \<le> b\<close>.\<close>

definition slice :: "'a list \<Rightarrow> nat \<Rightarrow> nat \<Rightarrow> 'a list" where
  "slice xs a b = take (b - a) (drop a xs)"

text \<open>
  The loop of lines 105 to 121. The bound \<^verbatim>\<open>loanTerm\<close> is the state value as the
  comparison \<^verbatim>\<open>i < loanTerm\<close> reads it, a number or \<open>NaN\<close>. The field \<^verbatim>\<open>name\<close>, the
  text \<^verbatim>\<open>Year y\<close>, is represented by \<open>y\<close>.
\<close>

function chartLoop :: "entry list \<Rightarrow> number \<Rightarrow> nat \<Rightarrow> yearly list \<Rightarrow> yearly list" where
  "chartLoop schedule' loanTerm i yearlyData =
     (if num_less (real i) loanTerm then
        (let year = i + 1;
             yearStartMonth = i * 12;
             yearEndMonth = yearStartMonth + 12;
             yearSchedule = slice schedule' yearStartMonth yearEndMonth
         in if length yearSchedule = 0 then yearlyData
            else
              (let totalPrincipal = foldl (\<lambda>acc curr. acc + principal curr) 0 yearSchedule;
                   totalInterest = foldl (\<lambda>acc curr. acc + interest curr) 0 yearSchedule
               in chartLoop schedule' loanTerm (i + 1)
                    (yearlyData @
                       [\<lparr>name = year, Principal = totalPrincipal, Interest = totalInterest\<rparr>])))
      else yearlyData)"
  by pat_completeness auto
termination
  by (relation "measure (\<lambda>(schedule', loanTerm, i, yearlyData). length schedule' - i * 12)")
     (auto simp: slice_def)

declare chartLoop.simps [simp del]

definition chartData :: "entry list \<Rightarrow> number \<Rightarrow> yearly list" where
  "chartData schedule' loanTerm =
     (if length schedule' = 0 then [] else chartLoop schedule' loanTerm 0 [])"

subsection \<open>The parts of one period of the loop\<close>

text \<open>
  The body of the loop computes, from the balance \<open>b\<close> at the start of period \<open>i\<close>, the
  principal paid in the period (lines 52 to 57), the balance at its end (lines 59 to 67)
  and the entry pushed (lines 72 to 78). The three are named here so that the loop can be
  reasoned about one period at a time; \<open>loop_unfold\<close> below shows that they are what the
  loop does.
\<close>

definition principalOf :: "real \<Rightarrow> real \<Rightarrow> real \<Rightarrow> real" where
  "principalOf rate finalPayment b =
     (if b - (finalPayment - b * rate) < 0 then b else finalPayment - b * rate)"

definition balanceAfter :: "real \<Rightarrow> int \<Rightarrow> number \<Rightarrow> real \<Rightarrow> int \<Rightarrow> real \<Rightarrow> real" where
  "balanceAfter rate termInMonths balloon finalPayment i b =
     balloonBranch i termInMonths balloon (b - principalOf rate finalPayment b)"

definition entryOf :: "real \<Rightarrow> int \<Rightarrow> number \<Rightarrow> real \<Rightarrow> int \<Rightarrow> real \<Rightarrow> entry" where
  "entryOf rate termInMonths balloon finalPayment i b =
     \<lparr>month = i,
      interest = toFixed2 (b * rate),
      principal = toFixed2 (principalOf rate finalPayment b),
      payment = toFixed2 (principalOf rate finalPayment b + b * rate),
      remainingBalance = toFixed2 (balanceAfter rate termInMonths balloon finalPayment i b)\<rparr>"

text \<open>
  The entries pushed and the interest accumulated by the loop when it is entered at
  period \<open>i\<close> with balance \<open>b\<close>.
\<close>

definition entriesFrom :: "real \<Rightarrow> int \<Rightarrow> number \<Rightarrow> real \<Rightarrow> int \<Rightarrow> real \<Rightarrow> entry list" where
  "entriesFrom r n B p i b = fst (loop r n B p i b [] 0)"

definition interestFrom :: "real \<Rightarrow> int \<Rightarrow> number \<Rightarrow> real \<Rightarrow> int \<Rightarrow> real \<Rightarrow> real" where
  "interestFrom r n B p i b = snd (loop r n B p i b [] 0)"

subsection \<open>The formulas of the specification\<close>

text \<open>
  Section 4.2 of the specification, in its own words: the payment without a balloon and
  the payment adjusted for a balloon \<open>B\<close>, for the periodic rate \<open>r\<close> and \<open>n\<close> periods.
\<close>

definition basePayment :: "real \<Rightarrow> real \<Rightarrow> nat \<Rightarrow> real" where
  "basePayment P r n = P * r * (1 + r) ^ n / ((1 + r) ^ n - 1)"

definition balloonAdjustedPayment :: "real \<Rightarrow> real \<Rightarrow> real \<Rightarrow> nat \<Rightarrow> real" where
  "balloonAdjustedPayment P B r n = (P - B / (1 + r) ^ n) * r / (1 - (1 + r) powi (- int n))"

text \<open>
  The balance after the payment of one period, before the balloon branch: steps 1 to 4 of
  section 4.3.
\<close>

definition payDown :: "real \<Rightarrow> real \<Rightarrow> real \<Rightarrow> real" where
  "payDown r p b = b - principalOf r p b"

subsection \<open>The balance in exact arithmetic\<close>

text \<open>
  The balloon as the payment formula and the final period see it (0 unless it is a
  positive number), and the balance that the annuity formula predicts after \<open>k\<close> of \<open>N\<close>
  payments: it falls (or, for a balloon above the principal, rises) from \<open>P\<close> to the
  balloon \<open>c\<close>.
\<close>

definition effectiveBalloon :: "number \<Rightarrow> real" where
  "effectiveBalloon B = (case B of NaN \<Rightarrow> 0 | Num c \<Rightarrow> if c > 0 then c else 0)"

definition scheduledBalance :: "real \<Rightarrow> real \<Rightarrow> real \<Rightarrow> nat \<Rightarrow> nat \<Rightarrow> real" where
  "scheduledBalance P c r N k =
     (P * ((1 + r) ^ N - (1 + r) ^ k) + c * ((1 + r) ^ k - 1)) / ((1 + r) ^ N - 1)"

subsection \<open>The yearly aggregation of the specification\<close>

text \<open>
  Section 4.4 of the specification, in its own words: for the years \<open>y\<close> of a list, in
  order, take the entries whose month lies in \<open>[(y - 1) * 12 + 1, y * 12]\<close>; stop at the
  first year without an entry; otherwise sum the principal and the interest of the
  entries into the summary of the year.
\<close>

definition inYear :: "nat \<Rightarrow> entry \<Rightarrow> bool" where
  "inYear y e = (int ((y - 1) * 12 + 1) \<le> month e \<and> month e \<le> int (y * 12))"

fun yearlySummaries :: "entry list \<Rightarrow> nat list \<Rightarrow> yearly list" where
  "yearlySummaries s [] = []"
| "yearlySummaries s (y # ys) =
     (let sl = filter (inYear y) s
      in if sl = [] then []
         else \<lparr>name = y,
               Principal = sum_list (map principal sl),
               Interest = sum_list (map interest sl)\<rparr> # yearlySummaries s ys)"

subsection \<open>The amortization callback in double precision\<close>

text \<open>
  The nearest integer, a tie going to the even one.
\<close>

definition round_even :: "real \<Rightarrow> int" where
  "round_even x =
     (let f = \<lfloor>x\<rfloor>
      in if x - of_int f < 1 / 2 then f
         else if 1 / 2 < x - of_int f then f + 1
         else if even f then f else f + 1)"

text \<open>
  The double nearest to a real number. A double other than 0 is a whole number \<open>m\<close> of
  at most 53 bits times a power of two; for \<open>x\<close> between \<open>2 ^ j\<close> and \<open>2 ^ (j + 1)\<close> the
  doubles are the multiples of \<open>2 ^ (j - 52)\<close>, and IEEE 754 rounding (to nearest, ties to
  even) delivers the multiple nearest to \<open>x\<close>. The rounding has 53 bits at every
  magnitude here: the overflow to an infinity above \<open>2 ^ 1024\<close> and the coarser
  subnormal doubles below \<open>2 ^ (- 1022)\<close> are not modelled.
\<close>

definition rnd :: "real \<Rightarrow> real" where
  "rnd x =
     (if x = 0 then 0
      else (let e = \<lfloor>log 2 \<bar>x\<bar>\<rfloor> - 52
            in of_int (round_even (x / 2 powi e)) * 2 powi e))"

text \<open>
  \<open>rounds_to x m k\<close> is a sufficient condition, in terms of comparisons only, for
  \<open>m / 2 ^ k\<close> to be the double nearest to the positive number \<open>x\<close> (lemma
  \<open>rnd_rounds_to\<close> below): \<open>m\<close> has exactly 53 bits, \<open>x\<close> lies in the same binade, and
  \<open>x * 2 ^ k\<close> is within one half of \<open>m\<close>, at exactly one half only for an even \<open>m\<close>.
\<close>

definition rounds_to :: "real \<Rightarrow> int \<Rightarrow> nat \<Rightarrow> bool" where
  "rounds_to x m k =
     (2 ^ 52 \<le> m \<and> m < 2 ^ 53 \<and> 2 ^ 52 \<le> x * 2 ^ k \<and>
      (2 * of_int m - 1 < 2 * (x * 2 ^ k) \<and> 2 * (x * 2 ^ k) < 2 * of_int m + 1 \<or>
       even m \<and> (2 * (x * 2 ^ k) = 2 * of_int m - 1 \<or> 2 * (x * 2 ^ k) = 2 * of_int m + 1)))"


text \<open>
  The callback once more, with a rounding \<open>rd\<close> applied to the result of every
  arithmetic operation, in the order in which JavaScript evaluates the expressions of
  lines 24 to 83. With \<open>rd = rnd\<close> this is the callback as the program computes it; with
  the identity for \<open>rd\<close> it is \<open>amortization\<close> above (lemma \<open>amortizationR_exact\<close>
  below). \<^verbatim>\<open>parseFloat\<close> delivers the double nearest to the value of the literal.
  \<^verbatim>\<open>termInMonths\<close> and the loop counter are whole numbers far below \<open>2 ^ 53\<close> and are
  kept exact. \<^verbatim>\<open>toFixed(2)\<close> works on the exact value of the double and needs no
  rounding of its own.
\<close>

fun num_rd :: "(real \<Rightarrow> real) \<Rightarrow> number \<Rightarrow> number" where
  "num_rd rd NaN = NaN"
| "num_rd rd (Num x) = Num (rd x)"

text \<open>
  \<^verbatim>\<open>Math.pow\<close> is taken to deliver the rounded exact power. The language requires an
  approximation only, so an engine may deliver a neighbouring double.
\<close>

definition Math_powR :: "(real \<Rightarrow> real) \<Rightarrow> real \<Rightarrow> int \<Rightarrow> real" where
  "Math_powR rd x k = rd (Math_pow x k)"

text \<open>Lines 34 to 40.\<close>

definition pmtR :: "(real \<Rightarrow> real) \<Rightarrow> real \<Rightarrow> real \<Rightarrow> int \<Rightarrow> number \<Rightarrow> real" where
  "pmtR rd principal' rate termInMonths balloon =
     (let pmt0 = rd (rd (principal' * rd (rate * Math_powR rd (rd (1 + rate)) termInMonths))
                   / rd (Math_powR rd (rd (1 + rate)) termInMonths - 1))
      in case balloon of
           NaN \<Rightarrow> pmt0
         | Num b \<Rightarrow>
             if b > 0 then
               (let balloonFactor = rd (b / Math_powR rd (rd (1 + rate)) termInMonths)
                in rd (rd (principal' - balloonFactor)
                     * rd (rate / rd (1 - Math_powR rd (rd (1 + rate)) (- termInMonths)))))
             else pmt0)"

text \<open>Lines 61 to 67.\<close>

definition balloonBranchR :: "(real \<Rightarrow> real) \<Rightarrow> int \<Rightarrow> int \<Rightarrow> number \<Rightarrow> real \<Rightarrow> real" where
  "balloonBranchR rd i termInMonths balloon remainingBalance' =
     (case balloon of
        NaN \<Rightarrow> remainingBalance'
      | Num b \<Rightarrow>
          if i = termInMonths \<and> remainingBalance' > b then remainingBalance'
          else if i = termInMonths \<and> b > 0 then rd (remainingBalance' - b)
          else remainingBalance')"

text \<open>The loop of lines 49 to 81.\<close>

function loopR :: "(real \<Rightarrow> real) \<Rightarrow> real \<Rightarrow> int \<Rightarrow> number \<Rightarrow> real \<Rightarrow> int \<Rightarrow> real \<Rightarrow> entry list
                    \<Rightarrow> real \<Rightarrow> entry list \<times> real" where
  "loopR rd rate termInMonths balloon finalPayment i remainingBalance' newSchedule
       cumulativeInterest =
     (if i \<le> termInMonths \<and> remainingBalance' > 0 then
        (let interestForMonth = rd (remainingBalance' * rate);
             principalForMonth0 = rd (finalPayment - interestForMonth);
             principalForMonth =
               (if rd (remainingBalance' - principalForMonth0) < 0 then remainingBalance'
                else principalForMonth0);
             remainingBalance1 = rd (remainingBalance' - principalForMonth);
             remainingBalance2 = balloonBranchR rd i termInMonths balloon remainingBalance1;
             cumulativeInterest' = rd (cumulativeInterest + interestForMonth);
             newSchedule' = newSchedule @
               [\<lparr>month = i,
                 interest = toFixed2 interestForMonth,
                 principal = toFixed2 principalForMonth,
                 payment = toFixed2 (rd (principalForMonth + interestForMonth)),
                 remainingBalance = toFixed2 remainingBalance2\<rparr>]
         in if remainingBalance2 \<le> 0 then (newSchedule', cumulativeInterest')
            else loopR rd rate termInMonths balloon finalPayment (i + 1) remainingBalance2
                   newSchedule' cumulativeInterest')
      else (newSchedule, cumulativeInterest))"
  by pat_completeness auto
termination
  by (relation "measure (\<lambda>(rd, rate, termInMonths, balloon, finalPayment, i, rest).
                  nat (termInMonths + 1 - i))") auto

declare loopR.simps [simp del]

text \<open>The callback, lines 23 to 91.\<close>

definition amortizationR ::
  "(real \<Rightarrow> real) \<Rightarrow> string \<Rightarrow> string \<Rightarrow> string \<Rightarrow> string \<Rightarrow> number \<Rightarrow> bool \<Rightarrow> result" where
  "amortizationR rd loanAmount interestRate loanTerm balloonPayment monthlyRepayment
       overrideRepayment =
     (let balloon = num_rd rd (parseFloat balloonPayment)
      in case (num_rd rd (parseFloat loanAmount),
               num_rd rd (num_div (num_rd rd (num_div (num_rd rd (parseFloat interestRate)) 100)) 12),
               map_option (\<lambda>k. k * 12) (parseInt loanTerm)) of
           (Num principal', Num rate, Some termInMonths) \<Rightarrow>
             if principal' \<le> 0 \<or> rate \<le> 0 \<or> termInMonths \<le> 0 then noResult
             else
               (let pmt' = pmtR rd principal' rate termInMonths balloon;
                    finalPayment = finalMonthlyRepayment overrideRepayment monthlyRepayment pmt';
                    (newSchedule, cumulativeInterest) =
                       loopR rd rate termInMonths balloon finalPayment 1 principal' [] 0;
                    finalTotalPayment = rd (principal' + cumulativeInterest)
                in \<lparr>schedule = newSchedule,
                    totalInterest = cumulativeInterest,
                    totalPayment = finalTotalPayment,
                    calculatedMthRepayment = pmt'\<rparr>)
         | _ \<Rightarrow> noResult)"

text \<open>
  The parts of one period of the rounded loop and the entries it pushes when it is
  entered at period \<open>i\<close> with balance \<open>b\<close>.
\<close>

definition principalOfR :: "(real \<Rightarrow> real) \<Rightarrow> real \<Rightarrow> real \<Rightarrow> real \<Rightarrow> real" where
  "principalOfR rd rate finalPayment b =
     (if rd (b - rd (finalPayment - rd (b * rate))) < 0 then b
      else rd (finalPayment - rd (b * rate)))"

definition balanceAfterR ::
  "(real \<Rightarrow> real) \<Rightarrow> real \<Rightarrow> int \<Rightarrow> number \<Rightarrow> real \<Rightarrow> int \<Rightarrow> real \<Rightarrow> real" where
  "balanceAfterR rd rate termInMonths balloon finalPayment i b =
     balloonBranchR rd i termInMonths balloon (rd (b - principalOfR rd rate finalPayment b))"

definition entryOfR ::
  "(real \<Rightarrow> real) \<Rightarrow> real \<Rightarrow> int \<Rightarrow> number \<Rightarrow> real \<Rightarrow> int \<Rightarrow> real \<Rightarrow> entry" where
  "entryOfR rd rate termInMonths balloon finalPayment i b =
     \<lparr>month = i,
      interest = toFixed2 (rd (b * rate)),
      principal = toFixed2 (principalOfR rd rate finalPayment b),
      payment = toFixed2 (rd (principalOfR rd rate finalPayment b + rd (b * rate))),
      remainingBalance = toFixed2 (balanceAfterR rd rate termInMonths balloon finalPayment i b)\<rparr>"

definition entriesFromR ::
  "(real \<Rightarrow> real) \<Rightarrow> real \<Rightarrow> int \<Rightarrow> number \<Rightarrow> real \<Rightarrow> int \<Rightarrow> real \<Rightarrow> entry list" where
  "entriesFromR rd r n B p i b = fst (loopR rd r n B p i b [] 0)"

section \<open>Properties\<close>

subsection \<open>The loop, one period at a time\<close>

lemma loop_unfold:
  "loop r n B p i b acc cum =
     (if i \<le> n \<and> b > 0 then
        (if balanceAfter r n B p i b \<le> 0 then (acc @ [entryOf r n B p i b], cum + b * r)
         else loop r n B p (i + 1) (balanceAfter r n B p i b) (acc @ [entryOf r n B p i b]) (cum + b * r))
      else (acc, cum))"
  by (subst loop.simps) (simp add: Let_def balanceAfter_def entryOf_def principalOf_def)

lemma loop_acc:
  "loop r n B p i b acc cum =
     (acc @ fst (loop r n B p i b [] 0), cum + snd (loop r n B p i b [] 0))"
proof (induction "nat (n + 1 - i)" arbitrary: i b acc cum)
  case 0
  then have "\<not> i \<le> n" by simp
  then show ?case by (simp add: loop_unfold)
next
  case (Suc k)
  then have k: "k = nat (n + 1 - (i + 1))" by simp
  show ?case
  proof (cases "i \<le> n \<and> b > 0 \<and> \<not> balanceAfter r n B p i b \<le> 0")
    case True
    let ?b = "balanceAfter r n B p i b"
    let ?e = "entryOf r n B p i b"
    have 1: "loop r n B p i b acc cum = loop r n B p (i + 1) ?b (acc @ [?e]) (cum + b * r)"
      using True by (subst loop_unfold) simp
    have 2: "loop r n B p i b [] 0 = loop r n B p (i + 1) ?b [?e] (b * r)"
      using True by (subst loop_unfold) simp
    show ?thesis
      unfolding 1 2
      by (subst Suc.hyps(1) [OF k]) (subst (2 3) Suc.hyps(1) [OF k], simp)
  next
    case False
    then show ?thesis by (subst (1 2 3) loop_unfold) auto
  qed
qed


lemma entriesFrom_unfold:
  "entriesFrom r n B p i b =
     (if i \<le> n \<and> 0 < b then
        entryOf r n B p i b #
          (if balanceAfter r n B p i b \<le> 0 then []
           else entriesFrom r n B p (i + 1) (balanceAfter r n B p i b))
      else [])"
  unfolding entriesFrom_def
  by (subst loop_unfold, subst loop_acc) simp

lemma interestFrom_unfold:
  "interestFrom r n B p i b =
     (if i \<le> n \<and> 0 < b then
        b * r +
          (if balanceAfter r n B p i b \<le> 0 then 0
           else interestFrom r n B p (i + 1) (balanceAfter r n B p i b))
      else 0)"
  unfolding interestFrom_def
  by (subst loop_unfold, subst loop_acc) simp

lemma toFixed2_nonneg: "0 \<le> x \<Longrightarrow> 0 \<le> toFixed2 x"
  by (simp add: toFixed2_def)

lemma toFixed2_nonpos: "x \<le> 0 \<Longrightarrow> toFixed2 x \<le> 0"
proof (cases "x < 0")
  case True
  then have "0 \<le> (- x) * 100 + 1 / 2" by simp
  then have "0 \<le> \<lfloor>(- x) * 100 + 1 / 2\<rfloor>" by (simp only: zero_le_floor)
  then have "0 \<le> real_of_int \<lfloor>(- x) * 100 + 1 / 2\<rfloor> / 100" by simp
  with True show ?thesis by (simp add: toFixed2_def)
next
  case False
  assume "x \<le> 0"
  with False have "x = 0" by simp
  then show ?thesis by (simp add: toFixed2_def)
qed

lemma toFixed2_mono: "x \<le> y \<Longrightarrow> toFixed2 x \<le> toFixed2 y"
proof -
  assume xy: "x \<le> y"
  have fl: "\<And>a b::real. a \<le> b \<Longrightarrow>
      real_of_int \<lfloor>a * 100 + 1 / 2\<rfloor> / 100 \<le> real_of_int \<lfloor>b * 100 + 1 / 2\<rfloor> / 100"
    by (simp add: floor_mono divide_right_mono)
  show ?thesis
  proof (cases "x < 0")
    case True
    show ?thesis
    proof (cases "y < 0")
      case True
      with \<open>x < 0\<close> xy fl [of "- y" "- x"] show ?thesis by (simp add: toFixed2_def)
    next
      case False
      then have "0 \<le> toFixed2 y" by (intro toFixed2_nonneg) simp
      moreover have "toFixed2 x \<le> 0" using True by (intro toFixed2_nonpos) simp
      ultimately show ?thesis by linarith
    qed
  next
    case False
    with xy fl [of x y] show ?thesis by (simp add: toFixed2_def)
  qed
qed

lemma toFixed2_zero: "toFixed2 0 = 0"
  by (simp add: toFixed2_def)

lemma paid_nonneg: "0 \<le> b - principalOf r p b"
  by (simp add: principalOf_def)

lemma paid_le: "0 \<le> b \<Longrightarrow> b * r \<le> p \<Longrightarrow> b - principalOf r p b \<le> b"
  by (simp add: principalOf_def)

lemma balloonBranch_le: "balloonBranch i n B x \<le> x"
  by (simp add: balloonBranch_def split: number.splits)

lemma balloonBranch_other: "i \<noteq> n \<Longrightarrow> balloonBranch i n B x = x"
  by (simp add: balloonBranch_def split: number.splits)

lemma balloonBranch_neg:
  "0 \<le> x \<Longrightarrow> balloonBranch i n B x < 0 \<Longrightarrow> i = n \<and> (\<exists>c>0. B = Num c \<and> x < c)"
  by (auto simp: balloonBranch_def split: number.splits if_splits)

lemma balanceAfter_le: "0 \<le> b \<Longrightarrow> b * r \<le> p \<Longrightarrow> balanceAfter r n B p i b \<le> b"
  unfolding balanceAfter_def
  using balloonBranch_le [of i n B "b - principalOf r p b"] paid_le [of b r p] by linarith

lemma entries_nonincreasing:
  "0 \<le> r \<Longrightarrow> 0 \<le> b \<Longrightarrow> b * r \<le> p \<Longrightarrow>
     sorted_wrt (\<ge>) (map remainingBalance (entriesFrom r n B p i b)) \<and>
     (\<forall>e \<in> set (entriesFrom r n B p i b). remainingBalance e \<le> toFixed2 b)"
proof (induction "nat (n + 1 - i)" arbitrary: i b)
  case 0
  then have "\<not> i \<le> n" by simp
  then show ?case by (subst (1 2) entriesFrom_unfold) simp
next
  case (Suc k)
  let ?b = "balanceAfter r n B p i b"
  let ?e = "entryOf r n B p i b"
  have le: "?b \<le> b" using Suc.prems by (intro balanceAfter_le)
  have e: "remainingBalance ?e = toFixed2 ?b" by (simp add: entryOf_def)
  show ?case
  proof (cases "i \<le> n \<and> 0 < b \<and> \<not> ?b \<le> 0")
    case True
    have k: "k = nat (n + 1 - (i + 1))" using Suc.hyps(2) by simp
    have "?b * r \<le> b * r" using le Suc.prems(1) by (rule mult_right_mono)
    then have p: "?b * r \<le> p" using Suc.prems(3) by simp
    have nn: "0 \<le> ?b" using True by simp
    note IH = Suc.hyps(1) [OF k Suc.prems(1) nn p]
    have unf: "entriesFrom r n B p i b = ?e # entriesFrom r n B p (i + 1) ?b"
      using True by (subst entriesFrom_unfold) simp
    have "\<forall>e' \<in> set (entriesFrom r n B p (i + 1) ?b). remainingBalance e' \<le> toFixed2 b"
      using IH toFixed2_mono [OF le] by fastforce
    with IH show ?thesis
      unfolding unf using toFixed2_mono [OF le] by (simp add: e)
  next
    case False
    then show ?thesis
      using toFixed2_mono [OF le] by (subst (1 2) entriesFrom_unfold) (auto simp: e)
  qed
qed

lemma entries_negative_final_balloon:
  "e \<in> set (entriesFrom r n B p i b) \<Longrightarrow> remainingBalance e < 0 \<Longrightarrow>
     month e = n \<and> (\<exists>c>0. B = Num c \<and> (payDown r p ^^ nat (n + 1 - i)) b < c)"
proof (induction "nat (n + 1 - i)" arbitrary: i b)
  case 0
  then have "\<not> i \<le> n" by simp
  with 0 show ?case by (subst (asm) entriesFrom_unfold) simp
next
  case (Suc k)
  let ?b = "balanceAfter r n B p i b"
  let ?e = "entryOf r n B p i b"
  have k: "k = nat (n + 1 - (i + 1))" using Suc.hyps(2) by simp
  have i: "i \<le> n" using Suc.hyps(2) by simp
  from Suc.prems(1) have cases: "e = ?e \<or> (\<not> ?b \<le> 0 \<and> e \<in> set (entriesFrom r n B p (i + 1) ?b))"
    by (subst (asm) entriesFrom_unfold) (auto split: if_splits)
  show ?case
  proof (cases "e = ?e")
    case True
    then have "toFixed2 ?b < 0" using Suc.prems(2) by (simp add: entryOf_def)
    then have "\<not> 0 \<le> ?b" using toFixed2_nonneg [of ?b] by linarith
    then have "balloonBranch i n B (payDown r p b) < 0"
      by (simp add: balanceAfter_def payDown_def)
    moreover have "0 \<le> payDown r p b" unfolding payDown_def by (rule paid_nonneg)
    ultimately have "i = n \<and> (\<exists>c>0. B = Num c \<and> payDown r p b < c)"
      by (intro balloonBranch_neg)
    then show ?thesis using True by (auto simp: entryOf_def)
  next
    case False
    with cases have go: "\<not> ?b \<le> 0" and mem: "e \<in> set (entriesFrom r n B p (i + 1) ?b)"
      by simp_all
    have "i \<noteq> n"
    proof
      assume "i = n"
      then have "entriesFrom r n B p (i + 1) ?b = []" by (subst entriesFrom_unfold) simp
      with mem show False by simp
    qed
    then have b: "?b = payDown r p b"
      by (simp add: balanceAfter_def payDown_def balloonBranch_other)
    have "nat (n + 1 - i) = Suc (nat (n + 1 - (i + 1)))" using i by simp
    then have "(payDown r p ^^ nat (n + 1 - i)) b = (payDown r p ^^ nat (n + 1 - (i + 1))) ?b"
      unfolding b by (simp add: funpow_swap1)
    then show ?thesis using Suc.hyps(1) [OF k mem Suc.prems(2)] by simp
  qed
qed


subsection \<open>The guard\<close>

lemmas parse_defs =
  parseFloat_def parseInt_def isWhiteSpace_def isDigit_def isHexDigit_def digitsVal_def digitVal_def

lemmas step_defs = balanceAfter_def balloonBranch_def principalOf_def entryOf_def toFixed2_def

lemma amortization_valid:
  assumes "parseFloat la = Num P" "parseFloat ir = Num pct" "parseInt tm = Some y"
    and "0 < P" "0 < pct" "0 < y"
  shows "amortization la ir tm bp m ov =
           (let r = pct / 100 / 12; n = y * 12; B = parseFloat bp;
                p = finalMonthlyRepayment ov m (pmt P r n B);
                out = loop r n B p 1 P [] 0
            in \<lparr>schedule = fst out, totalInterest = snd out, totalPayment = P + snd out,
                calculatedMthRepayment = pmt P r n B\<rparr>)"
  using assms by (simp add: amortization_def Let_def case_prod_beta)
lemma amortization_invalid:
  assumes "(\<forall>P. parseFloat la = Num P \<longrightarrow> P \<le> 0) \<or> (\<forall>pct. parseFloat ir = Num pct \<longrightarrow> pct \<le> 0)
           \<or> (\<forall>y. parseInt tm = Some y \<longrightarrow> y \<le> 0)"
  shows "amortization la ir tm bp m ov = noResult"
proof (cases "parseFloat la")
  case NaN
  then show ?thesis by (simp add: amortization_def)
next
  case P: (Num P)
  show ?thesis
  proof (cases "parseFloat ir")
    case NaN
    then show ?thesis using P by (simp add: amortization_def)
  next
    case pct: (Num pct)
    show ?thesis
    proof (cases "parseInt tm")
      case None
      then show ?thesis using P pct by (simp add: amortization_def)
    next
      case (Some y)
      have "P \<le> 0 \<or> pct \<le> 0 \<or> y \<le> 0" using assms P pct Some by auto
      then show ?thesis using P pct Some by (auto simp: amortization_def)
    qed
  qed
qed
lemma entriesFrom_nonempty: "i \<le> n \<Longrightarrow> 0 < b \<Longrightarrow> entriesFrom r n B p i b \<noteq> []"
  by (subst entriesFrom_unfold) simp

lemma amortization_accepted:
  assumes "parseFloat la = Num P" "parseFloat ir = Num pct" "parseInt tm = Some y"
    and "0 < P" "0 < pct" "0 < y"
  shows "amortization la ir tm bp m ov =
           \<lparr>schedule =
              entriesFrom (pct / 100 / 12) (y * 12) (parseFloat bp)
                (finalMonthlyRepayment ov m (pmt P (pct / 100 / 12) (y * 12) (parseFloat bp))) 1 P,
            totalInterest =
              interestFrom (pct / 100 / 12) (y * 12) (parseFloat bp)
                (finalMonthlyRepayment ov m (pmt P (pct / 100 / 12) (y * 12) (parseFloat bp))) 1 P,
            totalPayment = P +
              interestFrom (pct / 100 / 12) (y * 12) (parseFloat bp)
                (finalMonthlyRepayment ov m (pmt P (pct / 100 / 12) (y * 12) (parseFloat bp))) 1 P,
            calculatedMthRepayment = pmt P (pct / 100 / 12) (y * 12) (parseFloat bp)\<rparr>"
  by (simp add: amortization_valid [OF assms] Let_def entriesFrom_def interestFrom_def)

lemma schedule_accepted_nonempty:
  assumes "parseFloat la = Num P" "parseFloat ir = Num pct" "parseInt tm = Some y"
    and "0 < P" "0 < pct" "0 < y"
  shows "schedule (amortization la ir tm bp m ov) \<noteq> []"
  using assms(4,6) by (simp add: amortization_accepted [OF assms] entriesFrom_nonempty)

lemma interestFrom_sum:
  "interestFrom r n B p i b =
     (\<Sum>k<length (entriesFrom r n B p i b). (payDown r p ^^ k) b * r)"
proof (induction "nat (n + 1 - i)" arbitrary: i b)
  case 0
  then have "\<not> i \<le> n" by simp
  then show ?case by (subst interestFrom_unfold, subst entriesFrom_unfold) simp
next
  case (Suc k)
  let ?b = "balanceAfter r n B p i b"
  have k: "k = nat (n + 1 - (i + 1))" using Suc.hyps(2) by simp
  show ?case
  proof (cases "i \<le> n \<and> 0 < b")
    case False
    show ?thesis by (subst interestFrom_unfold, subst entriesFrom_unfold) (simp add: False)
  next
    case True
    show ?thesis
    proof (cases "?b \<le> 0 \<or> i = n")
      case True
      have "entriesFrom r n B p (i + 1) ?b = []" if "i = n"
        using that by (subst entriesFrom_unfold) simp
      moreover have "interestFrom r n B p (i + 1) ?b = 0" if "i = n"
        using that by (subst interestFrom_unfold) simp
      ultimately show ?thesis
        using True \<open>i \<le> n \<and> 0 < b\<close>
        by (subst interestFrom_unfold, subst entriesFrom_unfold) auto
    next
      case False
      then have b: "?b = payDown r p b"
        by (simp add: balanceAfter_def payDown_def balloonBranch_other)
      have "interestFrom r n B p i b = b * r + interestFrom r n B p (i + 1) ?b"
        using False \<open>i \<le> n \<and> 0 < b\<close> by (subst interestFrom_unfold) simp
      also have "\<dots> = b * r + (\<Sum>j<length (entriesFrom r n B p (i + 1) ?b). (payDown r p ^^ j) ?b * r)"
        by (simp add: Suc.hyps(1) [OF k])
      also have "\<dots> = (\<Sum>j<Suc (length (entriesFrom r n B p (i + 1) ?b)). (payDown r p ^^ j) b * r)"
        by (subst sum.lessThan_Suc_shift) (simp add: b funpow_swap1)
      also have "Suc (length (entriesFrom r n B p (i + 1) ?b)) = length (entriesFrom r n B p i b)"
        using False \<open>i \<le> n \<and> 0 < b\<close> by (subst (2) entriesFrom_unfold) simp
      finally show ?thesis .
    qed
  qed
qed

lemma Math_pow_pos: "0 < k \<Longrightarrow> Math_pow x k = x ^ nat k"
  by (simp add: Math_pow_def)

lemma Math_pow_neg: "0 < k \<Longrightarrow> Math_pow x (- k) = 1 / x ^ nat k"
  by (simp add: Math_pow_def)

lemma pmt_no_balloon:
  "0 < n \<Longrightarrow> B = NaN \<or> (\<exists>c\<le>0. B = Num c) \<Longrightarrow> pmt P r n B = basePayment P r (nat n)"
  by (auto simp: pmt_def basePayment_def Math_pow_pos)

lemma pmt_balloon:
  "0 < n \<Longrightarrow> 0 < c \<Longrightarrow> pmt P r n (Num c) = balloonAdjustedPayment P c r (nat n)"
  by (simp add: pmt_def balloonAdjustedPayment_def Math_pow_pos Math_pow_neg power_int_def
      divide_inverse power_inverse)

subsection \<open>What the parsing built-ins read from some texts\<close>

lemma parseFloat_100: "parseFloat ''100'' = Num 100" by (simp add: parse_defs)
lemma parseFloat_1200: "parseFloat ''1200'' = Num 1200" by (simp add: parse_defs)
lemma parseFloat_0: "parseFloat ''0'' = Num 0" by (simp add: parse_defs)
lemma parseFloat_50: "parseFloat ''50'' = Num 50" by (simp add: parse_defs)
lemma parseFloat_500: "parseFloat ''500'' = Num 500" by (simp add: parse_defs)
lemma parseFloat_minus5: "parseFloat ''-5'' = Num (- 5)" by (simp add: parse_defs)
lemma parseFloat_250000: "parseFloat ''250000'' = Num 250000" by (simp add: parse_defs)
lemma parseFloat_3p5: "parseFloat ''3.5'' = Num (7 / 2)" by (simp add: parse_defs)
lemma parseFloat_2p5: "parseFloat ''2.5'' = Num (5 / 2)" by (simp add: parse_defs)
lemma parseInt_1: "parseInt ''1'' = Some 1" by (simp add: parse_defs)
lemma parseInt_30: "parseInt ''30'' = Some 30" by (simp add: parse_defs)
lemma parseInt_2p5: "parseInt ''2.5'' = Some 2" by (simp add: parse_defs)

subsection \<open>Months, length and last entry of the schedule\<close>

lemma entriesFrom_months:
  "map month (entriesFrom r n B p i b) =
     map (\<lambda>k. i + int k) [0..<length (entriesFrom r n B p i b)]"
proof (induction "nat (n + 1 - i)" arbitrary: i b)
  case 0
  then have "\<not> i \<le> n" by simp
  then show ?case by (subst (1 2) entriesFrom_unfold) simp
next
  case (Suc k)
  let ?b = "balanceAfter r n B p i b"
  have k: "k = nat (n + 1 - (i + 1))" using Suc.hyps(2) by simp
  show ?case
  proof (cases "i \<le> n \<and> 0 < b \<and> \<not> ?b \<le> 0")
    case True
    have unf: "entriesFrom r n B p i b = entryOf r n B p i b # entriesFrom r n B p (i + 1) ?b"
      using True by (subst entriesFrom_unfold) simp
    have "map (\<lambda>k. i + int k) [0..<Suc (length (entriesFrom r n B p (i + 1) ?b))] =
          i # map (\<lambda>k. i + 1 + int k) [0..<length (entriesFrom r n B p (i + 1) ?b)]"
      by (simp add: upt_conv_Cons map_Suc_upt [symmetric] del: upt_Suc)
    then show ?thesis
      unfolding unf using Suc.hyps(1) [OF k, of ?b] by (simp add: entryOf_def del: upt_Suc)
  next
    case False
    then show ?thesis
      by (subst (1 2) entriesFrom_unfold) (auto simp: entryOf_def)
  qed
qed

lemma entriesFrom_length_le: "length (entriesFrom r n B p i b) \<le> nat (n + 1 - i)"
proof (induction "nat (n + 1 - i)" arbitrary: i b)
  case 0
  then have "\<not> i \<le> n" by simp
  then show ?case by (subst entriesFrom_unfold) simp
next
  case (Suc k)
  have k: "k = nat (n + 1 - (i + 1))" using Suc.hyps(2) by simp
  show ?case
    using Suc.hyps(1) [OF k, of "balanceAfter r n B p i b"] Suc.hyps(2)
    by (subst entriesFrom_unfold) auto
qed

lemma entriesFrom_last_month:
  assumes "entriesFrom r n B p i b \<noteq> []"
  shows "month (last (entriesFrom r n B p i b)) = i + int (length (entriesFrom r n B p i b)) - 1"
proof -
  let ?es = "entriesFrom r n B p i b"
  have "month (last ?es) = last (map month ?es)" using assms by (simp add: last_map)
  also have "\<dots> = last (map (\<lambda>k. i + int k) [0..<length ?es])"
    by (simp only: entriesFrom_months)
  also have "\<dots> = i + int (length ?es - 1)"
    using assms by (simp add: last_map del: upt_Suc)
  finally show ?thesis using assms by (simp add: of_nat_diff Suc_leI)
qed

lemma entriesFrom_last_balance:
  "i \<le> n \<Longrightarrow> length (entriesFrom r n B p i b) = nat (n + 1 - i) \<Longrightarrow>
     remainingBalance (last (entriesFrom r n B p i b)) =
       toFixed2 (balloonBranch n n B ((payDown r p ^^ nat (n + 1 - i)) b))"
proof (induction "nat (n + 1 - i)" arbitrary: i b)
  case 0
  then show ?case by simp
next
  case (Suc k)
  let ?b = "balanceAfter r n B p i b"
  let ?e = "entryOf r n B p i b"
  have k: "k = nat (n + 1 - (i + 1))" using Suc.hyps(2) by simp
  have pos: "0 < b"
  proof (rule ccontr)
    assume "\<not> 0 < b"
    then have "entriesFrom r n B p i b = []" by (subst entriesFrom_unfold) simp
    with Suc.prems(2) Suc.hyps(2) show False by simp
  qed
  show ?case
  proof (cases "i = n")
    case True
    have "entriesFrom r n B p (i + 1) ?b = []"
      using True by (subst entriesFrom_unfold) simp
    then have "entriesFrom r n B p i b = [?e]"
      using pos True by (subst entriesFrom_unfold) simp
    then show ?thesis
      using True by (simp add: entryOf_def balanceAfter_def payDown_def)
  next
    case False
    then have lt: "i + 1 \<le> n" using Suc.prems(1) by simp
    have b: "?b = payDown r p b"
      using False by (simp add: balanceAfter_def payDown_def balloonBranch_other)
    have unf: "entriesFrom r n B p i b =
        ?e # (if ?b \<le> 0 then [] else entriesFrom r n B p (i + 1) ?b)"
      using pos Suc.prems(1) by (subst entriesFrom_unfold) simp
    have "1 \<le> k" using k lt by simp
    then have go: "\<not> ?b \<le> 0"
      using Suc.prems(2) Suc.hyps(2) unf by (auto split: if_splits)
    then have unf': "entriesFrom r n B p i b = ?e # entriesFrom r n B p (i + 1) ?b"
      using unf by simp
    have len: "length (entriesFrom r n B p (i + 1) ?b) = nat (n + 1 - (i + 1))"
      using Suc.prems(2) Suc.hyps(2) unf' k by simp
    then have ne: "entriesFrom r n B p (i + 1) ?b \<noteq> []"
      using \<open>1 \<le> k\<close> k by auto
    have "remainingBalance (last (entriesFrom r n B p i b)) =
          remainingBalance (last (entriesFrom r n B p (i + 1) ?b))"
      unfolding unf' using ne by simp
    also have "\<dots> = toFixed2 (balloonBranch n n B ((payDown r p ^^ k) ?b))"
      using Suc.hyps(1) [OF k lt len] k by simp
    also have "(payDown r p ^^ k) ?b = (payDown r p ^^ Suc k) b"
      unfolding b by (simp add: funpow_swap1)
    finally show ?thesis using Suc.hyps(2) by simp
  qed
qed

lemma entriesFrom_full_length:
  "i \<le> n + 1 \<Longrightarrow> (\<forall>j<nat (n + 1 - i). 0 < (payDown r p ^^ j) b) \<Longrightarrow>
     length (entriesFrom r n B p i b) = nat (n + 1 - i)"
proof (induction "nat (n + 1 - i)" arbitrary: i b)
  case 0
  then have "\<not> i \<le> n" by simp
  then show ?case using 0 by (subst entriesFrom_unfold) simp
next
  case (Suc k)
  let ?b = "balanceAfter r n B p i b"
  have k: "k = nat (n + 1 - (i + 1))" using Suc.hyps(2) by simp
  have i: "i \<le> n" using Suc.hyps(2) by simp
  have pos: "0 < b" using Suc.prems(2) Suc.hyps(2) [symmetric] by (auto dest: spec [of _ 0])
  show ?case
  proof (cases "i = n")
    case True
    have "entriesFrom r n B p (i + 1) ?b = []"
      using True by (subst entriesFrom_unfold) simp
    then show ?thesis
      using pos True by (subst entriesFrom_unfold) simp
  next
    case False
    have b: "?b = payDown r p b"
      using False by (simp add: balanceAfter_def payDown_def balloonBranch_other)
    have "1 < Suc k" using False i k by simp
    then have "0 < (payDown r p ^^ 1) b" using Suc.prems(2) Suc.hyps(2) [symmetric] by auto
    then have go: "\<not> ?b \<le> 0" using b by simp
    have "\<forall>j<nat (n + 1 - (i + 1)). 0 < (payDown r p ^^ j) ?b"
    proof (intro allI impI)
      fix j assume "j < nat (n + 1 - (i + 1))"
      then have "Suc j < nat (n + 1 - i)" using k Suc.hyps(2) by simp
      then have "0 < (payDown r p ^^ Suc j) b" using Suc.prems(2) by blast
      then show "0 < (payDown r p ^^ j) ?b" unfolding b by (simp add: funpow_swap1)
    qed
    then have "length (entriesFrom r n B p (i + 1) ?b) = nat (n + 1 - (i + 1))"
      using Suc.hyps(1) [OF k] i by simp
    then show ?thesis
      using pos i go k Suc.hyps(2) by (subst entriesFrom_unfold) simp
  qed
qed

subsection \<open>The computed payment in exact arithmetic\<close>

lemma growth_gt_one: "0 < r \<Longrightarrow> 0 < N \<Longrightarrow> 1 < (1 + r :: real) ^ N"
  by (simp add: one_less_power)

lemma growth_neq_one:
  assumes "0 < r" "0 < N"
  shows "(1 + r :: real) ^ N \<noteq> 1"
  using growth_gt_one [OF assms] by simp

lemma pmt_closed:
  assumes "0 < r" "0 < n"
  shows "pmt P r n B = (P * (1 + r) ^ nat n - effectiveBalloon B) * r / ((1 + r) ^ nat n - 1)"
proof -
  have q: "1 < (1 + r) ^ nat n" using assms by (intro growth_gt_one) simp_all
  have nz: "(1 + r) ^ nat n \<noteq> 0" "(1 + r) ^ nat n - 1 \<noteq> 0"
    using q by linarith+
  show ?thesis
  proof (cases B)
    case NaN
    then show ?thesis using assms by (simp add: pmt_def effectiveBalloon_def Math_pow_pos)
  next
    case (Num c)
    show ?thesis
    proof (cases "0 < c")
      case False
      then show ?thesis using assms Num by (simp add: pmt_def effectiveBalloon_def Math_pow_pos)
    next
      case True
      then show ?thesis
        using assms Num nz
        by (simp add: pmt_def effectiveBalloon_def Math_pow_pos Math_pow_neg) (simp add: field_simps)
    qed
  qed
qed

lemma scheduledBalance_0: "0 < r \<Longrightarrow> 0 < N \<Longrightarrow> scheduledBalance P c r N 0 = P"
  by (simp add: scheduledBalance_def growth_neq_one)

lemma scheduledBalance_N: "0 < r \<Longrightarrow> 0 < N \<Longrightarrow> scheduledBalance P c r N N = c"
  by (simp add: scheduledBalance_def growth_neq_one)

lemma scheduledBalance_pos:
  assumes "0 < r" "0 < P" "0 \<le> c" "k < N"
  shows "0 < scheduledBalance P c r N k"
proof -
  have D: "0 < (1 + r) ^ N - 1" using growth_gt_one [of r N] assms by simp
  have "(1 + r) ^ k < (1 + r) ^ N" using assms by (simp add: power_strict_increasing)
  then have 1: "0 < P * ((1 + r) ^ N - (1 + r) ^ k)" using assms by simp
  have "1 \<le> (1 + r) ^ k" using assms by (simp add: one_le_power)
  then have 2: "0 \<le> c * ((1 + r) ^ k - 1)" using assms by simp
  show ?thesis unfolding scheduledBalance_def using 1 2 D by (intro divide_pos_pos) linarith+
qed

lemma scheduledBalance_step:
  "scheduledBalance P c r N k * (1 + r) - (P * (1 + r) ^ N - c) * r / ((1 + r) ^ N - 1)
     = scheduledBalance P c r N (Suc k)"
proof -
  define Q where "Q = (1 + r) ^ N"
  define K where "K = (1 + r) ^ k"
  have num: "(P * (Q - K) + c * (K - 1)) * (1 + r) - (P * Q - c) * r =
             P * (Q - (1 + r) * K) + c * ((1 + r) * K - 1)"
    by (simp add: algebra_simps)
  have "(P * (Q - K) + c * (K - 1)) / (Q - 1) * (1 + r) - (P * Q - c) * r / (Q - 1) =
        ((P * (Q - K) + c * (K - 1)) * (1 + r) - (P * Q - c) * r) / (Q - 1)"
    by (simp add: diff_divide_distrib)
  also have "\<dots> = (P * (Q - (1 + r) * K) + c * ((1 + r) * K - 1)) / (Q - 1)"
    by (simp only: num)
  finally show ?thesis
    by (simp add: scheduledBalance_def Q_def K_def)
qed


lemma payDown_scheduled:
  assumes "0 < r" "0 < P" "0 \<le> c" "k < N"
    and p: "p = (P * (1 + r) ^ N - c) * r / ((1 + r) ^ N - 1)"
  shows "payDown r p (scheduledBalance P c r N k) = scheduledBalance P c r N (Suc k)"
proof -
  let ?b = "scheduledBalance P c r N k"
  have N: "0 < N" using assms(4) by simp
  have step: "?b - (p - ?b * r) = scheduledBalance P c r N (Suc k)"
    using scheduledBalance_step [of P c r N k] by (simp add: p algebra_simps)
  have "0 \<le> scheduledBalance P c r N (Suc k)"
  proof (cases "Suc k < N")
    case True
    then show ?thesis using scheduledBalance_pos [OF assms(1-3), of "Suc k" N] by simp
  next
    case False
    then have "Suc k = N" using assms(4) by simp
    then show ?thesis using scheduledBalance_N [OF assms(1) N, of P c] assms(3) by simp
  qed
  then have "\<not> ?b - (p - ?b * r) < 0" using step by simp
  then show ?thesis using step by (simp add: payDown_def principalOf_def)
qed

lemma payDown_funpow_scheduled:
  assumes "0 < r" "0 < P" "0 \<le> c" "0 < N"
    and p: "p = (P * (1 + r) ^ N - c) * r / ((1 + r) ^ N - 1)"
  shows "k \<le> N \<Longrightarrow> (payDown r p ^^ k) P = scheduledBalance P c r N k"
proof (induction k)
  case 0
  show ?case using scheduledBalance_0 [OF assms(1,4)] by simp
next
  case (Suc k)
  then have "k < N" by simp
  from payDown_scheduled [OF assms(1-3) this p] Suc show ?case by simp
qed

lemma effectiveBalloon_nonneg: "0 \<le> effectiveBalloon B"
  by (simp add: effectiveBalloon_def split: number.splits)

lemma balloonBranch_effectiveBalloon: "balloonBranch n n B (effectiveBalloon B) = 0"
  by (simp add: balloonBranch_def effectiveBalloon_def split: number.splits)

lemma computed_payment_runs_full_term:
  assumes "0 < P" "0 < r" "0 < n"
  shows "length (entriesFrom r n B (pmt P r n B) 1 P) = nat n"
    and "remainingBalance (last (entriesFrom r n B (pmt P r n B) 1 P)) = 0"
proof -
  let ?c = "effectiveBalloon B"
  let ?p = "pmt P r n B"
  have N: "0 < nat n" using assms(3) by simp
  have p: "?p = (P * (1 + r) ^ nat n - ?c) * r / ((1 + r) ^ nat n - 1)"
    by (rule pmt_closed [OF assms(2,3)])
  note closed = payDown_funpow_scheduled [OF assms(2,1) effectiveBalloon_nonneg N p]
  have "\<forall>j<nat (n + 1 - 1). 0 < (payDown r ?p ^^ j) P"
    using closed scheduledBalance_pos [OF assms(2,1) effectiveBalloon_nonneg] by simp
  then show len: "length (entriesFrom r n B ?p 1 P) = nat n"
    using entriesFrom_full_length [of 1 n r ?p P B] assms(3) by simp
  have "remainingBalance (last (entriesFrom r n B ?p 1 P)) =
        toFixed2 (balloonBranch n n B ((payDown r ?p ^^ nat n) P))"
    using entriesFrom_last_balance [of 1 n r B ?p P] len assms(3) by simp
  also have "(payDown r ?p ^^ nat n) P = ?c"
    using closed [of "nat n"] scheduledBalance_N [OF assms(2) N] by simp
  finally show "remainingBalance (last (entriesFrom r n B ?p 1 P)) = 0"
    by (simp add: balloonBranch_effectiveBalloon toFixed2_zero)
qed

subsection \<open>A balloon that is not a positive number\<close>




lemma funpow_fixed: "f x = x \<Longrightarrow> (f ^^ k) x = x"
  by (induction k) simp_all

subsection \<open>The chart loop\<close>

lemma chartLoop_acc:
  "chartLoop s L i acc = acc @ chartLoop s L i []"
proof (induction "length s - i * 12" arbitrary: i acc rule: less_induct)
  case less
  let ?ys = "slice s (i * 12) (i * 12 + 12)"
  define y where "y = \<lparr>name = i + 1,
      Principal = foldl (\<lambda>acc curr. acc + principal curr) 0 ?ys,
      Interest = foldl (\<lambda>acc curr. acc + interest curr) 0 ?ys\<rparr>"
  show ?case
  proof (cases "num_less (real i) L \<and> ?ys \<noteq> []")
    case True
    then have "i * 12 < length s" by (auto simp: slice_def)
    then have d: "length s - (i + 1) * 12 < length s - i * 12" by simp
    have 1: "chartLoop s L i acc' = chartLoop s L (i + 1) (acc' @ [y])" for acc'
      using True by (subst chartLoop.simps) (simp add: Let_def y_def)
    show ?thesis
      unfolding 1 [of acc] 1 [of "[]"]
      by (subst less.hyps [OF d], subst (2) less.hyps [OF d]) simp
  next
    case False
    then show ?thesis by (subst (1 2) chartLoop.simps) (auto simp: Let_def)
  qed
qed

lemma foldl_plus_sum_list:
  "foldl (\<lambda>acc curr. acc + f curr) (a::real) ys = a + sum_list (map f ys)"
  by (induction ys arbitrary: a) simp_all

lemma chartLoop_unfold:
  "chartLoop s L i [] =
     (if num_less (real i) L \<and> slice s (i * 12) (i * 12 + 12) \<noteq> [] then
        \<lparr>name = i + 1,
          Principal = sum_list (map principal (slice s (i * 12) (i * 12 + 12))),
          Interest = sum_list (map interest (slice s (i * 12) (i * 12 + 12)))\<rparr>
          # chartLoop s L (i + 1) []
      else [])"
  by (subst chartLoop.simps, subst chartLoop_acc) (simp add: Let_def foldl_plus_sum_list)

lemma month_nth:
  assumes "map month s = map int [1..<Suc (length s)]" "k < length s"
  shows "month (s ! k) = int k + 1"
proof -
  have "month (s ! k) = map month s ! k" using assms(2) by simp
  also have "\<dots> = map int [1..<Suc (length s)] ! k" by (simp only: assms(1))
  also have "\<dots> = int k + 1" using assms(2) by (simp del: upt_Suc)
  finally show ?thesis .
qed

lemma slice_is_year:
  assumes "map month s = map int [1..<Suc (length s)]"
  shows "slice s (i * 12) (i * 12 + 12) = filter (inYear (i + 1)) s"
proof -
  let ?a = "i * 12"
  have split: "s = take ?a s @ take 12 (drop ?a s) @ drop 12 (drop ?a s)"
    by (simp only: append_take_drop_id)
  have before: "filter (inYear (i + 1)) (take ?a s) = []"
  proof (rule filter_False, rule ballI)
    fix e assume "e \<in> set (take ?a s)"
    then obtain k where k: "k < length (take ?a s)" "e = take ?a s ! k"
      by (auto simp: in_set_conv_nth)
    then have "k < ?a" "k < length s" "e = s ! k" by simp_all
    then have "month e = int k + 1" using month_nth [OF assms, of k] by simp
    with \<open>k < ?a\<close> show "\<not> inYear (i + 1) e" by (simp add: inYear_def)
  qed
  have inside: "filter (inYear (i + 1)) (take 12 (drop ?a s)) = take 12 (drop ?a s)"
  proof (rule filter_True, rule ballI)
    fix e assume "e \<in> set (take 12 (drop ?a s))"
    then obtain k where k: "k < length (take 12 (drop ?a s))" "e = take 12 (drop ?a s) ! k"
      by (auto simp: in_set_conv_nth)
    then have "k < 12" "?a + k < length s" by auto
    then have "e = s ! (?a + k)" using k by simp
    then have "month e = int (?a + k) + 1"
      using month_nth [OF assms, of "?a + k"] \<open>?a + k < length s\<close> by simp
    with \<open>k < 12\<close> show "inYear (i + 1) e" by (simp add: inYear_def)
  qed
  have after: "filter (inYear (i + 1)) (drop 12 (drop ?a s)) = []"
  proof (rule filter_False, rule ballI)
    fix e assume "e \<in> set (drop 12 (drop ?a s))"
    then obtain k where k: "k < length (drop 12 (drop ?a s))" "e = drop 12 (drop ?a s) ! k"
      by (auto simp: in_set_conv_nth)
    then have "?a + 12 + k < length s" by auto
    then have "e = s ! (?a + 12 + k)" using k by (simp add: add.commute add.left_commute)
    then have "month e = int (?a + 12 + k) + 1"
      using month_nth [OF assms, of "?a + 12 + k"] \<open>?a + 12 + k < length s\<close> by simp
    then show "\<not> inYear (i + 1) e" by (simp add: inYear_def)
  qed
  have "filter (inYear (i + 1)) s =
        filter (inYear (i + 1)) (take ?a s @ take 12 (drop ?a s) @ drop 12 (drop ?a s))"
    by (simp only: split [symmetric])
  also have "\<dots> = take 12 (drop ?a s)"
    by (simp only: filter_append before inside after) simp
  finally show ?thesis by (simp add: slice_def)
qed

lemma chartLoop_yearlySummaries:
  assumes "map month s = map int [1..<Suc (length s)]"
  shows "chartLoop s (Num (real T)) i [] = yearlySummaries s [Suc i..<Suc T]"
proof (induction "T - i" arbitrary: i)
  case 0
  then have "\<not> i < T" by simp
  then show ?case by (subst chartLoop_unfold) simp
next
  case (Suc k)
  then have lt: "i < T" and k: "k = T - (i + 1)" by simp_all
  have up: "[Suc i..<Suc T] = (i + 1) # [Suc (i + 1)..<Suc T]"
    using lt by (simp add: upt_conv_Cons del: upt_Suc)
  have IH: "chartLoop s (Num (real T)) (i + 1) [] = yearlySummaries s [Suc (i + 1)..<Suc T]"
    by (rule Suc.hyps(1) [OF k])
  let ?sl = "filter (inYear (i + 1)) s"
  let ?y = "\<lparr>name = i + 1, Principal = sum_list (map principal ?sl),
      Interest = sum_list (map interest ?sl)\<rparr>"
  have a: "chartLoop s (Num (real T)) i [] =
      (if ?sl \<noteq> [] then ?y # yearlySummaries s [Suc (i + 1)..<Suc T] else [])"
    by (subst chartLoop_unfold)
       (simp only: IH slice_is_year [OF assms] num_less.simps of_nat_less_iff lt simp_thms)
  have b: "yearlySummaries s ((i + 1) # [Suc (i + 1)..<Suc T]) =
      (if ?sl = [] then [] else ?y # yearlySummaries s [Suc (i + 1)..<Suc T])"
    by (simp only: yearlySummaries.simps Let_def)
  show ?case
    unfolding up a b by (cases "?sl = []") (simp_all del: upt_Suc)
qed



lemma slice_nonempty_iff: "slice s (i * 12) (i * 12 + 12) \<noteq> [] \<longleftrightarrow> i < (length s + 11) div 12"
proof -
  have "slice s (i * 12) (i * 12 + 12) \<noteq> [] \<longleftrightarrow> i * 12 < length s"
    by (simp add: slice_def not_le)
  also have "\<dots> \<longleftrightarrow> Suc i * 12 \<le> length s + 11" by (simp add: Suc_le_eq)
  also have "\<dots> \<longleftrightarrow> Suc i \<le> (length s + 11) div 12"
    by (simp only: less_eq_div_iff_mult_less_eq [of 12 "Suc i" "length s + 11"] zero_less_numeral)
  also have "\<dots> \<longleftrightarrow> i < (length s + 11) div 12" by (simp only: Suc_le_eq)
  finally show ?thesis .
qed

lemma chartLoop_length_aux:
  assumes "\<And>i. slice s (i * 12) (i * 12 + 12) \<noteq> [] \<longleftrightarrow> i < M"
  shows "length (chartLoop s (Num (real T)) i []) = min T M - i"
proof (induction "T - i" arbitrary: i)
  case 0
  then show ?case by (subst chartLoop_unfold) simp
next
  case (Suc k)
  then have k: "k = T - (i + 1)" and lt: "i < T" by simp_all
  show ?case
  proof (cases "i < M")
    case True
    have "length (chartLoop s (Num (real T)) i []) =
          Suc (length (chartLoop s (Num (real T)) (i + 1) []))"
      using True lt assms by (subst chartLoop_unfold) simp
    also have "\<dots> = Suc (min T M - (i + 1))" by (simp only: Suc.hyps(1) [OF k])
    also have "\<dots> = min T M - i" using True lt by simp
    finally show ?thesis .
  next
    case False
    then have "chartLoop s (Num (real T)) i [] = []"
      using assms by (subst chartLoop_unfold) simp
    then show ?thesis using False by simp
  qed
qed

lemma chartLoop_length:
  "length (chartLoop s (Num (real T)) i []) = min T ((length s + 11) div 12) - i"
  by (rule chartLoop_length_aux) (rule slice_nonempty_iff)

lemma chartLoop_names:
  "map name (chartLoop s L i []) = [i + 1..<i + 1 + length (chartLoop s L i [])]"
proof (induction "length s - i * 12" arbitrary: i rule: less_induct)
  case less
  let ?ys = "slice s (i * 12) (i * 12 + 12)"
  show ?case
  proof (cases "num_less (real i) L \<and> ?ys \<noteq> []")
    case True
    then have "i * 12 < length s" by (auto simp: slice_def)
    then have d: "length s - (i + 1) * 12 < length s - i * 12" by simp
    let ?y = "\<lparr>name = i + 1, Principal = sum_list (map principal ?ys),
        Interest = sum_list (map interest ?ys)\<rparr>"
    have unf: "chartLoop s L i [] = ?y # chartLoop s L (i + 1) []"
      using True by (subst chartLoop_unfold) simp
    let ?n = "length (chartLoop s L (i + 1) [])"
    have "[i + 1..<i + 1 + Suc ?n] = (i + 1) # [i + 1 + 1..<i + 1 + 1 + ?n]"
      by (subst upt_conv_Cons) simp_all
    then show ?thesis
      unfolding unf using less.hyps [OF d] by simp
  next
    case False
    then have "chartLoop s L i [] = []" by (subst chartLoop_unfold) simp
    then show ?thesis by simp
  qed
qed


lemma schedule_months:
  "map month (schedule (amortization la ir tm bp m ov)) =
     map int [1..<Suc (length (schedule (amortization la ir tm bp m ov)))]"
proof (cases "(\<exists>P>0. parseFloat la = Num P) \<and> (\<exists>pct>0. parseFloat ir = Num pct)
      \<and> (\<exists>y>0. parseInt tm = Some y)")
  case True
  then obtain P pct y where v: "parseFloat la = Num P" "parseFloat ir = Num pct"
    "parseInt tm = Some y" "0 < P" "0 < pct" "0 < y" by auto
  have "map (\<lambda>k. 1 + int k) [0..<n] = map int [1..<Suc n]" for n
    by (induction n) simp_all
  then show ?thesis
    by (simp add: amortization_accepted [OF v] entriesFrom_months del: upt_Suc)
next
  case False
  then have "(\<forall>P. parseFloat la = Num P \<longrightarrow> P \<le> 0) \<or> (\<forall>pct. parseFloat ir = Num pct \<longrightarrow> pct \<le> 0)
        \<or> (\<forall>y. parseInt tm = Some y \<longrightarrow> y \<le> 0)"
    by (meson not_le)
  then have "amortization la ir tm bp m ov = noResult" by (rule amortization_invalid)
  then show ?thesis by (simp add: noResult_def)
qed

subsection \<open>Scenario B in exact arithmetic\<close>

lemma balloon_lowers_payment:
  assumes "0 < r" "0 < n" "0 < c"
  shows "pmt P r n (Num c) < pmt P r n (Num 0)"
proof -
  have D: "0 < (1 + r) ^ nat n - 1"
    using growth_gt_one [of r "nat n"] assms by simp
  have "(P * (1 + r) ^ nat n - c) * r < (P * (1 + r) ^ nat n - 0) * r"
    using assms by simp
  then have "(P * (1 + r) ^ nat n - c) * r / ((1 + r) ^ nat n - 1)
           < (P * (1 + r) ^ nat n - 0) * r / ((1 + r) ^ nat n - 1)"
    using D by (rule divide_strict_right_mono)
  then show ?thesis
    using assms by (simp add: pmt_closed effectiveBalloon_def)
qed

text \<open>
  Scenario B of the specification (principal 250000, rate 3.5, term 30, balloon 50000,
  no override) in exact arithmetic: the computed payment is below the one without a
  balloon, the schedule has 360 entries and the last one records a remaining balance
  of 0. The balloon formula of line 39 is the payment that leaves exactly the balloon
  after \<open>n\<close> periods, so in exact arithmetic the balance after the payment of period 360
  is equal to the balloon, the comparison \<^verbatim>\<open>remainingBalance > balloon\<close> of line 62 is
  false and line 66 subtracts the balloon. This is what the code is written to do with
  its own computed payment, and it holds of the exact reals only: what the program
  records is evaluated in double precision further below.
\<close>

lemma parseFloat_50000: "parseFloat ''50000'' = Num 50000" by (simp add: parse_defs)

lemma scenario_B_exact:
  "calculatedMthRepayment (amortization ''250000'' ''3.5'' ''30'' ''50000'' NaN False)
     < calculatedMthRepayment (amortization ''250000'' ''3.5'' ''30'' ''0'' NaN False) \<and>
   length (schedule (amortization ''250000'' ''3.5'' ''30'' ''50000'' NaN False)) = 360 \<and>
   remainingBalance (last (schedule (amortization ''250000'' ''3.5'' ''30'' ''50000'' NaN False))) = 0"
proof -
  note v = parseFloat_250000 parseFloat_3p5 parseInt_30
  have r: "(0::real) < 7 / 2 / 100 / 12" and n: "(0::int) < 30 * 12" and P: "(0::real) < 250000"
    by simp_all
  have p: "finalMonthlyRepayment False NaN x = x" for x
    by (simp add: finalMonthlyRepayment_def)
  show ?thesis
    using balloon_lowers_payment [OF r n, of 50000 250000]
      computed_payment_runs_full_term [OF P r n, of "Num 50000"]
    by (simp add: amortization_accepted [OF v] parseFloat_50000 parseFloat_0 p)
qed

subsection \<open>Rounding to a double\<close>

lemma round_even_near:
  assumes "2 * of_int m - 1 < 2 * q \<and> 2 * q < 2 * of_int m + 1 \<or>
           even m \<and> (2 * q = 2 * of_int m - 1 \<or> 2 * q = 2 * of_int m + 1)"
  shows "round_even q = m"
proof -
  consider (a) "of_int m \<le> q" "2 * q < 2 * of_int m + 1"
    | (b) "q < of_int m" "2 * of_int m - 1 < 2 * q"
    | (c) "even m" "2 * q = 2 * of_int m + 1"
    | (d) "even m" "2 * q = 2 * of_int m - 1"
    using assms by linarith
  then show ?thesis
  proof cases
    case a
    then have f: "\<lfloor>q\<rfloor> = m" by (intro floor_unique) linarith+
    show ?thesis using a by (simp add: round_even_def f)
  next
    case b
    have f: "\<lfloor>q\<rfloor> = m - 1"
    proof (rule floor_unique)
      show "of_int (m - 1) \<le> q" using b by simp
      show "q < of_int (m - 1) + 1" using b by simp
    qed
    show ?thesis using b by (simp add: round_even_def f)
  next
    case c
    have f: "\<lfloor>q\<rfloor> = m"
    proof (rule floor_unique)
      show "of_int m \<le> q" using c by linarith
      show "q < of_int m + 1" using c by linarith
    qed
    have "q - of_int m = 1 / 2" using c by (simp add: field_simps)
    then show ?thesis using c by (simp add: round_even_def f)
  next
    case d
    have f: "\<lfloor>q\<rfloor> = m - 1"
    proof (rule floor_unique)
      show "of_int (m - 1) \<le> q" using d by simp
      show "q < of_int (m - 1) + 1" using d by simp
    qed
    have "q - of_int (m - 1) = 1 / 2" using d by (simp add: field_simps)
    then show ?thesis using d by (simp add: round_even_def f)
  qed
qed

lemma rnd_rounds_to:
  assumes "rounds_to x m k"
  shows "rnd x = of_int m / 2 ^ k"
proof -
  let ?q = "x * 2 ^ k"
  from assms have m: "2 ^ 52 \<le> m" "m < 2 ^ 53" and lo: "2 ^ 52 \<le> ?q"
    and c: "2 * of_int m - 1 < 2 * ?q \<and> 2 * ?q < 2 * of_int m + 1 \<or>
            even m \<and> (2 * ?q = 2 * of_int m - 1 \<or> 2 * ?q = 2 * of_int m + 1)"
    by (simp_all add: rounds_to_def)
  have "m \<le> 2 ^ 53 - 1" using m(2) by simp
  then have "real_of_int m \<le> real_of_int (2 ^ 53 - 1)" by (simp only: of_int_le_iff)
  then have m53: "real_of_int m \<le> 2 ^ 53 - 1" by simp
  have q53: "?q < 2 ^ 53" using m53 c by linarith
  have "(0::real) < 2 ^ 52" by simp
  then have qpos: "0 < ?q" using lo by linarith
  have xpos: "0 < x" using qpos by (simp add: zero_less_mult_iff)
  have p1: "2 powr real_of_int (52 - int k) = (2 ^ 52 / 2 ^ k :: real)"
  proof -
    have "2 powr real_of_int (52 - int k) = (2::real) powr (real 52 - real k)" by simp
    also have "\<dots> = 2 powr real 52 / 2 powr real k" by (rule powr_diff)
    also have "\<dots> = 2 ^ 52 / 2 ^ k" by (simp only: powr_realpow zero_less_numeral)
    finally show ?thesis .
  qed
  have p2: "2 powr real_of_int (52 - int k + 1) = (2 ^ 53 / 2 ^ k :: real)"
  proof -
    have "2 powr real_of_int (52 - int k + 1) = (2::real) powr (real 53 - real k)" by simp
    also have "\<dots> = 2 powr real 53 / 2 powr real k" by (rule powr_diff)
    also have "\<dots> = 2 ^ 53 / 2 ^ k" by (simp only: powr_realpow zero_less_numeral)
    finally show ?thesis .
  qed
  have b1: "(2 ^ 52 / 2 ^ k :: real) \<le> x" using lo by (simp add: divide_le_eq)
  have b2: "x < 2 ^ 53 / 2 ^ k" using q53 by (simp add: less_divide_eq)
  have "\<lfloor>log 2 x\<rfloor> = 52 - int k"
    using floor_log_eq_powr_iff [of x 2 "52 - int k"] xpos b1 b2 unfolding p1 p2 by simp
  then have e: "\<lfloor>log 2 \<bar>x\<bar>\<rfloor> - 52 = - int k" using xpos by simp
  have pk: "(2::real) powi (- int k) = 1 / 2 ^ k"
    by (simp add: power_int_minus divide_inverse)
  have r: "round_even ?q = m" using c by (rule round_even_near)
  have "rnd x = of_int (round_even (x / (1 / 2 ^ k))) * (1 / 2 ^ k)"
    using xpos unfolding rnd_def e Let_def pk by simp
  also have "x / (1 / 2 ^ k) = ?q" by simp
  finally show ?thesis unfolding r by simp
qed

lemma rnd_value:
  "rounds_to x m k \<Longrightarrow> y = of_int m / 2 ^ k \<Longrightarrow> rnd x = y"
  by (simp add: rnd_rounds_to)

lemma rounds_to_between:
  assumes "l \<le> x" "x \<le> u"
    and "2 ^ 52 \<le> m" "m < 2 ^ 53" "2 ^ 52 \<le> l * 2 ^ k"
    and "2 * of_int m - 1 < 2 * (l * 2 ^ k)" "2 * (u * 2 ^ k) < 2 * of_int m + 1"
  shows "rounds_to x m k"
proof -
  have "l * 2 ^ k \<le> x * 2 ^ k" using assms(1) by simp
  moreover have "x * 2 ^ k \<le> u * 2 ^ k" using assms(2) by simp
  ultimately show ?thesis using assms(3-7) unfolding rounds_to_def by linarith
qed

lemma rounds_to_inverse_between:
  assumes "l \<le> y" "y \<le> u" "0 < l"
    and "2 ^ 52 \<le> m" "m < 2 ^ 53" "2 ^ 52 \<le> 1 / u * 2 ^ k"
    and "2 * of_int m - 1 < 2 * (1 / u * 2 ^ k)" "2 * (1 / l * 2 ^ k) < 2 * of_int m + 1"
  shows "rounds_to (1 / y) m k"
proof (rule rounds_to_between [OF _ _ assms(4-8)])
  have y: "0 < y" using assms(1,3) by linarith
  show "1 / u \<le> 1 / y" using assms(2) y by (simp add: frac_le)
  show "1 / y \<le> 1 / l" using assms(1,3) by (simp add: frac_le)
qed

lemma power_bounds_sq:
  fixes x :: real
  assumes "0 \<le> l" "l \<le> x ^ a \<and> x ^ a \<le> u" "l' \<le> l * l" "u * u \<le> u'" "c = a + a"
  shows "l' \<le> x ^ c \<and> x ^ c \<le> u'"
proof -
  have "l * l \<le> x ^ a * x ^ a" using assms(1,2) by (intro mult_mono) linarith+
  moreover have "x ^ a * x ^ a \<le> u * u" using assms(1,2) by (intro mult_mono) linarith+
  ultimately show ?thesis using assms(3,4) unfolding assms(5) power_add by linarith
qed

lemma power_bounds_mult:
  fixes x :: real
  assumes "0 \<le> l" "0 \<le> x" "l \<le> x ^ a \<and> x ^ a \<le> u" "l' \<le> l * x" "u * x \<le> u'" "c = Suc a"
  shows "l' \<le> x ^ c \<and> x ^ c \<le> u'"
proof -
  have "l * x \<le> x ^ a * x" using assms(2,3) by (intro mult_right_mono) linarith+
  moreover have "x ^ a * x \<le> u * x" using assms(2,3) by (intro mult_right_mono) linarith+
  ultimately show ?thesis using assms(4,5) unfolding assms(6) by (simp add: mult.commute)
qed

subsection \<open>The callback in double precision\<close>

lemma loopR_unfold:
  "loopR rd r n B p i b acc cum =
     (if i \<le> n \<and> b > 0 then
        (if balanceAfterR rd r n B p i b \<le> 0
         then (acc @ [entryOfR rd r n B p i b], rd (cum + rd (b * r)))
         else loopR rd r n B p (i + 1) (balanceAfterR rd r n B p i b)
                (acc @ [entryOfR rd r n B p i b]) (rd (cum + rd (b * r))))
      else (acc, cum))"
  by (subst loopR.simps) (simp add: Let_def balanceAfterR_def entryOfR_def principalOfR_def)

lemma loopR_acc:
  "fst (loopR rd r n B p i b acc cum) = acc @ fst (loopR rd r n B p i b [] 0)"
proof (induction "nat (n + 1 - i)" arbitrary: i b acc cum)
  case 0
  then have "\<not> i \<le> n" by simp
  then show ?case by (simp add: loopR_unfold)
next
  case (Suc k)
  then have k: "k = nat (n + 1 - (i + 1))" by simp
  show ?case
  proof (cases "i \<le> n \<and> b > 0 \<and> \<not> balanceAfterR rd r n B p i b \<le> 0")
    case True
    let ?b = "balanceAfterR rd r n B p i b"
    let ?e = "entryOfR rd r n B p i b"
    have 1: "loopR rd r n B p i b acc cum =
             loopR rd r n B p (i + 1) ?b (acc @ [?e]) (rd (cum + rd (b * r)))"
      using True by (subst loopR_unfold) simp
    have 2: "loopR rd r n B p i b [] 0 = loopR rd r n B p (i + 1) ?b [?e] (rd (0 + rd (b * r)))"
      using True by (subst loopR_unfold) simp
    have 3: "fst (loopR rd r n B p (i + 1) ?b (acc @ [?e]) (rd (cum + rd (b * r)))) =
             (acc @ [?e]) @ fst (loopR rd r n B p (i + 1) ?b [] 0)"
      by (rule Suc.hyps(1) [OF k])
    have 4: "fst (loopR rd r n B p (i + 1) ?b [?e] (rd (0 + rd (b * r)))) =
             [?e] @ fst (loopR rd r n B p (i + 1) ?b [] 0)"
      by (rule Suc.hyps(1) [OF k])
    show ?thesis unfolding 1 2 3 4 by simp
  next
    case False
    then show ?thesis by (subst (1 2) loopR_unfold) auto
  qed
qed

lemma entriesFromR_unfold:
  "entriesFromR rd r n B p i b =
     (if i \<le> n \<and> 0 < b then
        entryOfR rd r n B p i b #
          (if balanceAfterR rd r n B p i b \<le> 0 then []
           else entriesFromR rd r n B p (i + 1) (balanceAfterR rd r n B p i b))
      else [])"
proof (cases "i \<le> n \<and> 0 < b \<and> \<not> balanceAfterR rd r n B p i b \<le> 0")
  case True
  have "fst (loopR rd r n B p i b [] 0) =
        fst (loopR rd r n B p (i + 1) (balanceAfterR rd r n B p i b)
               ([] @ [entryOfR rd r n B p i b]) (rd (0 + rd (b * r))))"
    using True by (subst loopR_unfold) simp
  also have "\<dots> = ([] @ [entryOfR rd r n B p i b]) @
        fst (loopR rd r n B p (i + 1) (balanceAfterR rd r n B p i b) [] 0)"
    by (rule loopR_acc)
  finally show ?thesis using True by (simp add: entriesFromR_def)
next
  case False
  then show ?thesis unfolding entriesFromR_def by (subst loopR_unfold) auto
qed

lemma amortizationR_accepted:
  assumes "num_rd rd (parseFloat la) = Num P"
    and "num_rd rd (num_div (num_rd rd (num_div (num_rd rd (parseFloat ir)) 100)) 12) = Num r"
    and "parseInt tm = Some y"
    and "0 < P" "0 < r" "0 < y"
  shows "schedule (amortizationR rd la ir tm bp m ov) =
           entriesFromR rd r (y * 12) (num_rd rd (parseFloat bp))
             (finalMonthlyRepayment ov m (pmtR rd P r (y * 12) (num_rd rd (parseFloat bp)))) 1 P"
    and "calculatedMthRepayment (amortizationR rd la ir tm bp m ov) =
           pmtR rd P r (y * 12) (num_rd rd (parseFloat bp))"
  using assms
  by (simp_all add: amortizationR_def Let_def entriesFromR_def split: prod.splits)

text \<open>Without rounding, the callback is the one of exact arithmetic.\<close>

lemma balloonBranchR_exact: "balloonBranchR (\<lambda>x. x) i n B x = balloonBranch i n B x"
  by (simp add: balloonBranchR_def balloonBranch_def)

lemma pmtR_exact: "pmtR (\<lambda>x. x) P r n B = pmt P r n B"
  by (simp add: pmtR_def pmt_def Math_powR_def Let_def split: number.splits)

lemma num_rd_exact: "num_rd (\<lambda>x. x) v = v"
  by (cases v) simp_all

lemma loopR_exact: "loopR (\<lambda>x. x) r n B p i b acc cum = loop r n B p i b acc cum"
proof (induction "nat (n + 1 - i)" arbitrary: i b acc cum)
  case 0
  then have "\<not> i \<le> n" by simp
  then show ?case by (simp add: loopR_unfold loop_unfold)
next
  case (Suc k)
  then have k: "k = nat (n + 1 - (i + 1))" by simp
  have b: "balanceAfterR (\<lambda>x. x) r n B p i b = balanceAfter r n B p i b"
    by (simp add: balanceAfterR_def balanceAfter_def principalOfR_def principalOf_def
        balloonBranchR_exact)
  have e: "entryOfR (\<lambda>x. x) r n B p i b = entryOf r n B p i b"
    by (simp add: entryOfR_def entryOf_def b principalOfR_def principalOf_def)
  show ?case
    by (subst loopR_unfold, subst loop_unfold) (simp add: b e Suc.hyps(1) [OF k])
qed

lemma amortizationR_exact:
  "amortizationR (\<lambda>x. x) la ir tm bp m ov = amortization la ir tm bp m ov"
  by (simp add: amortizationR_def amortization_def num_rd_exact pmtR_exact loopR_exact Let_def
      split: number.splits option.splits)

lemma rnd_exact_value:
  "rounds_to x m k \<Longrightarrow> x * 2 ^ k = of_int m \<Longrightarrow> rnd x = x"
  by (simp add: rnd_rounds_to field_simps)

text \<open>
  One period of the rounded loop that is not the last, and the last one, when the three
  roundings of the period (interest, principal, balance) are known.
\<close>

lemma period_step:
  fixes mi mq mb :: int and ki kq kb :: nat
  assumes "rounds_to (b * r) mi ki"
    and "rounds_to (p - of_int mi / 2 ^ ki) mq kq"
    and "rounds_to (b - of_int mq / 2 ^ kq) mb kb"
    and "b' = of_int mb / 2 ^ kb" "0 < b" "i < n" "j = i + 1"
  shows "last (entriesFromR rnd r n B p i b) = last (entriesFromR rnd r n B p j b')"
proof -
  have mb: "2 ^ 52 \<le> mb" using assms(3) by (simp add: rounds_to_def)
  then have "(0::real) < of_int mb" by simp
  then have pos: "0 < b'" using assms(4) by simp
  have 1: "rnd (b * r) = of_int mi / 2 ^ ki" using assms(1) by (rule rnd_rounds_to)
  have 2: "rnd (p - of_int mi / 2 ^ ki) = of_int mq / 2 ^ kq" using assms(2) by (rule rnd_rounds_to)
  have 3: "rnd (b - of_int mq / 2 ^ kq) = b'" using assms(3,4) by (simp add: rnd_rounds_to)
  have pr: "principalOfR rnd r p b = of_int mq / 2 ^ kq"
    using pos by (simp add: principalOfR_def 1 2 3)
  have ba: "balanceAfterR rnd r n B p i b = b'"
    using assms(6) by (simp add: balanceAfterR_def pr 3 balloonBranchR_def split: number.splits)
  have u: "entriesFromR rnd r n B p i b =
             entryOfR rnd r n B p i b # entriesFromR rnd r n B p j b'"
    using assms(5,6,7) pos by (subst entriesFromR_unfold) (simp add: ba)
  have ne: "entriesFromR rnd r n B p j b' \<noteq> []"
    using assms(6,7) pos by (subst entriesFromR_unfold) simp
  show ?thesis unfolding u using ne by simp
qed

lemma last_period:
  fixes mi mq mb :: int and ki kq kb :: nat
  assumes "rounds_to (b * r) mi ki"
    and "rounds_to (p - of_int mi / 2 ^ ki) mq kq"
    and "rounds_to (b - of_int mq / 2 ^ kq) mb kb"
    and "b' = of_int mb / 2 ^ kb" "0 < b" "c < b'"
  shows "month (last (entriesFromR rnd r n (Num c) p n b)) = n \<and>
         remainingBalance (last (entriesFromR rnd r n (Num c) p n b)) = toFixed2 b'"
proof -
  have 1: "rnd (b * r) = of_int mi / 2 ^ ki" using assms(1) by (rule rnd_rounds_to)
  have 2: "rnd (p - of_int mi / 2 ^ ki) = of_int mq / 2 ^ kq" using assms(2) by (rule rnd_rounds_to)
  have 3: "rnd (b - of_int mq / 2 ^ kq) = b'" using assms(3,4) by (simp add: rnd_rounds_to)
  have mb: "2 ^ 52 \<le> mb" using assms(3) by (simp add: rounds_to_def)
  then have "(0::real) < of_int mb" by simp
  then have pos: "0 < b'" using assms(4) by simp
  have pr: "principalOfR rnd r p b = of_int mq / 2 ^ kq"
    using pos by (simp add: principalOfR_def 1 2 3)
  have ba: "balanceAfterR rnd r n (Num c) p n b = b'"
    using assms(6) by (simp add: balanceAfterR_def pr 3 balloonBranchR_def)
  have t: "entriesFromR rnd r n (Num c) p (n + 1) b' = []"
    by (subst entriesFromR_unfold) simp
  have u: "last (entriesFromR rnd r n (Num c) p n b) = entryOfR rnd r n (Num c) p n b"
    using assms(5) by (subst entriesFromR_unfold) (simp add: ba t)
  show ?thesis unfolding u by (simp add: entryOfR_def ba)
qed

lemma pmtR_balloon_unfold:
  "0 < c \<Longrightarrow> 0 < n \<Longrightarrow> k = nat n \<Longrightarrow>
   pmtR rd P r n (Num c) =
     rd (rd (P - rd (c / rd (rd (1 + r) ^ k))) * rd (r / rd (1 - rd (1 / rd (1 + r) ^ k))))"
  by (simp add: pmtR_def Math_powR_def Let_def Math_pow_pos Math_pow_neg)

lemma pmtR_no_balloon_unfold:
  "0 < n \<Longrightarrow> k = nat n \<Longrightarrow>
   pmtR rd P r n (Num 0) =
     rd (rd (P * rd (r * rd (rd (1 + r) ^ k))) / rd (rd (rd (1 + r) ^ k) - 1))"
  by (simp add: pmtR_def Math_powR_def Let_def Math_pow_pos)

lemma finalMonthlyRepayment_off: "finalMonthlyRepayment False m x = x"
  by (simp add: finalMonthlyRepayment_def split: number.splits)

subsection \<open>Scenario B in double precision\<close>

text \<open>
  Scenario B as the program computes it. The lemmas below evaluate the rounded callback
  at the fields 250000, 3.5, 30 and 50000, one rounding at a time: the periodic rate,
  the two powers (enclosed between bounds that are obtained by repeated squaring), the
  computed payments with and without the balloon, and then the balance after each of
  the 360 periods, one lemma for each year. The second argument of \<open>entriesFromR\<close> from
  the end is the period about to be run and the last one the balance it is entered
  with. The payment comes to 1043.9227089509805 and the balance after the payment of
  period 360 to \<open>6871947673600162 / 2 ^ 37\<close>, which is 50000.00000000118: above the
  balloon by the rounding of 360 periods. The comparison of line 62 is strict and has
  no tolerance, so its empty branch (written for an override payment that is too low)
  is taken, the subtraction of line 66 is skipped and \<^verbatim>\<open>toFixed(2)\<close> records the balance
  50000.00 where exact arithmetic records 0.
\<close>

lemma scenario_principal: "num_rd rnd (parseFloat ''250000'') = Num 250000"
proof -
  have "rnd 250000 = 250000"
    by (rule rnd_value [where m = 8589934592000000 and k = 35]) (simp_all add: rounds_to_def)
  then show ?thesis by (simp only: parseFloat_250000 num_rd.simps)
qed

lemma scenario_balloon: "num_rd rnd (parseFloat ''50000'') = Num 50000"
proof -
  have "rnd 50000 = 50000"
    by (rule rnd_value [where m = 6871947673600000 and k = 37]) (simp_all add: rounds_to_def)
  then show ?thesis by (simp only: parseFloat_50000 num_rd.simps)
qed

lemma scenario_no_balloon: "num_rd rnd (parseFloat ''0'') = Num 0"
  by (simp add: parseFloat_0 rnd_def)

lemma scenario_rate:
  "num_rd rnd (num_div (num_rd rnd (num_div (num_rd rnd (parseFloat ''3.5'')) 100)) 12) =
     Num (6725375443539941 / 2 ^ 61)"
proof -
  have 1: "rnd (7 / 2) = 7 / 2"
    by (rule rnd_value [where m = 7881299347898368 and k = 51]) (simp_all add: rounds_to_def)
  have 2: "rnd (7 / 2 / 100) = 5044031582654956 / 2 ^ 57"
    by (rule rnd_value [where m = 5044031582654956 and k = 57]) (simp_all add: rounds_to_def)
  have 3: "rnd (5044031582654956 / 2 ^ 57 / 12) = 6725375443539941 / 2 ^ 61"
    by (rule rnd_value [where m = 6725375443539941 and k = 61]) (simp_all add: rounds_to_def)
  show ?thesis by (simp only: parseFloat_3p5 num_rd.simps num_div.simps 1 2 3)
qed

lemma scenario_growth:
  "1896334589995994107506612071892805697 / 2 ^ 119 \<le> (4516735126283660 / 2 ^ 52 :: real) ^ 360 \<and>
   (4516735126283660 / 2 ^ 52 :: real) ^ 360 \<le> 1896334589995994107506612071892806015 / 2 ^ 119"
proof -
  define x :: real where "x = 4516735126283660 / 2 ^ 52"
  have x0: "0 \<le> x" by (simp add: x_def)
  have b1: "x \<le> x ^ 1 \<and> x ^ 1 \<le> x" by simp
  have b2: "1275056012562791877985173937225 / 2 ^ 100 \<le> x ^ 2 \<and>
      x ^ 2 \<le> 1275056012562791877985173937225 / 2 ^ 100"
    by (rule power_bounds_sq [OF _ b1]) (simp_all add: x_def)
  have b4: "1344803633767020184562852382604891529 / 2 ^ 120 \<le> x ^ 4 \<and>
      x ^ 4 \<le> 672401816883510092281426191302445765 / 2 ^ 119"
    by (rule power_bounds_sq [OF _ b2]) (simp_all add: x_def)
  have b5: "337181494424710169006708729667465477 / 2 ^ 118 \<le> x ^ 5 \<and>
      x ^ 5 \<le> 674362988849420338013417459334930955 / 2 ^ 119"
    by (rule power_bounds_mult [OF _ x0 b4]) (simp_all add: x_def)
  have b10: "1368509968709715958024414547800861103 / 2 ^ 120 \<le> x ^ 10 \<and>
      x ^ 10 \<le> 342127492177428989506103636950215277 / 2 ^ 118"
    by (rule power_bounds_sq [OF _ b5]) (simp_all add: x_def)
  have b11: "1372501456118452645775066041598124939 / 2 ^ 120 \<le> x ^ 11 \<and>
      x ^ 11 \<le> 1372501456118452645775066041598124945 / 2 ^ 120"
    by (rule power_bounds_mult [OF _ x0 b10]) (simp_all add: x_def)
  have b22: "1417183698372906157402497801330828639 / 2 ^ 120 \<le> x ^ 22 \<and>
      x ^ 22 \<le> 1417183698372906157402497801330828653 / 2 ^ 120"
    by (rule power_bounds_sq [OF _ b11]) (simp_all add: x_def)
  have b44: "755479737600595819172662424833759261 / 2 ^ 119 \<le> x ^ 44 \<and>
      x ^ 44 \<le> 188869934400148954793165606208439819 / 2 ^ 117"
    by (rule power_bounds_sq [OF _ b22]) (simp_all add: x_def)
  have b45: "757683220168597565925260016340357391 / 2 ^ 119 \<le> x ^ 45 \<and>
      x ^ 45 \<le> 1515366440337195131850520032680714813 / 2 ^ 120"
    by (rule power_bounds_mult [OF _ x0 b44]) (simp_all add: x_def)
  have b90: "1727570782275183908247710411509078721 / 2 ^ 120 \<le> x ^ 90 \<and>
      x ^ 90 \<le> 1727570782275183908247710411509078793 / 2 ^ 120"
    by (rule power_bounds_sq [OF _ b45]) (simp_all add: x_def)
  have b180: "2245288857317911078034038214304073361 / 2 ^ 120 \<le> x ^ 180 \<and>
      x ^ 180 \<le> 2245288857317911078034038214304073549 / 2 ^ 120"
    by (rule power_bounds_sq [OF _ b90]) (simp_all add: x_def)
  have b360: "1896334589995994107506612071892805697 / 2 ^ 119 \<le> x ^ 360 \<and>
      x ^ 360 \<le> 1896334589995994107506612071892806015 / 2 ^ 119"
    by (rule power_bounds_sq [OF _ b180]) (simp_all add: x_def)
  show ?thesis using b360 unfolding x_def .
qed

lemma scenario_power:
  "rnd ((4516735126283660 / 2 ^ 52) ^ 360) = 6425031506978329 / 2 ^ 51"
  by (rule rnd_value [where m = 6425031506978329 and k = 51],
      rule rounds_to_between [OF conjunct1 [OF scenario_growth] conjunct2 [OF scenario_growth]])
    simp_all

lemma scenario_inverse_power:
  "rnd (1 / (4516735126283660 / 2 ^ 52) ^ 360) = 6313559577606001 / 2 ^ 54"
  by (rule rnd_value [where m = 6313559577606001 and k = 54],
      rule rounds_to_inverse_between
        [OF conjunct1 [OF scenario_growth] conjunct2 [OF scenario_growth]])
    simp_all

lemma scenario_B_payment:
  "pmtR rnd 250000 (6725375443539941 / 2 ^ 61) 360 (Num 50000) = 4591220627964096 / 2 ^ 42"
proof -
  have u: "pmtR rnd 250000 (6725375443539941 / 2 ^ 61) 360 (Num 50000) =
      rnd (rnd (250000 - rnd (50000 / rnd (rnd (1 + 6725375443539941 / 2 ^ 61) ^ 360)))
         * rnd (6725375443539941 / 2 ^ 61 / rnd (1 - rnd (1 / rnd (1 + 6725375443539941 / 2 ^ 61) ^ 360))))"
    by (rule pmtR_balloon_unfold) simp_all
  have base: "rnd (1 + 6725375443539941 / 2 ^ 61) = 4516735126283660 / 2 ^ 52"
    by (rule rnd_value [where m = 4516735126283660 and k = 52]) (simp_all add: rounds_to_def)
  have bf: "rnd (50000 / (6425031506978329 / 2 ^ 51)) = 4816863691410828 / 2 ^ 38"
    by (rule rnd_value [where m = 4816863691410828 and k = 38]) (simp_all add: rounds_to_def)
  have pb: "rnd (250000 - 4816863691410828 / 2 ^ 38) = 7987826630573646 / 2 ^ 35"
    by (rule rnd_value [where m = 7987826630573646 and k = 35]) (simp_all add: rounds_to_def)
  have om: "rnd (1 - 6313559577606001 / 2 ^ 54) = 5850419465937992 / 2 ^ 53"
    by (rule rnd_value [where m = 5850419465937992 and k = 53]) (simp_all add: rounds_to_def)
  have fac: "rnd (6725375443539941 / 2 ^ 61 / (5850419465937992 / 2 ^ 53)) = 5177132771042607 / 2 ^ 60"
    by (rule rnd_value [where m = 5177132771042607 and k = 60]) (simp_all add: rounds_to_def)
  have pm: "rnd (7987826630573646 / 2 ^ 35 * (5177132771042607 / 2 ^ 60)) = 4591220627964096 / 2 ^ 42"
    by (rule rnd_value [where m = 4591220627964096 and k = 42]) (simp_all add: rounds_to_def)
  show ?thesis
    unfolding u base scenario_power scenario_inverse_power bf pb om fac by (rule pm)
qed

lemma scenario_A_payment:
  "pmtR rnd 250000 (6725375443539941 / 2 ^ 61) 360 (Num 0) = 4937298556368453 / 2 ^ 42"
proof -
  have u: "pmtR rnd 250000 (6725375443539941 / 2 ^ 61) 360 (Num 0) =
      rnd (rnd (250000 * rnd (6725375443539941 / 2 ^ 61 * rnd (rnd (1 + 6725375443539941 / 2 ^ 61) ^ 360)))
         / rnd (rnd (rnd (1 + 6725375443539941 / 2 ^ 61) ^ 360) - 1))"
    by (rule pmtR_no_balloon_unfold) simp_all
  have base: "rnd (1 + 6725375443539941 / 2 ^ 61) = 4516735126283660 / 2 ^ 52"
    by (rule rnd_value [where m = 4516735126283660 and k = 52]) (simp_all add: rounds_to_def)
  have t1: "rnd (6725375443539941 / 2 ^ 61 * (6425031506978329 / 2 ^ 51)) = 4797356858543819 / 2 ^ 59"
    by (rule rnd_value [where m = 4797356858543819 and k = 59]) (simp_all add: rounds_to_def)
  have t2: "rnd (250000 * (4797356858543819 / 2 ^ 59)) = 4575116022628612 / 2 ^ 41"
    by (rule rnd_value [where m = 4575116022628612 and k = 41]) (simp_all add: rounds_to_def)
  have t3: "rnd (6425031506978329 / 2 ^ 51 - 1) = 8346463386586162 / 2 ^ 52"
    by (rule rnd_value [where m = 8346463386586162 and k = 52]) (simp_all add: rounds_to_def)
  have pm: "rnd (4575116022628612 / 2 ^ 41 / (8346463386586162 / 2 ^ 52)) = 4937298556368453 / 2 ^ 42"
    by (rule rnd_value [where m = 4937298556368453 and k = 42]) (simp_all add: rounds_to_def)
  show ?thesis
    unfolding u base scenario_power t1 t2 t3 by (rule pm)
qed

lemma scenario_B_year_1:
  "last (entriesFromR rnd (6725375443539941 / 2 ^ 61) 360 (Num 50000)
           (4591220627964096 / 2 ^ 42) 1
           250000) =
   last (entriesFromR rnd (6725375443539941 / 2 ^ 61) 360 (Num 50000)
           (4591220627964096 / 2 ^ 42) 13
           (8458053119908606 / 2 ^ 35))"
proof -
  let ?E = "\<lambda>i b. last (entriesFromR rnd (6725375443539941 / 2 ^ 61) 360 (Num 50000)
                        (4591220627964096 / 2 ^ 42) i b)"
  have "?E 1 250000 = ?E 2 (8579119656737364 / 2 ^ 35)"
    by (rule period_step [where mi = 6413817828693334 and ki = 43 and mq = 5537246854469716 and kq = 44
          and mb = 8579119656737364 and kb = 35])
      (simp_all add: rounds_to_def)
  also have "\<dots> = ?E 3 (8568273177913545 / 2 ^ 35)"
    by (rule period_step [where mi = 6405742677030565 and ki = 43 and mq = 5553397157795254 and kq = 44
          and mb = 8568273177913545 and kb = 35])
      (simp_all add: rounds_to_def)
  also have "\<dots> = ?E 4 (8557395063526490 / 2 ^ 35)"
    by (rule period_step [where mi = 6397643972842114 and ki = 43 and mq = 5569594566172156 and kq = 44
          and mb = 8557395063526490 and kb = 35])
      (simp_all add: rounds_to_def)
  also have "\<dots> = ?E 5 (8546485221305806 / 2 ^ 35)"
    by (rule period_step [where mi = 6389521647433113 and ki = 43 and mq = 5585839216990158 and kq = 44
          and mb = 8546485221305806 and kb = 35])
      (simp_all add: rounds_to_def)
  also have "\<dots> = ?E 6 (8535543558711978 / 2 ^ 35)"
    by (rule period_step [where mi = 6381375631908335 and ki = 43 and mq = 5602131248039714 and kq = 44
          and mb = 8535543558711978 and kb = 35])
      (simp_all add: rounds_to_def)
  also have "\<dots> = ?E 7 (8524569982935585 / 2 ^ 35)"
    by (rule period_step [where mi = 6373205857171611 and ki = 43 and mq = 5618470797513162 and kq = 44
          and mb = 8524569982935585 and kb = 35])
      (simp_all add: rounds_to_def)
  also have "\<dots> = ?E 8 (8513564400896511 / 2 ^ 35)"
    by (rule period_step [where mi = 6365012253925237 and ki = 43 and mq = 5634858004005910 and kq = 44
          and mb = 8513564400896511 and kb = 35])
      (simp_all add: rounds_to_def)
  also have "\<dots> = ?E 9 (8502526719243156 / 2 ^ 35)"
    by (rule period_step [where mi = 6356794752669395 and ki = 43 and mq = 5651293006517594 and kq = 44
          and mb = 8502526719243156 and kb = 35])
      (simp_all add: rounds_to_def)
  also have "\<dots> = ?E 10 (8491456844351646 / 2 ^ 35)"
    by (rule period_step [where mi = 6348553283701557 and ki = 43 and mq = 5667775944453270 and kq = 44
          and mb = 8491456844351646 and kb = 35])
      (simp_all add: rounds_to_def)
  also have "\<dots> = ?E 11 (8480354682325035 / 2 ^ 35)"
    by (rule period_step [where mi = 6340287777115896 and ki = 43 and mq = 5684306957624592 and kq = 44
          and mb = 8480354682325035 and kb = 35])
      (simp_all add: rounds_to_def)
  also have "\<dots> = ?E 12 (8469220138992514 / 2 ^ 35)"
    by (rule period_step [where mi = 6331998162802693 and ki = 43 and mq = 5700886186250998 and kq = 44
          and mb = 8469220138992514 and kb = 35])
      (simp_all add: rounds_to_def)
  also have "\<dots> = ?E 13 (8458053119908606 / 2 ^ 35)"
    by (rule period_step [where mi = 6323684370447744 and ki = 43 and mq = 5717513770960896 and kq = 44
          and mb = 8458053119908606 and kb = 35])
      (simp_all add: rounds_to_def)
  finally show ?thesis .
qed

lemma scenario_B_year_2:
  "last (entriesFromR rnd (6725375443539941 / 2 ^ 61) 360 (Num 50000)
           (4591220627964096 / 2 ^ 42) 13
           (8458053119908606 / 2 ^ 35)) =
   last (entriesFromR rnd (6725375443539941 / 2 ^ 61) 360 (Num 50000)
           (4591220627964096 / 2 ^ 42) 25
           (8321481025704893 / 2 ^ 35))"
proof -
  let ?E = "\<lambda>i b. last (entriesFromR rnd (6725375443539941 / 2 ^ 61) 360 (Num 50000)
                        (4591220627964096 / 2 ^ 42) i b)"
  have "?E 13 (8458053119908606 / 2 ^ 35) = ?E 14 (8446853530352370 / 2 ^ 35)"
    by (rule period_step [where mi = 6315346329531759 and ki = 43 and mq = 5734189852792866 and kq = 44
          and mb = 8446853530352370 and kb = 35])
      (simp_all add: rounds_to_def)
  also have "\<dots> = ?E 15 (8435621275326595 / 2 ^ 35)"
    by (rule period_step [where mi = 6306983969329770 and ki = 43 and mq = 5750914573196844 and kq = 44
          and mb = 8435621275326595 and kb = 35])
      (simp_all add: rounds_to_def)
  also have "\<dots> = ?E 16 (8424356259556995 / 2 ^ 35)"
    by (rule period_step [where mi = 6298597218910525 and ki = 43 and mq = 5767688074035334 and kq = 44
          and mb = 8424356259556995 and kb = 35])
      (simp_all add: rounds_to_def)
  also have "\<dots> = ?E 17 (8413058387491400 / 2 ^ 35)"
    by (rule period_step [where mi = 6290186007135890 and ki = 43 and mq = 5784510497584604 and kq = 44
          and mb = 8413058387491400 and kb = 35])
      (simp_all add: rounds_to_def)
  also have "\<dots> = ?E 18 (8401727563298947 / 2 ^ 35)"
    by (rule period_step [where mi = 6281750262660246 and ki = 43 and mq = 5801381986535892 and kq = 44
          and mb = 8401727563298947 and kb = 35])
      (simp_all add: rounds_to_def)
  also have "\<dots> = ?E 19 (8390363690869266 / 2 ^ 35)"
    by (rule period_step [where mi = 6273289913929881 and ki = 43 and mq = 5818302683996622 and kq = 44
          and mb = 8390363690869266 and kb = 35])
      (simp_all add: rounds_to_def)
  also have "\<dots> = ?E 20 (8378966673811665 / 2 ^ 35)"
    by (rule period_step [where mi = 6264804889182386 and ki = 43 and mq = 5835272733491612 and kq = 44
          and mb = 8378966673811665 and kb = 35])
      (simp_all add: rounds_to_def)
  also have "\<dots> = ?E 21 (8367536415454313 / 2 ^ 35)"
    by (rule period_step [where mi = 6256295116446043 and ki = 43 and mq = 5852292278964298 and kq = 44
          and mb = 8367536415454313 and kb = 35])
      (simp_all add: rounds_to_def)
  also have "\<dots> = ?E 22 (8356072818843419 / 2 ^ 35)"
    by (rule period_step [where mi = 6247760523539221 and ki = 43 and mq = 5869361464777942 and kq = 44
          and mb = 8356072818843419 and kb = 35])
      (simp_all add: rounds_to_def)
  also have "\<dots> = ?E 23 (8344575786742409 / 2 ^ 35)"
    by (rule period_step [where mi = 6239201038069753 and ki = 43 and mq = 5886480435716878 and kq = 44
          and mb = 8344575786742409 and kb = 35])
      (simp_all add: rounds_to_def)
  also have "\<dots> = ?E 24 (8333045221631105 / 2 ^ 35)"
    by (rule period_step [where mi = 6230616587434332 and ki = 43 and mq = 5903649336987720 and kq = 44
          and mb = 8333045221631105 and kb = 35])
      (simp_all add: rounds_to_def)
  also have "\<dots> = ?E 25 (8321481025704893 / 2 ^ 35)"
    by (rule period_step [where mi = 6222007098817892 and ki = 43 and mq = 5920868314220600 and kq = 44
          and mb = 8321481025704893 and kb = 35])
      (simp_all add: rounds_to_def)
  finally show ?thesis .
qed

lemma scenario_B_year_3:
  "last (entriesFromR rnd (6725375443539941 / 2 ^ 61) 360 (Num 50000)
           (4591220627964096 / 2 ^ 42) 25
           (8321481025704893 / 2 ^ 35)) =
   last (entriesFromR rnd (6725375443539941 / 2 ^ 61) 360 (Num 50000)
           (4591220627964096 / 2 ^ 42) 37
           (8180051478252904 / 2 ^ 35))"
proof -
  let ?E = "\<lambda>i b. last (entriesFromR rnd (6725375443539941 / 2 ^ 61) 360 (Num 50000)
                        (4591220627964096 / 2 ^ 42) i b)"
  have "?E 25 (8321481025704893 / 2 ^ 35) = ?E 26 (8309883100873896 / 2 ^ 35)"
    by (rule period_step [where mi = 6213372499192987 and ki = 43 and mq = 5938137513470410 and kq = 44
          and mb = 8309883100873896 and kb = 35])
      (simp_all add: rounds_to_def)
  also have "\<dots> = ?E 27 (8298251348762142 / 2 ^ 35)"
    by (rule period_step [where mi = 6204712715319176 and ki = 43 and mq = 5955457081218032 and kq = 44
          and mb = 8298251348762142 and kb = 35])
      (simp_all add: rounds_to_def)
  also have "\<dots> = ?E 28 (8286585670706729 / 2 ^ 35)"
    by (rule period_step [where mi = 6196027673742400 and ki = 43 and mq = 5972827164371584 and kq = 44
          and mb = 8286585670706729 and kb = 35])
      (simp_all add: rounds_to_def)
  also have "\<dots> = ?E 29 (8274885967756987 / 2 ^ 35)"
    by (rule period_step [where mi = 6187317300794358 and ki = 43 and mq = 5990247910267668 and kq = 44
          and mb = 8274885967756987 and kb = 35])
      (simp_all add: rounds_to_def)
  also have "\<dots> = ?E 30 (8263152140673642 / 2 ^ 35)"
    by (rule period_step [where mi = 6178581522591884 and ki = 43 and mq = 6007719466672616 and kq = 44
          and mb = 8263152140673642 and kb = 35])
      (simp_all add: rounds_to_def)
  also have "\<dots> = ?E 31 (8251384089927971 / 2 ^ 35)"
    by (rule period_step [where mi = 6169820265036320 and ki = 43 and mq = 6025241981783744 and kq = 44
          and mb = 8251384089927971 and kb = 35])
      (simp_all add: rounds_to_def)
  also have "\<dots> = ?E 32 (8239581715700958 / 2 ^ 35)"
    by (rule period_step [where mi = 6161033453812885 and ki = 43 and mq = 6042815604230614 and kq = 44
          and mb = 8239581715700958 and kb = 35])
      (simp_all add: rounds_to_def)
  also have "\<dots> = ?E 33 (8227744917882450 / 2 ^ 35)"
    by (rule period_step [where mi = 6152221014390049 and ki = 43 and mq = 6060440483076286 and kq = 44
          and mb = 8227744917882450 and kb = 35])
      (simp_all add: rounds_to_def)
  also have "\<dots> = ?E 34 (8215873596070304 / 2 ^ 35)"
    by (rule period_step [where mi = 6143382872018896 and ki = 43 and mq = 6078116767818592 and kq = 44
          and mb = 8215873596070304 and kb = 35])
      (simp_all add: rounds_to_def)
  also have "\<dots> = ?E 35 (8203967649569540 / 2 ^ 35)"
    by (rule period_step [where mi = 6134518951732494 and ki = 43 and mq = 6095844608391396 and kq = 44
          and mb = 8203967649569540 and kb = 35])
      (simp_all add: rounds_to_def)
  also have "\<dots> = ?E 36 (8192026977391482 / 2 ^ 35)"
    by (rule period_step [where mi = 6125629178345257 and ki = 43 and mq = 6113624155165870 and kq = 44
          and mb = 8192026977391482 and kb = 35])
      (simp_all add: rounds_to_def)
  also have "\<dots> = ?E 37 (8180051478252904 / 2 ^ 35)"
    by (rule period_step [where mi = 6116713476452307 and ki = 43 and mq = 6131455558951770 and kq = 44
          and mb = 8180051478252904 and kb = 35])
      (simp_all add: rounds_to_def)
  finally show ?thesis .
qed

lemma scenario_B_year_4:
  "last (entriesFromR rnd (6725375443539941 / 2 ^ 61) 360 (Num 50000)
           (4591220627964096 / 2 ^ 42) 37
           (8180051478252904 / 2 ^ 35)) =
   last (entriesFromR rnd (6725375443539941 / 2 ^ 61) 360 (Num 50000)
           (4591220627964096 / 2 ^ 42) 49
           (8033591712741520 / 2 ^ 35))"
proof -
  let ?E = "\<lambda>i b. last (entriesFromR rnd (6725375443539941 / 2 ^ 61) 360 (Num 50000)
                        (4591220627964096 / 2 ^ 42) i b)"
  have "?E 37 (8180051478252904 / 2 ^ 35) = ?E 38 (8168041050575172 / 2 ^ 35)"
    by (rule period_step [where mi = 6107771770428835 and ki = 43 and mq = 6149338970998714 and kq = 44
          and mb = 8168041050575172 and kb = 35])
      (simp_all add: rounds_to_def)
  also have "\<dots> = ?E 39 (8155995592483380 / 2 ^ 35)"
    by (rule period_step [where mi = 6098803984429462 and ki = 43 and mq = 6167274542997460 and kq = 44
          and mb = 8155995592483380 and kb = 35])
      (simp_all add: rounds_to_def)
  also have "\<dots> = ?E 40 (8143915001805487 / 2 ^ 35)"
    by (rule period_step [where mi = 6089810042387591 and ki = 43 and mq = 6185262427081202 and kq = 44
          and mb = 8143915001805487 and kb = 35])
      (simp_all add: rounds_to_def)
  also have "\<dots> = ?E 41 (8131799176071450 / 2 ^ 35)"
    by (rule period_step [where mi = 6080789868014764 and ki = 43 and mq = 6203302775826856 and kq = 44
          and mb = 8131799176071450 and kb = 35])
      (simp_all add: rounds_to_def)
  also have "\<dots> = ?E 42 (8119648012512356 / 2 ^ 35)"
    by (rule period_step [where mi = 6071743384800016 and ki = 43 and mq = 6221395742256352 and kq = 44
          and mb = 8119648012512356 and kb = 35])
      (simp_all add: rounds_to_def)
  also have "\<dots> = ?E 43 (8107461408059548 / 2 ^ 35)"
    by (rule period_step [where mi = 6062670516009226 and ki = 43 and mq = 6239541479837932 and kq = 44
          and mb = 8107461408059548 and kb = 35])
      (simp_all add: rounds_to_def)
  also have "\<dots> = ?E 44 (8095239259343752 / 2 ^ 35)"
    by (rule period_step [where mi = 6053571184684463 and ki = 43 and mq = 6257740142487458 and kq = 44
          and mb = 8095239259343752 and kb = 35])
      (simp_all add: rounds_to_def)
  also have "\<dots> = ?E 45 (8082981462694202 / 2 ^ 35)"
    by (rule period_step [where mi = 6044445313643335 and ki = 43 and mq = 6275991884569714 and kq = 44
          and mb = 8082981462694202 and kb = 35])
      (simp_all add: rounds_to_def)
  also have "\<dots> = ?E 46 (8070687914137757 / 2 ^ 35)"
    by (rule period_step [where mi = 6035292825478338 and ki = 43 and mq = 6294296860899708 and kq = 44
          and mb = 8070687914137757 and kb = 35])
      (simp_all add: rounds_to_def)
  also have "\<dots> = ?E 47 (8058358509398023 / 2 ^ 35)"
    by (rule period_step [where mi = 6026113642556192 and ki = 43 and mq = 6312655226744000 and kq = 44
          and mb = 8058358509398023 and kb = 35])
      (simp_all add: rounds_to_def)
  also have "\<dots> = ?E 48 (8045993143894464 / 2 ^ 35)"
    by (rule period_step [where mi = 6016907687017191 and ki = 43 and mq = 6331067137822002 and kq = 44
          and mb = 8045993143894464 and kb = 35])
      (simp_all add: rounds_to_def)
  also have "\<dots> = ?E 49 (8033591712741520 / 2 ^ 35)"
    by (rule period_step [where mi = 6007674880774533 and ki = 43 and mq = 6349532750307318 and kq = 44
          and mb = 8033591712741520 and kb = 35])
      (simp_all add: rounds_to_def)
  finally show ?thesis .
qed

lemma scenario_B_year_5:
  "last (entriesFromR rnd (6725375443539941 / 2 ^ 61) 360 (Num 50000)
           (4591220627964096 / 2 ^ 42) 49
           (8033591712741520 / 2 ^ 35)) =
   last (entriesFromR rnd (6725375443539941 / 2 ^ 61) 360 (Num 50000)
           (4591220627964096 / 2 ^ 42) 61
           (7881922819641715 / 2 ^ 35))"
proof -
  let ?E = "\<lambda>i b. last (entriesFromR rnd (6725375443539941 / 2 ^ 61) 360 (Num 50000)
                        (4591220627964096 / 2 ^ 42) i b)"
  have "?E 49 (8033591712741520 / 2 ^ 35) = ?E 50 (8021154110747713 / 2 ^ 35)"
    by (rule period_step [where mi = 5998415145513669 and ki = 43 and mq = 6368052220829046 and kq = 44
          and mb = 8021154110747713 and kb = 35])
      (simp_all add: rounds_to_def)
  also have "\<dots> = ?E 51 (8008680232414758 / 2 ^ 35)"
    by (rule period_step [where mi = 5989128402691626 and ki = 43 and mq = 6386625706473132 and kq = 44
          and mb = 8008680232414758 and kb = 35])
      (simp_all add: rounds_to_def)
  also have "\<dots> = ?E 52 (7996169971936665 / 2 ^ 35)"
    by (rule period_step [where mi = 5979814573536353 and ki = 43 and mq = 6405253364783678 and kq = 44
          and mb = 7996169971936665 and kb = 35])
      (simp_all add: rounds_to_def)
  also have "\<dots> = ?E 53 (7983623223198844 / 2 ^ 35)"
    by (rule period_step [where mi = 5970473579046043 and ki = 43 and mq = 6423935353764298 and kq = 44
          and mb = 7983623223198844 and kb = 35])
      (simp_all add: rounds_to_def)
  also have "\<dots> = ?E 54 (7971039879777204 / 2 ^ 35)"
    by (rule period_step [where mi = 5961105339988470 and ki = 43 and mq = 6442671831879444 and kq = 44
          and mb = 7971039879777204 and kb = 35])
      (simp_all add: rounds_to_def)
  also have "\<dots> = ?E 55 (7958419834937251 / 2 ^ 35)"
    by (rule period_step [where mi = 5951709776900313 and ki = 43 and mq = 6461462958055758 and kq = 44
          and mb = 7958419834937251 and kb = 35])
      (simp_all add: rounds_to_def)
  also have "\<dots> = ?E 56 (7945762981633182 / 2 ^ 35)"
    by (rule period_step [where mi = 5942286810086481 and ki = 43 and mq = 6480308891683422 and kq = 44
          and mb = 7945762981633182 and kb = 35])
      (simp_all add: rounds_to_def)
  also have "\<dots> = ?E 57 (7933069212506976 / 2 ^ 35)"
    by (rule period_step [where mi = 5932836359619443 and ki = 43 and mq = 6499209792617498 and kq = 44
          and mb = 7933069212506976 and kb = 35])
      (simp_all add: rounds_to_def)
  also have "\<dots> = ?E 58 (7920338419887485 / 2 ^ 35)"
    by (rule period_step [where mi = 5923358345338542 and ki = 43 and mq = 6518165821179300 and kq = 44
          and mb = 7920338419887485 and kb = 35])
      (simp_all add: rounds_to_def)
  also have "\<dots> = ?E 59 (7907570495789521 / 2 ^ 35)"
    by (rule period_step [where mi = 5913852686849322 and ki = 43 and mq = 6537177138157740 and kq = 44
          and mb = 7907570495789521 and kb = 35])
      (simp_all add: rounds_to_def)
  also have "\<dots> = ?E 60 (7894765331912938 / 2 ^ 35)"
    by (rule period_step [where mi = 5904319303522843 and ki = 43 and mq = 6556243904810698 and kq = 44
          and mb = 7894765331912938 and kb = 35])
      (simp_all add: rounds_to_def)
  also have "\<dots> = ?E 61 (7881922819641715 / 2 ^ 35)"
    by (rule period_step [where mi = 5894758114494994 and ki = 43 and mq = 6575366282866396 and kq = 44
          and mb = 7881922819641715 and kb = 35])
      (simp_all add: rounds_to_def)
  finally show ?thesis .
qed

lemma scenario_B_year_6:
  "last (entriesFromR rnd (6725375443539941 / 2 ^ 61) 360 (Num 50000)
           (4591220627964096 / 2 ^ 42) 61
           (7881922819641715 / 2 ^ 35)) =
   last (entriesFromR rnd (6725375443539941 / 2 ^ 61) 360 (Num 50000)
           (4591220627964096 / 2 ^ 42) 73
           (7724859526157663 / 2 ^ 35))"
proof -
  let ?E = "\<lambda>i b. last (entriesFromR rnd (6725375443539941 / 2 ^ 61) 360 (Num 50000)
                        (4591220627964096 / 2 ^ 42) i b)"
  have "?E 61 (7881922819641715 / 2 ^ 35) = ?E 62 (7869042850043034 / 2 ^ 35)"
    by (rule period_step [where mi = 5885169038665814 and ki = 43 and mq = 6594544434524756 and kq = 44
          and mb = 7869042850043034 and kb = 35])
      (simp_all add: rounds_to_def)
  also have "\<dots> = ?E 63 (7856125313866357 / 2 ^ 35)"
    by (rule period_step [where mi = 5875551994698799 and ki = 43 and mq = 6613778522458786 and kq = 44
          and mb = 7856125313866357 and kb = 35])
      (simp_all add: rounds_to_def)
  also have "\<dots> = ?E 64 (7843170101542498 / 2 ^ 35)"
    by (rule period_step [where mi = 5865906901020213 and ki = 43 and mq = 6633068709815958 and kq = 44
          and mb = 7843170101542498 and kb = 35])
      (simp_all add: rounds_to_def)
  also have "\<dots> = ?E 65 (7830177103182694 / 2 ^ 35)"
    by (rule period_step [where mi = 5856233675818399 and ki = 43 and mq = 6652415160219586 and kq = 44
          and mb = 7830177103182694 and kb = 35])
      (simp_all add: rounds_to_def)
  also have "\<dots> = ?E 66 (7817146208577674 / 2 ^ 35)"
    by (rule period_step [where mi = 5846532237043078 and ki = 43 and mq = 6671818037770228 and kq = 44
          and mb = 7817146208577674 and kb = 35])
      (simp_all add: rounds_to_def)
  also have "\<dots> = ?E 67 (7804077307196723 / 2 ^ 35)"
    by (rule period_step [where mi = 5836802502404664 and ki = 43 and mq = 6691277507047056 and kq = 44
          and mb = 7804077307196723 and kb = 35])
      (simp_all add: rounds_to_def)
  also have "\<dots> = ?E 68 (7790970288186744 / 2 ^ 35)"
    by (rule period_step [where mi = 5827044389373553 and ki = 43 and mq = 6710793733109278 and kq = 44
          and mb = 7790970288186744 and kb = 35])
      (simp_all add: rounds_to_def)
  also have "\<dots> = ?E 69 (7777825040371319 / 2 ^ 35)"
    by (rule period_step [where mi = 5817257815179436 and ki = 43 and mq = 6730366881497512 and kq = 44
          and mb = 7777825040371319 and kb = 35])
      (simp_all add: rounds_to_def)
  also have "\<dots> = ?E 70 (7764641452249766 / 2 ^ 35)"
    by (rule period_step [where mi = 5807442696810585 and ki = 43 and mq = 6749997118235214 and kq = 44
          and mb = 7764641452249766 and kb = 35])
      (simp_all add: rounds_to_def)
  also have "\<dots> = ?E 71 (7751419411996192 / 2 ^ 35)"
    by (rule period_step [where mi = 5797598951013159 and ki = 43 and mq = 6769684609830066 and kq = 44
          and mb = 7751419411996192 and kb = 35])
      (simp_all add: rounds_to_def)
  also have "\<dots> = ?E 72 (7738158807458545 / 2 ^ 35)"
    by (rule period_step [where mi = 5787726494290490 and ki = 43 and mq = 6789429523275404 and kq = 44
          and mb = 7738158807458545 and kb = 35])
      (simp_all add: rounds_to_def)
  also have "\<dots> = ?E 73 (7724859526157663 / 2 ^ 35)"
    by (rule period_step [where mi = 5777825242902381 and ki = 43 and mq = 6809232026051622 and kq = 44
          and mb = 7724859526157663 and kb = 35])
      (simp_all add: rounds_to_def)
  finally show ?thesis .
qed

lemma scenario_B_year_7:
  "last (entriesFromR rnd (6725375443539941 / 2 ^ 61) 360 (Num 50000)
           (4591220627964096 / 2 ^ 42) 73
           (7724859526157663 / 2 ^ 35)) =
   last (entriesFromR rnd (6725375443539941 / 2 ^ 61) 360 (Num 50000)
           (4591220627964096 / 2 ^ 42) 85
           (7562209969904723 / 2 ^ 35))"
proof -
  let ?E = "\<lambda>i b. last (entriesFromR rnd (6725375443539941 / 2 ^ 61) 360 (Num 50000)
                        (4591220627964096 / 2 ^ 42) i b)"
  have "?E 73 (7724859526157663 / 2 ^ 35) = ?E 74 (7711521455286320 / 2 ^ 35)"
    by (rule period_step [where mi = 5767895112864389 and ki = 43 and mq = 6829092286127606 and kq = 44
          and mb = 7711521455286320 and kb = 35])
      (simp_all add: rounds_to_def)
  also have "\<dots> = ?E 75 (7698144481708269 / 2 ^ 35)"
    by (rule period_step [where mi = 5757936019947119 and ki = 43 and mq = 6849010471962146 and kq = 44
          and mb = 7698144481708269 and kb = 35])
      (simp_all add: rounds_to_def)
  also have "\<dots> = ?E 76 (7684728491957282 / 2 ^ 35)"
    by (rule period_step [where mi = 5747947879675508 and ki = 43 and mq = 6868986752505368 and kq = 44
          and mb = 7684728491957282 and kb = 35])
      (simp_all add: rounds_to_def)
  also have "\<dots> = ?E 77 (7671273372236188 / 2 ^ 35)"
    by (rule period_step [where mi = 5737930607328104 and ki = 43 and mq = 6889021297200176 and kq = 44
          and mb = 7671273372236188 and kb = 35])
      (simp_all add: rounds_to_def)
  also have "\<dots> = ?E 78 (7657779008415907 / 2 ^ 35)"
    by (rule period_step [where mi = 5727884117936354 and ki = 43 and mq = 6909114275983676 and kq = 44
          and mb = 7657779008415907 and kb = 35])
      (simp_all add: rounds_to_def)
  also have "\<dots> = ?E 79 (7644245286034484 / 2 ^ 35)"
    by (rule period_step [where mi = 5717808326283877 and ki = 43 and mq = 6929265859288630 and kq = 44
          and mb = 7644245286034484 and kb = 35])
      (simp_all add: rounds_to_def)
  also have "\<dots> = ?E 80 (7630672090296115 / 2 ^ 35)"
    by (rule period_step [where mi = 5707703146905748 and ki = 43 and mq = 6949476218044888 and kq = 44
          and mb = 7630672090296115 and kb = 35])
      (simp_all add: rounds_to_def)
  also have "\<dots> = ?E 81 (7617059306070176 / 2 ^ 35)"
    by (rule period_step [where mi = 5697568494087766 and ki = 43 and mq = 6969745523680852 and kq = 44
          and mb = 7617059306070176 and kb = 35])
      (simp_all add: rounds_to_def)
  also have "\<dots> = ?E 82 (7603406817890245 / 2 ^ 35)"
    by (rule period_step [where mi = 5687404281865732 and ki = 43 and mq = 6990073948124920 and kq = 44
          and mb = 7603406817890245 and kb = 35])
      (simp_all add: rounds_to_def)
  also have "\<dots> = ?E 83 (7589714509953122 / 2 ^ 35)"
    by (rule period_step [where mi = 5677210424024717 and ki = 43 and mq = 7010461663806950 and kq = 44
          and mb = 7589714509953122 and kb = 35])
      (simp_all add: rounds_to_def)
  also have "\<dots> = ?E 84 (7575982266117849 / 2 ^ 35)"
    by (rule period_step [where mi = 5666986834098331 and ki = 43 and mq = 7030908843659722 and kq = 44
          and mb = 7575982266117849 and kb = 35])
      (simp_all add: rounds_to_def)
  also have "\<dots> = ?E 85 (7562209969904723 / 2 ^ 35)"
    by (rule period_step [where mi = 5656733425367994 and ki = 43 and mq = 7051415661120396 and kq = 44
          and mb = 7562209969904723 and kb = 35])
      (simp_all add: rounds_to_def)
  finally show ?thesis .
qed

lemma scenario_B_year_8:
  "last (entriesFromR rnd (6725375443539941 / 2 ^ 61) 360 (Num 50000)
           (4591220627964096 / 2 ^ 42) 85
           (7562209969904723 / 2 ^ 35)) =
   last (entriesFromR rnd (6725375443539941 / 2 ^ 61) 360 (Num 50000)
           (4591220627964096 / 2 ^ 42) 97
           (7393775464537851 / 2 ^ 35))"
proof -
  let ?E = "\<lambda>i b. last (entriesFromR rnd (6725375443539941 / 2 ^ 61) 360 (Num 50000)
                        (4591220627964096 / 2 ^ 42) i b)"
  have "?E 85 (7562209969904723 / 2 ^ 35) = ?E 86 (7548397504494309 / 2 ^ 35)"
    by (rule period_step [where mi = 5646450110862193 and ki = 43 and mq = 7071982290131998 and kq = 44
          and mb = 7548397504494309 and kb = 35])
      (simp_all add: rounds_to_def)
  also have "\<dots> = ?E 87 (7534544752726448 / 2 ^ 35)"
    by (rule period_step [where mi = 5636136803355751 and ki = 43 and mq = 7092608905144882 and kq = 44
          and mb = 7534544752726448 and kb = 35])
      (simp_all add: rounds_to_def)
  also have "\<dots> = ?E 88 (7520651597099264 / 2 ^ 35)"
    by (rule period_step [where mi = 5625793415369081 and ki = 43 and mq = 7113295681118222 and kq = 44
          and mb = 7520651597099264 and kb = 35])
      (simp_all add: rounds_to_def)
  also have "\<dots> = ?E 89 (7506717919768167 / 2 ^ 35)"
    by (rule period_step [where mi = 5615419859167451 and ki = 43 and mq = 7134042793521482 and kq = 44
          and mb = 7506717919768167 and kb = 35])
      (simp_all add: rounds_to_def)
  also have "\<dots> = ?E 90 (7492743602544855 / 2 ^ 35)"
    by (rule period_step [where mi = 5605016046760232 and ki = 43 and mq = 7154850418335920 and kq = 44
          and mb = 7492743602544855 and kb = 35])
      (simp_all add: rounds_to_def)
  also have "\<dots> = ?E 91 (7478728526896308 / 2 ^ 35)"
    by (rule period_step [where mi = 5594581889900159 and ki = 43 and mq = 7175718732056066 and kq = 44
          and mb = 7478728526896308 and kb = 35])
      (simp_all add: rounds_to_def)
  also have "\<dots> = ?E 92 (7464672573943786 / 2 ^ 35)"
    by (rule period_step [where mi = 5584117300082577 and ki = 43 and mq = 7196647911691230 and kq = 44
          and mb = 7464672573943786 and kb = 35])
      (simp_all add: rounds_to_def)
  also have "\<dots> = ?E 93 (7450575624461819 / 2 ^ 35)"
    by (rule period_step [where mi = 5573622188544694 and ki = 43 and mq = 7217638134766996 and kq = 44
          and mb = 7450575624461819 and kb = 35])
      (simp_all add: rounds_to_def)
  also have "\<dots> = ?E 94 (7436437558877196 / 2 ^ 35)"
    by (rule period_step [where mi = 5563096466264825 and ki = 43 and mq = 7238689579326734 and kq = 44
          and mb = 7436437558877196 and kb = 35])
      (simp_all add: rounds_to_def)
  also have "\<dots> = ?E 95 (7422258257267952 / 2 ^ 35)"
    by (rule period_step [where mi = 5552540043961640 and ki = 43 and mq = 7259802423933104 and kq = 44
          and mb = 7422258257267952 and kb = 35])
      (simp_all add: rounds_to_def)
  also have "\<dots> = ?E 96 (7408037599362347 / 2 ^ 35)"
    by (rule period_step [where mi = 5541952832093404 and ki = 43 and mq = 7280976847669576 and kq = 44
          and mb = 7408037599362347 and kb = 35])
      (simp_all add: rounds_to_def)
  also have "\<dots> = ?E 97 (7393775464537851 / 2 ^ 35)"
    by (rule period_step [where mi = 5531334740857219 and ki = 43 and mq = 7302213030141946 and kq = 44
          and mb = 7393775464537851 and kb = 35])
      (simp_all add: rounds_to_def)
  finally show ?thesis .
qed

lemma scenario_B_year_9:
  "last (entriesFromR rnd (6725375443539941 / 2 ^ 61) 360 (Num 50000)
           (4591220627964096 / 2 ^ 42) 97
           (7393775464537851 / 2 ^ 35)) =
   last (entriesFromR rnd (6725375443539941 / 2 ^ 61) 360 (Num 50000)
           (4591220627964096 / 2 ^ 42) 109
           (7219350257044118 / 2 ^ 35))"
proof -
  let ?E = "\<lambda>i b. last (entriesFromR rnd (6725375443539941 / 2 ^ 61) 360 (Num 50000)
                        (4591220627964096 / 2 ^ 42) i b)"
  have "?E 97 (7393775464537851 / 2 ^ 35) = ?E 98 (7379471731820117 / 2 ^ 35)"
    by (rule period_step [where mi = 5520685680188262 and ki = 43 and mq = 7323511151479860 and kq = 44
          and mb = 7379471731820117 and kb = 35])
      (simp_all add: rounds_to_def)
  also have "\<dots> = ?E 99 (7365126279881956 / 2 ^ 35)"
    by (rule period_step [where mi = 5510005559759021 and ki = 43 and mq = 7344871392338342 and kq = 44
          and mb = 7365126279881956 and kb = 35])
      (simp_all add: rounds_to_def)
  also have "\<dots> = ?E 100 (7350738987042309 / 2 ^ 35)"
    by (rule period_step [where mi = 5499294288978527 and ki = 43 and mq = 7366293933899330 and kq = 44
          and mb = 7350738987042309 and kb = 35])
      (simp_all add: rounds_to_def)
  also have "\<dots> = ?E 101 (7336309731265213 / 2 ^ 35)"
    by (rule period_step [where mi = 5488551776991591 and ki = 43 and mq = 7387778957873202 and kq = 44
          and mb = 7336309731265213 and kb = 35])
      (simp_all add: rounds_to_def)
  also have "\<dots> = ?E 102 (7321838390158767 / 2 ^ 35)"
    by (rule period_step [where mi = 5477777932678026 and ki = 43 and mq = 7409326646500332 and kq = 44
          and mb = 7321838390158767 and kb = 35])
      (simp_all add: rounds_to_def)
  also have "\<dots> = ?E 103 (7307324840974094 / 2 ^ 35)"
    by (rule period_step [where mi = 5466972664651880 and ki = 43 and mq = 7430937182552624 and kq = 44
          and mb = 7307324840974094 and kb = 35])
      (simp_all add: rounds_to_def)
  also have "\<dots> = ?E 104 (7292768960604299 / 2 ^ 35)"
    by (rule period_step [where mi = 5456135881260657 and ki = 43 and mq = 7452610749335070 and kq = 44
          and mb = 7292768960604299 and kb = 35])
      (simp_all add: rounds_to_def)
  also have "\<dots> = ?E 105 (7278170625583425 / 2 ^ 35)"
    by (rule period_step [where mi = 5445267490584544 and ki = 43 and mq = 7474347530687296 and kq = 44
          and mb = 7278170625583425 and kb = 35])
      (simp_all add: rounds_to_def)
  also have "\<dots> = ?E 106 (7263529712085407 / 2 ^ 35)"
    by (rule period_step [where mi = 5434367400435624 and ki = 43 and mq = 7496147710985136 and kq = 44
          and mb = 7263529712085407 and kb = 35])
      (simp_all add: rounds_to_def)
  also have "\<dots> = ?E 107 (7248846095923020 / 2 ^ 35)"
    by (rule period_step [where mi = 5423435518357104 and ki = 43 and mq = 7518011475142176 and kq = 44
          and mb = 7248846095923020 and kb = 35])
      (simp_all add: rounds_to_def)
  also have "\<dots> = ?E 108 (7234119652546826 / 2 ^ 35)"
    by (rule period_step [where mi = 5412471751622522 and ki = 43 and mq = 7539939008611340 and kq = 44
          and mb = 7234119652546826 and kb = 35])
      (simp_all add: rounds_to_def)
  also have "\<dots> = ?E 109 (7219350257044118 / 2 ^ 35)"
    by (rule period_step [where mi = 5401476007234964 and ki = 43 and mq = 7561930497386456 and kq = 44
          and mb = 7219350257044118 and kb = 35])
      (simp_all add: rounds_to_def)
  finally show ?thesis .
qed

lemma scenario_B_year_10:
  "last (entriesFromR rnd (6725375443539941 / 2 ^ 61) 360 (Num 50000)
           (4591220627964096 / 2 ^ 42) 109
           (7219350257044118 / 2 ^ 35)) =
   last (entriesFromR rnd (6725375443539941 / 2 ^ 61) 360 (Num 50000)
           (4591220627964096 / 2 ^ 42) 121
           (7038721276402865 / 2 ^ 35))"
proof -
  let ?E = "\<lambda>i b. last (entriesFromR rnd (6725375443539941 / 2 ^ 61) 360 (Num 50000)
                        (4591220627964096 / 2 ^ 42) i b)"
  have "?E 109 (7219350257044118 / 2 ^ 35) = ?E 110 (7204537784137861 / 2 ^ 35)"
    by (rule period_step [where mi = 5390448191926275 and ki = 43 and mq = 7583986128003834 and kq = 44
          and mb = 7204537784137861 and kb = 35])
      (simp_all add: rounds_to_def)
  also have "\<dots> = ?E 111 (7189682108185627 / 2 ^ 35)"
    by (rule period_step [where mi = 5379388212156270 and ki = 43 and mq = 7606106087543844 and kq = 44
          and mb = 7189682108185627 and kb = 35])
      (simp_all add: rounds_to_def)
  also have "\<dots> = ?E 112 (7174783103178532 / 2 ^ 35)"
    by (rule period_step [where mi = 5368295974111935 and ki = 43 and mq = 7628290563632514 and kq = 44
          and mb = 7174783103178532 and kb = 35])
      (simp_all add: rounds_to_def)
  also have "\<dots> = ?E 113 (7159840642740167 / 2 ^ 35)"
    by (rule period_step [where mi = 5357171383706637 and ki = 43 and mq = 7650539744443110 and kq = 44
          and mb = 7159840642740167 and kb = 35])
      (simp_all add: rounds_to_def)
  also have "\<dots> = ?E 114 (7144854600125523 / 2 ^ 35)"
    by (rule period_step [where mi = 5346014346579325 and ki = 43 and mq = 7672853818697734 and kq = 44
          and mb = 7144854600125523 and kb = 35])
      (simp_all add: rounds_to_def)
  also have "\<dots> = ?E 115 (7129824848219920 / 2 ^ 35)"
    by (rule period_step [where mi = 5334824768093724 and ki = 43 and mq = 7695232975668936 and kq = 44
          and mb = 7129824848219920 and kb = 35])
      (simp_all add: rounds_to_def)
  also have "\<dots> = ?E 116 (7114751259537925 / 2 ^ 35)"
    by (rule period_step [where mi = 5323602553337541 and ki = 43 and mq = 7717677405181302 and kq = 44
          and mb = 7114751259537925 and kb = 35])
      (simp_all add: rounds_to_def)
  also have "\<dots> = ?E 117 (7099633706222274 / 2 ^ 35)"
    by (rule period_step [where mi = 5312347607121651 and ki = 43 and mq = 7740187297613082 and kq = 44
          and mb = 7099633706222274 and kb = 35])
      (simp_all add: rounds_to_def)
  also have "\<dots> = ?E 118 (7084472060042786 / 2 ^ 35)"
    by (rule period_step [where mi = 5301059833979298 and ki = 43 and mq = 7762762843897788 and kq = 44
          and mb = 7084472060042786 and kb = 35])
      (simp_all add: rounds_to_def)
  also have "\<dots> = ?E 119 (7069266192395275 / 2 ^ 35)"
    by (rule period_step [where mi = 5289739138165280 and ki = 43 and mq = 7785404235525824 and kq = 44
          and mb = 7069266192395275 and kb = 35])
      (simp_all add: rounds_to_def)
  also have "\<dots> = ?E 120 (7054015974300458 / 2 ^ 35)"
    by (rule period_step [where mi = 5278385423655139 and ki = 43 and mq = 7808111664546106 and kq = 44
          and mb = 7054015974300458 and kb = 35])
      (simp_all add: rounds_to_def)
  also have "\<dots> = ?E 121 (7038721276402865 / 2 ^ 35)"
    by (rule period_step [where mi = 5266998594144342 and ki = 43 and mq = 7830885323567700 and kq = 44
          and mb = 7038721276402865 and kb = 35])
      (simp_all add: rounds_to_def)
  finally show ?thesis .
qed

lemma scenario_B_year_11:
  "last (entriesFromR rnd (6725375443539941 / 2 ^ 61) 360 (Num 50000)
           (4591220627964096 / 2 ^ 42) 121
           (7038721276402865 / 2 ^ 35)) =
   last (entriesFromR rnd (6725375443539941 / 2 ^ 61) 360 (Num 50000)
           (4591220627964096 / 2 ^ 42) 133
           (6851667873306465 / 2 ^ 35))"
proof -
  let ?E = "\<lambda>i b. last (entriesFromR rnd (6725375443539941 / 2 ^ 61) 360 (Num 50000)
                        (4591220627964096 / 2 ^ 42) i b)"
  have "?E 121 (7038721276402865 / 2 ^ 35) = ?E 122 (7023381968969737 / 2 ^ 35)"
    by (rule period_step [where mi = 5255578553047473 and ki = 43 and mq = 7853725405761438 and kq = 44
          and mb = 7023381968969737 and kb = 35])
      (simp_all add: rounds_to_def)
  also have "\<dots> = ?E 123 (7007997921889929 / 2 ^ 35)"
    by (rule period_step [where mi = 5244125203497404 and ki = 43 and mq = 7876632104861576 and kq = 44
          and mb = 7007997921889929 and kb = 35])
      (simp_all add: rounds_to_def)
  also have "\<dots> = ?E 124 (6992569004672805 / 2 ^ 35)"
    by (rule period_step [where mi = 5232638448344481 and ki = 43 and mq = 7899605615167422 and kq = 44
          and mb = 6992569004672805 and kb = 35])
      (simp_all add: rounds_to_def)
  also have "\<dots> = ?E 125 (6977095086447131 / 2 ^ 35)"
    by (rule period_step [where mi = 5221118190155695 and ki = 43 and mq = 7922646131544994 and kq = 44
          and mb = 6977095086447131 and kb = 35])
      (simp_all add: rounds_to_def)
  also have "\<dots> = ?E 126 (6961576035959966 / 2 ^ 35)"
    by (rule period_step [where mi = 5209564331213858 and ki = 43 and mq = 7945753849428668 and kq = 44
          and mb = 6961576035959966 and kb = 35])
      (simp_all add: rounds_to_def)
  also have "\<dots> = ?E 127 (6946011721575546 / 2 ^ 35)"
    by (rule period_step [where mi = 5197976773516775 and ki = 43 and mq = 7968928964822834 and kq = 44
          and mb = 6946011721575546 and kb = 35])
      (simp_all add: rounds_to_def)
  also have "\<dots> = ?E 128 (6930402011274172 / 2 ^ 35)"
    by (rule period_step [where mi = 5186355418776408 and ki = 43 and mq = 7992171674303568 and kq = 44
          and mb = 6930402011274172 and kb = 35])
      (simp_all add: rounds_to_def)
  also have "\<dots> = ?E 129 (6914746772651086 / 2 ^ 35)"
    by (rule period_step [where mi = 5174700168418049 and ki = 43 and mq = 8015482175020286 and kq = 44
          and mb = 6914746772651086 and kb = 35])
      (simp_all add: rounds_to_def)
  also have "\<dots> = ?E 130 (6899045872915349 / 2 ^ 35)"
    by (rule period_step [where mi = 5163010923579478 and ki = 43 and mq = 8038860664697428 and kq = 44
          and mb = 6899045872915349 and kb = 35])
      (simp_all add: rounds_to_def)
  also have "\<dots> = ?E 131 (6883299178888716 / 2 ^ 35)"
    by (rule period_step [where mi = 5151287585110127 and ki = 43 and mq = 8062307341636130 and kq = 44
          and mb = 6883299178888716 and kb = 35])
      (simp_all add: rounds_to_def)
  also have "\<dots> = ?E 132 (6867506557004505 / 2 ^ 35)"
    by (rule period_step [where mi = 5139530053570242 and ki = 43 and mq = 8085822404715900 and kq = 44
          and mb = 6867506557004505 and kb = 35])
      (simp_all add: rounds_to_def)
  also have "\<dots> = ?E 133 (6851667873306465 / 2 ^ 35)"
    by (rule period_step [where mi = 5127738229230031 and ki = 43 and mq = 8109406053396322 and kq = 44
          and mb = 6851667873306465 and kb = 35])
      (simp_all add: rounds_to_def)
  finally show ?thesis .
qed

lemma scenario_B_year_12:
  "last (entriesFromR rnd (6725375443539941 / 2 ^ 61) 360 (Num 50000)
           (4591220627964096 / 2 ^ 42) 133
           (6851667873306465 / 2 ^ 35)) =
   last (entriesFromR rnd (6725375443539941 / 2 ^ 61) 360 (Num 50000)
           (4591220627964096 / 2 ^ 42) 145
           (6657961550623750 / 2 ^ 35))"
proof -
  let ?E = "\<lambda>i b. last (entriesFromR rnd (6725375443539941 / 2 ^ 61) 360 (Num 50000)
                        (4591220627964096 / 2 ^ 42) i b)"
  have "?E 133 (6851667873306465 / 2 ^ 35) = ?E 134 (6835782993447639 / 2 ^ 35)"
    by (rule period_step [where mi = 5115912012068827 and ki = 43 and mq = 8133058487718730 and kq = 44
          and mb = 6835782993447639 and kb = 35])
      (simp_all add: rounds_to_def)
  also have "\<dots> = ?E 135 (6819851782689225 / 2 ^ 35)"
    by (rule period_step [where mi = 5104051301774237 and ki = 43 and mq = 8156779908307910 and kq = 44
          and mb = 6819851782689225 and kb = 35])
      (simp_all add: rounds_to_def)
  also have "\<dots> = ?E 136 (6803874105899432 / 2 ^ 35)"
    by (rule period_step [where mi = 5092155997741288 and ki = 43 and mq = 8180570516373808 and kq = 44
          and mb = 6803874105899432 and kb = 35])
      (simp_all add: rounds_to_def)
  also have "\<dots> = ?E 137 (6787849827552336 / 2 ^ 35)"
    by (rule period_step [where mi = 5080225999071576 and ki = 43 and mq = 8204430513713232 and kq = 44
          and mb = 6787849827552336 and kb = 35])
      (simp_all add: rounds_to_def)
  also have "\<dots> = ?E 138 (6771778811726727 / 2 ^ 35)"
    by (rule period_step [where mi = 5068261204572411 and ki = 43 and mq = 8228360102711562 and kq = 44
          and mb = 6771778811726727 and kb = 35])
      (simp_all add: rounds_to_def)
  also have "\<dots> = ?E 139 (6755660922104960 / 2 ^ 35)"
    by (rule period_step [where mi = 5056261512755956 and ki = 43 and mq = 8252359486344472 and kq = 44
          and mb = 6755660922104960 and kb = 35])
      (simp_all add: rounds_to_def)
  also have "\<dots> = ?E 140 (6739496021971797 / 2 ^ 35)"
    by (rule period_step [where mi = 5044226821838370 and ki = 43 and mq = 8276428868179644 and kq = 44
          and mb = 6739496021971797 and kb = 35])
      (simp_all add: rounds_to_def)
  also have "\<dots> = ?E 141 (6723283974213245 / 2 ^ 35)"
    by (rule period_step [where mi = 5032157029738942 and ki = 43 and mq = 8300568452378500 and kq = 44
          and mb = 6723283974213245 and kb = 35])
      (simp_all add: rounds_to_def)
  also have "\<dots> = ?E 142 (6707024641315397 / 2 ^ 35)"
    by (rule period_step [where mi = 5020052034079223 and ki = 43 and mq = 8324778443697938 and kq = 44
          and mb = 6707024641315397 and kb = 35])
      (simp_all add: rounds_to_def)
  also have "\<dots> = ?E 143 (6690717885363264 / 2 ^ 35)"
    by (rule period_step [where mi = 5007911732182163 and ki = 43 and mq = 8349059047492058 and kq = 44
          and mb = 6690717885363264 and kb = 35])
      (simp_all add: rounds_to_def)
  also have "\<dots> = ?E 144 (6674363568039604 / 2 ^ 35)"
    by (rule period_step [where mi = 4995736021071237 and ki = 43 and mq = 8373410469713910 and kq = 44
          and mb = 6674363568039604 and kb = 35])
      (simp_all add: rounds_to_def)
  also have "\<dots> = ?E 145 (6657961550623750 / 2 ^ 35)"
    by (rule period_step [where mi = 4983524797469571 and ki = 43 and mq = 8397832916917242 and kq = 44
          and mb = 6657961550623750 and kb = 35])
      (simp_all add: rounds_to_def)
  finally show ?thesis .
qed

lemma scenario_B_year_13:
  "last (entriesFromR rnd (6725375443539941 / 2 ^ 61) 360 (Num 50000)
           (4591220627964096 / 2 ^ 42) 145
           (6657961550623750 / 2 ^ 35)) =
   last (entriesFromR rnd (6725375443539941 / 2 ^ 61) 360 (Num 50000)
           (4591220627964096 / 2 ^ 42) 157
           (6457365684276844 / 2 ^ 35))"
proof -
  let ?E = "\<lambda>i b. last (entriesFromR rnd (6725375443539941 / 2 ^ 61) 360 (Num 50000)
                        (4591220627964096 / 2 ^ 42) i b)"
  have "?E 145 (6657961550623750 / 2 ^ 35) = ?E 146 (6641511693990433 / 2 ^ 35)"
    by (rule period_step [where mi = 4971277957799067 and ki = 43 and mq = 8422326596258250 and kq = 44
          and mb = 6641511693990433 and kb = 35])
      (simp_all add: rounds_to_def)
  also have "\<dots> = ?E 147 (6625013858608602 / 2 ^ 35)"
    by (rule period_step [where mi = 4958995398179524 and ki = 43 and mq = 8446891715497336 and kq = 44
          and mb = 6625013858608602 and kb = 35])
      (simp_all add: rounds_to_def)
  also have "\<dots> = ?E 148 (6608467904540241 / 2 ^ 35)"
    by (rule period_step [where mi = 4946677014427756 and ki = 43 and mq = 8471528483000872 and kq = 44
          and mb = 6608467904540241 and kb = 35])
      (simp_all add: rounds_to_def)
  also have "\<dots> = ?E 149 (6591873691439181 / 2 ^ 35)"
    by (rule period_step [where mi = 4934322702056714 and ki = 43 and mq = 8496237107742956 and kq = 44
          and mb = 6591873691439181 and kb = 35])
      (simp_all add: rounds_to_def)
  also have "\<dots> = ?E 150 (6575231078549909 / 2 ^ 35)"
    by (rule period_step [where mi = 4921932356274589 and ki = 43 and mq = 8521017799307206 and kq = 44
          and mb = 6575231078549909 and kb = 35])
      (simp_all add: rounds_to_def)
  also have "\<dots> = ?E 151 (6558539924706377 / 2 ^ 35)"
    by (rule period_step [where mi = 4909505871983932 and ki = 43 and mq = 8545870767888520 and kq = 44
          and mb = 6558539924706377 and kb = 35])
      (simp_all add: rounds_to_def)
  also have "\<dots> = ?E 152 (6541800088330801 / 2 ^ 35)"
    by (rule period_step [where mi = 4897043143780762 and ki = 43 and mq = 8570796224294860 and kq = 44
          and mb = 6541800088330801 and kb = 35])
      (simp_all add: rounds_to_def)
  also have "\<dots> = ?E 153 (6525011427432463 / 2 ^ 35)"
    by (rule period_step [where mi = 4884544065953665 and ki = 43 and mq = 8595794379949054 and kq = 44
          and mb = 6525011427432463 and kb = 35])
      (simp_all add: rounds_to_def)
  also have "\<dots> = ?E 154 (6508173799606505 / 2 ^ 35)"
    by (rule period_step [where mi = 4872008532482906 and ki = 43 and mq = 8620865446890572 and kq = 44
          and mb = 6508173799606505 and kb = 35])
      (simp_all add: rounds_to_def)
  also have "\<dots> = ?E 155 (6491287062032721 / 2 ^ 35)"
    by (rule period_step [where mi = 4859436437039524 and ki = 43 and mq = 8646009637777336 and kq = 44
          and mb = 6491287062032721 and kb = 35])
      (simp_all add: rounds_to_def)
  also have "\<dots> = ?E 156 (6474351071474347 / 2 ^ 35)"
    by (rule period_step [where mi = 4846827672984432 and ki = 43 and mq = 8671227165887520 and kq = 44
          and mb = 6474351071474347 and kb = 35])
      (simp_all add: rounds_to_def)
  also have "\<dots> = ?E 157 (6457365684276844 / 2 ^ 35)"
    by (rule period_step [where mi = 4834182133367513 and ki = 43 and mq = 8696518245121358 and kq = 44
          and mb = 6457365684276844 and kb = 35])
      (simp_all add: rounds_to_def)
  finally show ?thesis .
qed

lemma scenario_B_year_14:
  "last (entriesFromR rnd (6725375443539941 / 2 ^ 61) 360 (Num 50000)
           (4591220627964096 / 2 ^ 42) 157
           (6457365684276844 / 2 ^ 35)) =
   last (entriesFromR rnd (6725375443539941 / 2 ^ 61) 360 (Num 50000)
           (4591220627964096 / 2 ^ 42) 169
           (6249635234190421 / 2 ^ 35))"
proof -
  let ?E = "\<lambda>i b. last (entriesFromR rnd (6725375443539941 / 2 ^ 61) 360 (Num 50000)
                        (4591220627964096 / 2 ^ 42) i b)"
  have "?E 157 (6457365684276844 / 2 ^ 35) = ?E 158 (6440330756366682 / 2 ^ 35)"
    by (rule period_step [where mi = 4821499710926710 and ki = 43 and mq = 8721883090002964 and kq = 44
          and mb = 6440330756366682 and kb = 35])
      (simp_all add: rounds_to_def)
  also have "\<dots> = ?E 159 (6423246143250115 / 2 ^ 35)"
    by (rule period_step [where mi = 4808780298087123 and ki = 43 and mq = 8747321915682138 and kq = 44
          and mb = 6423246143250115 and kb = 35])
      (simp_all add: rounds_to_def)
  also have "\<dots> = ?E 160 (6406111700011958 / 2 ^ 35)"
    by (rule period_step [where mi = 4796023786960086 and ki = 43 and mq = 8772834937936212 and kq = 44
          and mb = 6406111700011958 and kb = 35])
      (simp_all add: rounds_to_def)
  also have "\<dots> = ?E 161 (6388927281314357 / 2 ^ 35)"
    by (rule period_step [where mi = 4783230069342262 and ki = 43 and mq = 8798422373171860 and kq = 44
          and mb = 6388927281314357 and kb = 35])
      (simp_all add: rounds_to_def)
  also have "\<dots> = ?E 162 (6371692741395554 / 2 ^ 35)"
    by (rule period_step [where mi = 4770399036714720 and ki = 43 and mq = 8824084438426944 and kq = 44
          and mb = 6371692741395554 and kb = 35])
      (simp_all add: rounds_to_def)
  also have "\<dots> = ?E 163 (6354407934068655 / 2 ^ 35)"
    by (rule period_step [where mi = 4757530580242014 and ki = 43 and mq = 8849821351372356 and kq = 44
          and mb = 6354407934068655 and kb = 35])
      (simp_all add: rounds_to_def)
  also have "\<dots> = ?E 164 (6337072712720386 / 2 ^ 35)"
    by (rule period_step [where mi = 4744624590771263 and ki = 43 and mq = 8875633330313858 and kq = 44
          and mb = 6337072712720386 and kb = 35])
      (simp_all add: rounds_to_def)
  also have "\<dots> = ?E 165 (6319686930309851 / 2 ^ 35)"
    by (rule period_step [where mi = 4731680958831222 and ki = 43 and mq = 8901520594193940 and kq = 44
          and mb = 6319686930309851 and kb = 35])
      (simp_all add: rounds_to_def)
  also have "\<dots> = ?E 166 (6302250439367285 / 2 ^ 35)"
    by (rule period_step [where mi = 4718699574631356 and ki = 43 and mq = 8927483362593672 and kq = 44
          and mb = 6302250439367285 and kb = 35])
      (simp_all add: rounds_to_def)
  also have "\<dots> = ?E 167 (6284763091992803 / 2 ^ 35)"
    by (rule period_step [where mi = 4705680328060906 and ki = 43 and mq = 8953521855734572 and kq = 44
          and mb = 6284763091992803 and kb = 35])
      (simp_all add: rounds_to_def)
  also have "\<dots> = ?E 168 (6267224739855146 / 2 ^ 35)"
    by (rule period_step [where mi = 4692623108687960 and ki = 43 and mq = 8979636294480464 and kq = 44
          and mb = 6267224739855146 and kb = 35])
      (simp_all add: rounds_to_def)
  also have "\<dots> = ?E 169 (6249635234190421 / 2 ^ 35)"
    by (rule period_step [where mi = 4679527805758509 and ki = 43 and mq = 9005826900339366 and kq = 44
          and mb = 6249635234190421 and kb = 35])
      (simp_all add: rounds_to_def)
  finally show ?thesis .
qed

lemma scenario_B_year_15:
  "last (entriesFromR rnd (6725375443539941 / 2 ^ 61) 360 (Num 50000)
           (4591220627964096 / 2 ^ 42) 169
           (6249635234190421 / 2 ^ 35)) =
   last (entriesFromR rnd (6725375443539941 / 2 ^ 61) 360 (Num 50000)
           (4591220627964096 / 2 ^ 42) 181
           (6034516444960329 / 2 ^ 35))"
proof -
  let ?E = "\<lambda>i b. last (entriesFromR rnd (6725375443539941 / 2 ^ 61) 360 (Num 50000)
                        (4591220627964096 / 2 ^ 42) i b)"
  have "?E 169 (6249635234190421 / 2 ^ 35) = ?E 170 (6231994425800840 / 2 ^ 35)"
    by (rule period_step [where mi = 4666394308195515 and ki = 43 and mq = 4516046947732677 and kq = 43
          and mb = 6231994425800840 and kb = 35])
      (simp_all add: rounds_to_def)
  also have "\<dots> = ?E 171 (6214302165053456 / 2 ^ 35)"
    by (rule period_step [where mi = 4653222504597961 and ki = 43 and mq = 4529218751330231 and kq = 43
          and mb = 6214302165053456 and kb = 35])
      (simp_all add: rounds_to_def)
  also have "\<dots> = ?E 172 (6196558301878892 / 2 ^ 35)"
    by (rule period_step [where mi = 4640012283239914 and ki = 43 and mq = 4542428972688278 and kq = 43
          and mb = 6196558301878892 and kb = 35])
      (simp_all add: rounds_to_def)
  also have "\<dots> = ?E 173 (6178762685770069 / 2 ^ 35)"
    by (rule period_step [where mi = 4626763532069573 and ki = 43 and mq = 4555677723858619 and kq = 43
          and mb = 6178762685770069 and kb = 35])
      (simp_all add: rounds_to_def)
  also have "\<dots> = ?E 174 (6160915165780929 / 2 ^ 35)"
    by (rule period_step [where mi = 4613476138708318 and ki = 43 and mq = 4568965117219874 and kq = 43
          and mb = 6160915165780929 and kb = 35])
      (simp_all add: rounds_to_def)
  also have "\<dots> = ?E 175 (6143015590525154 / 2 ^ 35)"
    by (rule period_step [where mi = 4600149990449761 and ki = 43 and mq = 4582291265478431 and kq = 43
          and mb = 6143015590525154 and kb = 35])
      (simp_all add: rounds_to_def)
  also have "\<dots> = ?E 176 (6125063808174883 / 2 ^ 35)"
    by (rule period_step [where mi = 4586784974258782 and ki = 43 and mq = 4595656281669410 and kq = 43
          and mb = 6125063808174883 and kb = 35])
      (simp_all add: rounds_to_def)
  also have "\<dots> = ?E 177 (6107059666459424 / 2 ^ 35)"
    by (rule period_step [where mi = 4573380976770580 and ki = 43 and mq = 4609060279157612 and kq = 43
          and mb = 6107059666459424 and kb = 35])
      (simp_all add: rounds_to_def)
  also have "\<dots> = ?E 178 (6089003012663961 / 2 ^ 35)"
    by (rule period_step [where mi = 4559937884289703 and ki = 43 and mq = 4622503371638489 and kq = 43
          and mb = 6089003012663961 and kb = 35])
      (simp_all add: rounds_to_def)
  also have "\<dots> = ?E 179 (6070893693628261 / 2 ^ 35)"
    by (rule period_step [where mi = 4546455582789091 and ki = 43 and mq = 4635985673139101 and kq = 43
          and mb = 6070893693628261 and kb = 35])
      (simp_all add: rounds_to_def)
  also have "\<dots> = ?E 180 (6052731555745374 / 2 ^ 35)"
    by (rule period_step [where mi = 4532933957909102 and ki = 43 and mq = 4649507298019090 and kq = 43
          and mb = 6052731555745374 and kb = 35])
      (simp_all add: rounds_to_def)
  also have "\<dots> = ?E 181 (6034516444960329 / 2 ^ 35)"
    by (rule period_step [where mi = 4519372894956546 and ki = 43 and mq = 4663068360971646 and kq = 43
          and mb = 6034516444960329 and kb = 35])
      (simp_all add: rounds_to_def)
  finally show ?thesis .
qed

lemma scenario_B_year_16:
  "last (entriesFromR rnd (6725375443539941 / 2 ^ 61) 360 (Num 50000)
           (4591220627964096 / 2 ^ 42) 181
           (6034516444960329 / 2 ^ 35)) =
   last (entriesFromR rnd (6725375443539941 / 2 ^ 61) 360 (Num 50000)
           (4591220627964096 / 2 ^ 42) 193
           (5811746535875895 / 2 ^ 35))"
proof -
  let ?E = "\<lambda>i b. last (entriesFromR rnd (6725375443539941 / 2 ^ 61) 360 (Num 50000)
                        (4591220627964096 / 2 ^ 42) i b)"
  have "?E 181 (6034516444960329 / 2 ^ 35) = ?E 182 (6016248206768827 / 2 ^ 35)"
    by (rule period_step [where mi = 4505772278903713 and ki = 43 and mq = 4676668977024479 and kq = 43
          and mb = 6016248206768827 and kb = 35])
      (simp_all add: rounds_to_def)
  also have "\<dots> = ?E 183 (5997926686215933 / 2 ^ 35)"
    by (rule period_step [where mi = 8984263988774782 and ki = 44 and mq = 4690309261540801 and kq = 43
          and mb = 5997926686215933 and kb = 35])
      (simp_all add: rounds_to_def)
  also have "\<dots> = ?E 184 (5979551727894760 / 2 ^ 35)"
    by (rule period_step [where mi = 8956903851415794 and ki = 44 and mq = 4703989330220295 and kq = 43
          and mb = 5979551727894760 and kb = 35])
      (simp_all add: rounds_to_def)
  also have "\<dots> = ?E 185 (5961123175945150 / 2 ^ 35)"
    by (rule period_step [where mi = 8929463913656175 and ki = 44 and mq = 4717709299100104 and kq = 43
          and mb = 5961123175945150 and kb = 35])
      (simp_all add: rounds_to_def)
  also have "\<dots> = ?E 186 (5942640874052354 / 2 ^ 35)"
    by (rule period_step [where mi = 8901943942744758 and ki = 44 and mq = 4731469284555813 and kq = 43
          and mb = 5942640874052354 and kb = 35])
      (simp_all add: rounds_to_def)
  also have "\<dots> = ?E 187 (5924104665445704 / 2 ^ 35)"
    by (rule period_step [where mi = 8874343705251516 and ki = 44 and mq = 4745269403302434 and kq = 43
          and mb = 5924104665445704 and kb = 35])
      (simp_all add: rounds_to_def)
  also have "\<dots> = ?E 188 (5905514392897284 / 2 ^ 35)"
    by (rule period_step [where mi = 8846662967065585 and ki = 44 and mq = 4759109772395400 and kq = 43
          and mb = 5905514392897284 and kb = 35])
      (simp_all add: rounds_to_def)
  also have "\<dots> = ?E 189 (5886869898720598 / 2 ^ 35)"
    by (rule period_step [where mi = 8818901493393278 and ki = 44 and mq = 4772990509231553 and kq = 43
          and mb = 5886869898720598 and kb = 35])
      (simp_all add: rounds_to_def)
  also have "\<dots> = ?E 190 (5868171024769230 / 2 ^ 35)"
    by (rule period_step [where mi = 8791059048756093 and ki = 44 and mq = 4786911731550146 and kq = 43
          and mb = 5868171024769230 and kb = 35])
      (simp_all add: rounds_to_def)
  also have "\<dots> = ?E 191 (5849417612435504 / 2 ^ 35)"
    by (rule period_step [where mi = 8763135396988717 and ki = 44 and mq = 4800873557433834 and kq = 43
          and mb = 5849417612435504 and kb = 35])
      (simp_all add: rounds_to_def)
  also have "\<dots> = ?E 192 (5830609502649138 / 2 ^ 35)"
    by (rule period_step [where mi = 8735130301237020 and ki = 44 and mq = 4814876105309682 and kq = 43
          and mb = 5830609502649138 and kb = 35])
      (simp_all add: rounds_to_def)
  also have "\<dots> = ?E 193 (5811746535875895 / 2 ^ 35)"
    by (rule period_step [where mi = 8707043523956046 and ki = 44 and mq = 4828919493950169 and kq = 43
          and mb = 5811746535875895 and kb = 35])
      (simp_all add: rounds_to_def)
  finally show ?thesis .
qed

lemma scenario_B_year_17:
  "last (entriesFromR rnd (6725375443539941 / 2 ^ 61) 360 (Num 50000)
           (4591220627964096 / 2 ^ 42) 193
           (5811746535875895 / 2 ^ 35)) =
   last (entriesFromR rnd (6725375443539941 / 2 ^ 61) 360 (Num 50000)
           (4591220627964096 / 2 ^ 42) 205
           (5581053379917279 / 2 ^ 35))"
proof -
  let ?E = "\<lambda>i b. last (entriesFromR rnd (6725375443539941 / 2 ^ 61) 360 (Num 50000)
                        (4591220627964096 / 2 ^ 42) i b)"
  have "?E 193 (5811746535875895 / 2 ^ 35) = ?E 194 (5792828552116230 / 2 ^ 35)"
    by (rule period_step [where mi = 8678874826908004 and ki = 44 and mq = 4843003842474190 and kq = 43
          and mb = 5792828552116230 and kb = 35])
      (simp_all add: rounds_to_def)
  also have "\<dots> = ?E 195 (5773855390903933 / 2 ^ 35)"
    by (rule period_step [where mi = 8650623971160237 and ki = 44 and mq = 4857129270348074 and kq = 43
          and mb = 5773855390903933 and kb = 35])
      (simp_all add: rounds_to_def)
  also have "\<dots> = ?E 196 (5754826891304767 / 2 ^ 35)"
    by (rule period_step [where mi = 8622290717083207 and ki = 44 and mq = 4871295897386588 and kq = 43
          and mb = 5754826891304767 and kb = 35])
      (simp_all add: rounds_to_def)
  also have "\<dots> = ?E 197 (5735742891915103 / 2 ^ 35)"
    by (rule period_step [where mi = 8593874824348452 and ki = 44 and mq = 4885503843753966 and kq = 43
          and mb = 5735742891915103 and kb = 35])
      (simp_all add: rounds_to_def)
  also have "\<dots> = ?E 198 (5716603230860553 / 2 ^ 35)"
    by (rule period_step [where mi = 8565376051926554 and ki = 44 and mq = 4899753229964915 and kq = 43
          and mb = 5716603230860553 and kb = 35])
      (simp_all add: rounds_to_def)
  also have "\<dots> = ?E 199 (5697407745794593 / 2 ^ 35)"
    by (rule period_step [where mi = 8536794158085093 and ki = 44 and mq = 4914044176885646 and kq = 43
          and mb = 5697407745794593 and kb = 35])
      (simp_all add: rounds_to_def)
  also have "\<dots> = ?E 200 (5678156273897191 / 2 ^ 35)"
    by (rule period_step [where mi = 8508128900386593 and ki = 44 and mq = 4928376805734896 and kq = 43
          and mb = 5678156273897191 and kb = 35])
      (simp_all add: rounds_to_def)
  also have "\<dots> = ?E 201 (5658848651873422 / 2 ^ 35)"
    by (rule period_step [where mi = 8479380035686472 and ki = 44 and mq = 4942751238084956 and kq = 43
          and mb = 5658848651873422 and kb = 35])
      (simp_all add: rounds_to_def)
  also have "\<dots> = ?E 202 (5639484715952083 / 2 ^ 35)"
    by (rule period_step [where mi = 8450547320130977 and ki = 44 and mq = 4957167595862704 and kq = 43
          and mb = 5639484715952083 and kb = 35])
      (simp_all add: rounds_to_def)
  also have "\<dots> = ?E 203 (5620064301884307 / 2 ^ 35)"
    by (rule period_step [where mi = 8421630509155111 and ki = 44 and mq = 4971626001350636 and kq = 43
          and mb = 5620064301884307 and kb = 35])
      (simp_all add: rounds_to_def)
  also have "\<dots> = ?E 204 (5600587244942167 / 2 ^ 35)"
    by (rule period_step [where mi = 8392629357480566 and ki = 44 and mq = 4986126577187909 and kq = 43
          and mb = 5600587244942167 and kb = 35])
      (simp_all add: rounds_to_def)
  also have "\<dots> = ?E 205 (5581053379917279 / 2 ^ 35)"
    by (rule period_step [where mi = 8363543619113636 and ki = 44 and mq = 5000669446371374 and kq = 43
          and mb = 5581053379917279 and kb = 35])
      (simp_all add: rounds_to_def)
  finally show ?thesis .
qed

lemma scenario_B_year_18:
  "last (entriesFromR rnd (6725375443539941 / 2 ^ 61) 360 (Num 50000)
           (4591220627964096 / 2 ^ 42) 205
           (5581053379917279 / 2 ^ 35)) =
   last (entriesFromR rnd (6725375443539941 / 2 ^ 61) 360 (Num 50000)
           (4591220627964096 / 2 ^ 42) 217
           (5342155171335727 / 2 ^ 35))"
proof -
  let ?E = "\<lambda>i b. last (entriesFromR rnd (6725375443539941 / 2 ^ 61) 360 (Num 50000)
                        (4591220627964096 / 2 ^ 42) i b)"
  have "?E 205 (5581053379917279 / 2 ^ 35) = ?E 206 (5561462541119402 / 2 ^ 35)"
    by (rule period_step [where mi = 8334373047343137 and ki = 44 and mq = 5015254732256624 and kq = 43
          and mb = 5561462541119402 and kb = 35])
      (simp_all add: rounds_to_def)
  also have "\<dots> = ?E 207 (5541814562375031 / 2 ^ 35)"
    by (rule period_step [where mi = 8305117394738307 and ki = 44 and mq = 5029882558559038 and kq = 43
          and mb = 5541814562375031 and kb = 35])
      (simp_all add: rounds_to_def)
  also have "\<dots> = ?E 208 (5522109277025989 / 2 ^ 35)"
    by (rule period_step [where mi = 8275776413146713 and ki = 44 and mq = 5044553049354836 and kq = 43
          and mb = 5522109277025989 and kb = 35])
      (simp_all add: rounds_to_def)
  also have "\<dots> = ?E 209 (5502346517928012 / 2 ^ 35)"
    by (rule period_step [where mi = 8246349853692144 and ki = 44 and mq = 5059266329082120 and kq = 43
          and mb = 5502346517928012 and kb = 35])
      (simp_all add: rounds_to_def)
  also have "\<dots> = ?E 210 (5482526117449333 / 2 ^ 35)"
    by (rule period_step [where mi = 8216837466772498 and ki = 44 and mq = 5074022522541943 and kq = 43
          and mb = 5482526117449333 and kb = 35])
      (simp_all add: rounds_to_def)
  also have "\<dots> = ?E 211 (5462647907469257 / 2 ^ 35)"
    by (rule period_step [where mi = 8187239002057671 and ki = 44 and mq = 5088821754899356 and kq = 43
          and mb = 5462647907469257 and kb = 35])
      (simp_all add: rounds_to_def)
  also have "\<dots> = ?E 212 (5442711719376740 / 2 ^ 35)"
    by (rule period_step [where mi = 8157554208487424 and ki = 44 and mq = 5103664151684480 and kq = 43
          and mb = 5442711719376740 and kb = 35])
      (simp_all add: rounds_to_def)
  also have "\<dots> = ?E 213 (5422717384068953 / 2 ^ 35)"
    by (rule period_step [where mi = 8127782834269265 and ki = 44 and mq = 5118549838793560 and kq = 43
          and mb = 5422717384068953 and kb = 35])
      (simp_all add: rounds_to_def)
  also have "\<dots> = ?E 214 (5402664731949851 / 2 ^ 35)"
    by (rule period_step [where mi = 8097924626876304 and ki = 44 and mq = 5133478942490040 and kq = 43
          and mb = 5402664731949851 and kb = 35])
      (simp_all add: rounds_to_def)
  also have "\<dots> = ?E 215 (5382553592928735 / 2 ^ 35)"
    by (rule period_step [where mi = 8067979333045111 and ki = 44 and mq = 5148451589405636 and kq = 43
          and mb = 5382553592928735 and kb = 35])
      (simp_all add: rounds_to_def)
  also have "\<dots> = ?E 216 (5362383796418808 / 2 ^ 35)"
    by (rule period_step [where mi = 8037946698773578 and ki = 44 and mq = 5163467906541403 and kq = 43
          and mb = 5362383796418808 and kb = 35])
      (simp_all add: rounds_to_def)
  also have "\<dots> = ?E 217 (5342155171335727 / 2 ^ 35)"
    by (rule period_step [where mi = 8007826469318754 and ki = 44 and mq = 5178528021268815 and kq = 43
          and mb = 5342155171335727 and kb = 35])
      (simp_all add: rounds_to_def)
  finally show ?thesis .
qed

lemma scenario_B_year_19:
  "last (entriesFromR rnd (6725375443539941 / 2 ^ 61) 360 (Num 50000)
           (4591220627964096 / 2 ^ 42) 217
           (5342155171335727 / 2 ^ 35)) =
   last (entriesFromR rnd (6725375443539941 / 2 ^ 61) 360 (Num 50000)
           (4591220627964096 / 2 ^ 42) 229
           (5094760081410675 / 2 ^ 35))"
proof -
  let ?E = "\<lambda>i b. last (entriesFromR rnd (6725375443539941 / 2 ^ 61) 360 (Num 50000)
                        (4591220627964096 / 2 ^ 42) i b)"
  have "?E 217 (5342155171335727 / 2 ^ 35) = ?E 218 (5321867546096153 / 2 ^ 35)"
    by (rule period_step [where mi = 7977618389194686 and ki = 44 and mq = 5193632061330849 and kq = 43
          and mb = 5321867546096153 and kb = 35])
      (simp_all add: rounds_to_def)
  also have "\<dots> = ?E 219 (5301520748616297 / 2 ^ 35)"
    by (rule period_step [where mi = 7947322202170256 and ki = 44 and mq = 5208780154843064 and kq = 43
          and mb = 5301520748616297 and kb = 35])
      (simp_all add: rounds_to_def)
  also have "\<dots> = ?E 220 (5281114606310458 / 2 ^ 35)"
    by (rule period_step [where mi = 7916937651267004 and ki = 44 and mq = 5223972430294690 and kq = 43
          and mb = 5281114606310458 and kb = 35])
      (simp_all add: rounds_to_def)
  also have "\<dots> = ?E 221 (5260648946089561 / 2 ^ 35)"
    by (rule period_step [where mi = 7886464478756951 and ki = 44 and mq = 5239209016549716 and kq = 43
          and mb = 5260648946089561 and kb = 35])
      (simp_all add: rounds_to_def)
  also have "\<dots> = ?E 222 (5240123594359686 / 2 ^ 35)"
    by (rule period_step [where mi = 7855902426160411 and ki = 44 and mq = 5254490042847986 and kq = 43
          and mb = 5240123594359686 and kb = 35])
      (simp_all add: rounds_to_def)
  also have "\<dots> = ?E 223 (5219538377020599 / 2 ^ 35)"
    by (rule period_step [where mi = 7825251234243798 and ki = 44 and mq = 5269815638806293 and kq = 43
          and mb = 5219538377020599 and kb = 35])
      (simp_all add: rounds_to_def)
  also have "\<dots> = ?E 224 (5198893119464273 / 2 ^ 35)"
    by (rule period_step [where mi = 7794510643017428 and ki = 44 and mq = 5285185934419478 and kq = 43
          and mb = 5198893119464273 and kb = 35])
      (simp_all add: rounds_to_def)
  also have "\<dots> = ?E 225 (5178187646573408 / 2 ^ 35)"
    by (rule period_step [where mi = 7763680391733315 and ki = 44 and mq = 5300601060061534 and kq = 43
          and mb = 5178187646573408 and kb = 35])
      (simp_all add: rounds_to_def)
  also have "\<dots> = ?E 226 (5157421782719944 / 2 ^ 35)"
    by (rule period_step [where mi = 7732760218882956 and ki = 44 and mq = 5316061146486714 and kq = 43
          and mb = 5157421782719944 and kb = 35])
      (simp_all add: rounds_to_def)
  also have "\<dots> = ?E 227 (5136595351763574 / 2 ^ 35)"
    by (rule period_step [where mi = 7701749862195117 and ki = 44 and mq = 5331566324830634 and kq = 43
          and mb = 5136595351763574 and kb = 35])
      (simp_all add: rounds_to_def)
  also have "\<dots> = ?E 228 (5115708177050248 / 2 ^ 35)"
    by (rule period_step [where mi = 7670649058633604 and ki = 44 and mq = 5347116726611390 and kq = 43
          and mb = 5115708177050248 and kb = 35])
      (simp_all add: rounds_to_def)
  also have "\<dots> = ?E 229 (5094760081410675 / 2 ^ 35)"
    by (rule period_step [where mi = 7639457544395037 and ki = 44 and mq = 5362712483730674 and kq = 43
          and mb = 5094760081410675 and kb = 35])
      (simp_all add: rounds_to_def)
  finally show ?thesis .
qed

lemma scenario_B_year_20:
  "last (entriesFromR rnd (6725375443539941 / 2 ^ 61) 360 (Num 50000)
           (4591220627964096 / 2 ^ 42) 229
           (5094760081410675 / 2 ^ 35)) =
   last (entriesFromR rnd (6725375443539941 / 2 ^ 61) 360 (Num 50000)
           (4591220627964096 / 2 ^ 42) 241
           (4838565901963197 / 2 ^ 35))"
proof -
  let ?E = "\<lambda>i b. last (entriesFromR rnd (6725375443539941 / 2 ^ 61) 360 (Num 50000)
                        (4591220627964096 / 2 ^ 42) i b)"
  have "?E 229 (5094760081410675 / 2 ^ 35) = ?E 230 (5073750887158820 / 2 ^ 35)"
    by (rule period_step [where mi = 7608175054906608 and ki = 44 and mq = 5378353728474888 and kq = 43
          and mb = 5073750887158820 and kb = 35])
      (simp_all add: rounds_to_def)
  also have "\<dots> = ?E 231 (5052680416090397 / 2 ^ 35)"
    by (rule period_step [where mi = 7576801324823838 and ki = 44 and mq = 5394040593516273 and kq = 43
          and mb = 5052680416090397 and kb = 35])
      (simp_all add: rounds_to_def)
  also have "\<dots> = ?E 232 (5031548489481358 / 2 ^ 35)"
    by (rule period_step [where mi = 7545336088028327 and ki = 44 and mq = 5409773211914028 and kq = 43
          and mb = 5031548489481358 and kb = 35])
      (simp_all add: rounds_to_def)
  also have "\<dots> = ?E 233 (5010354928086376 / 2 ^ 35)"
    by (rule period_step [where mi = 7513779077625495 and ki = 44 and mq = 5425551717115444 and kq = 43
          and mb = 5010354928086376 and kb = 35])
      (simp_all add: rounds_to_def)
  also have "\<dots> = ?E 234 (4989099552137325 / 2 ^ 35)"
    by (rule period_step [where mi = 7482130025942322 and ki = 44 and mq = 5441376242957031 and kq = 43
          and mb = 4989099552137325 and kb = 35])
      (simp_all add: rounds_to_def)
  also have "\<dots> = ?E 235 (4967782181341756 / 2 ^ 35)"
    by (rule period_step [where mi = 7450388664525072 and ki = 44 and mq = 5457246923665656 and kq = 43
          and mb = 4967782181341756 and kb = 35])
      (simp_all add: rounds_to_def)
  also have "\<dots> = ?E 236 (4946402634881367 / 2 ^ 35)"
    by (rule period_step [where mi = 7418554724137023 and ki = 44 and mq = 5473163893859680 and kq = 43
          and mb = 4946402634881367 and kb = 35])
      (simp_all add: rounds_to_def)
  also have "\<dots> = ?E 237 (4924960731410468 / 2 ^ 35)"
    by (rule period_step [where mi = 7386627934756175 and ki = 44 and mq = 5489127288550104 and kq = 43
          and mb = 4924960731410468 and kb = 35])
      (simp_all add: rounds_to_def)
  also have "\<dots> = ?E 238 (4903456289054446 / 2 ^ 35)"
    by (rule period_step [where mi = 7354608025572966 and ki = 44 and mq = 5505137243141709 and kq = 43
          and mb = 4903456289054446 and kb = 35])
      (simp_all add: rounds_to_def)
  also have "\<dots> = ?E 239 (4881889125408219 / 2 ^ 35)"
    by (rule period_step [where mi = 7322494724987973 and ki = 44 and mq = 5521193893434206 and kq = 43
          and mb = 4881889125408219 and kb = 35])
      (simp_all add: rounds_to_def)
  also have "\<dots> = ?E 240 (4860259057534690 / 2 ^ 35)"
    by (rule period_step [where mi = 7290287760609607 and ki = 44 and mq = 5537297375623388 and kq = 43
          and mb = 4860259057534690 and kb = 35])
      (simp_all add: rounds_to_def)
  also have "\<dots> = ?E 241 (4838565901963197 / 2 ^ 35)"
    by (rule period_step [where mi = 7257986859251804 and ki = 44 and mq = 5553447826302290 and kq = 43
          and mb = 4838565901963197 and kb = 35])
      (simp_all add: rounds_to_def)
  finally show ?thesis .
qed

lemma scenario_B_year_21:
  "last (entriesFromR rnd (6725375443539941 / 2 ^ 61) 360 (Num 50000)
           (4591220627964096 / 2 ^ 42) 241
           (4838565901963197 / 2 ^ 35)) =
   last (entriesFromR rnd (6725375443539941 / 2 ^ 61) 360 (Num 50000)
           (4591220627964096 / 2 ^ 42) 253
           (4573259676190277 / 2 ^ 35))"
proof -
  let ?E = "\<lambda>i b. last (entriesFromR rnd (6725375443539941 / 2 ^ 61) 360 (Num 50000)
                        (4591220627964096 / 2 ^ 42) i b)"
  have "?E 241 (4838565901963197 / 2 ^ 35) = ?E 242 (4816809474687953 / 2 ^ 35)"
    by (rule period_step [where mi = 7225591746931708 and ki = 44 and mq = 5569645382462338 and kq = 43
          and mb = 4816809474687953 and kb = 35])
      (simp_all add: rounds_to_def)
  also have "\<dots> = ?E 243 (4794989591166490 / 2 ^ 35)"
    by (rule period_step [where mi = 7193102148867343 and ki = 44 and mq = 5585890181494520 and kq = 43
          and mb = 4794989591166490 and kb = 35])
      (simp_all add: rounds_to_def)
  also have "\<dots> = ?E 244 (4773106066318089 / 2 ^ 35)"
    by (rule period_step [where mi = 7160517789475292 and ki = 44 and mq = 5602182361190546 and kq = 43
          and mb = 4773106066318089 and kb = 35])
      (simp_all add: rounds_to_def)
  also have "\<dots> = ?E 245 (4751158714522214 / 2 ^ 35)"
    by (rule period_step [where mi = 7127838392368347 and ki = 44 and mq = 5618522059744018 and kq = 43
          and mb = 4751158714522214 and kb = 35])
      (simp_all add: rounds_to_def)
  also have "\<dots> = ?E 246 (4729147349616934 / 2 ^ 35)"
    by (rule period_step [where mi = 7095063680353173 and ki = 44 and mq = 5634909415751606 and kq = 43
          and mb = 4729147349616934 and kb = 35])
      (simp_all add: rounds_to_def)
  also have "\<dots> = ?E 247 (4707071784897347 / 2 ^ 35)"
    by (rule period_step [where mi = 7062193375427955 and ki = 44 and mq = 5651344568214214 and kq = 43
          and mb = 4707071784897347 and kb = 35])
      (simp_all add: rounds_to_def)
  also have "\<dots> = ?E 248 (4684931833113995 / 2 ^ 35)"
    by (rule period_step [where mi = 7029227198780039 and ki = 44 and mq = 5667827656538172 and kq = 43
          and mb = 4684931833113995 and kb = 35])
      (simp_all add: rounds_to_def)
  also have "\<dots> = ?E 249 (4662727306471275 / 2 ^ 35)"
    by (rule period_step [where mi = 6996164870783566 and ki = 44 and mq = 5684358820536409 and kq = 43
          and mb = 4662727306471275 and kb = 35])
      (simp_all add: rounds_to_def)
  also have "\<dots> = ?E 250 (4640458016625847 / 2 ^ 35)"
    by (rule period_step [where mi = 6963006110997104 and ki = 44 and mq = 5700938200429640 and kq = 43
          and mb = 4640458016625847 and kb = 35])
      (simp_all add: rounds_to_def)
  also have "\<dots> = ?E 251 (4618123774685036 / 2 ^ 35)"
    by (rule period_step [where mi = 6929750638161265 and ki = 44 and mq = 5717565936847560 and kq = 43
          and mb = 4618123774685036 and kb = 35])
      (simp_all add: rounds_to_def)
  also have "\<dots> = ?E 252 (4595724391205231 / 2 ^ 35)"
    by (rule period_step [where mi = 6896398170196321 and ki = 44 and mq = 5734242170830032 and kq = 43
          and mb = 4595724391205231 and kb = 35])
      (simp_all add: rounds_to_def)
  also have "\<dots> = ?E 253 (4573259676190277 / 2 ^ 35)"
    by (rule period_step [where mi = 6862948424199812 and ki = 44 and mq = 5750967043828286 and kq = 43
          and mb = 4573259676190277 and kb = 35])
      (simp_all add: rounds_to_def)
  finally show ?thesis .
qed

lemma scenario_B_year_22:
  "last (entriesFromR rnd (6725375443539941 / 2 ^ 61) 360 (Num 50000)
           (4591220627964096 / 2 ^ 42) 253
           (4573259676190277 / 2 ^ 35)) =
   last (entriesFromR rnd (6725375443539941 / 2 ^ 61) 360 (Num 50000)
           (4591220627964096 / 2 ^ 42) 265
           (8597034632738036 / 2 ^ 36))"
proof -
  let ?E = "\<lambda>i b. last (entriesFromR rnd (6725375443539941 / 2 ^ 61) 360 (Num 50000)
                        (4591220627964096 / 2 ^ 42) i b)"
  have "?E 253 (4573259676190277 / 2 ^ 35) = ?E 254 (4550729439089862 / 2 ^ 35)"
    by (rule period_step [where mi = 6829401116444147 and ki = 44 and mq = 5767740697706118 and kq = 43
          and mb = 4550729439089862 and kb = 35])
      (simp_all add: rounds_to_def)
  also have "\<dots> = ?E 255 (4528133488797905 / 2 ^ 35)"
    by (rule period_step [where mi = 6795755962374194 and ki = 44 and mq = 5784563274741095 and kq = 43
          and mb = 4528133488797905 and kb = 35])
      (simp_all add: rounds_to_def)
  also have "\<dots> = ?E 256 (4505471633650929 / 2 ^ 35)"
    by (rule period_step [where mi = 6762012676604872 and ki = 44 and mq = 5801434917625756 and kq = 43
          and mb = 4505471633650929 and kb = 35])
      (simp_all add: rounds_to_def)
  also have "\<dots> = ?E 257 (8965487362852883 / 2 ^ 36)"
    by (rule period_step [where mi = 6728170972918721 and ki = 44 and mq = 5818355769468832 and kq = 43
          and mb = 8965487362852883 and kb = 36])
      (simp_all add: rounds_to_def)
  also have "\<dots> = ?E 258 (8919898878682598 / 2 ^ 36)"
    by (rule period_step [where mi = 6694230564263486 and ki = 44 and mq = 5835325973796449 and kq = 43
          and mb = 8919898878682598 and kb = 36])
      (simp_all add: rounds_to_def)
  also have "\<dots> = ?E 259 (8874177428100150 / 2 ^ 36)"
    by (rule period_step [where mi = 6660191162749673 and ki = 44 and mq = 5852345674553356 and kq = 43
          and mb = 8874177428100150 and kb = 36])
      (simp_all add: rounds_to_def)
  also have "\<dots> = ?E 260 (8828322623286836 / 2 ^ 36)"
    by (rule period_step [where mi = 6626052479648112 and ki = 44 and mq = 5869415016104136 and kq = 43
          and mb = 8828322623286836 and kb = 36])
      (simp_all add: rounds_to_def)
  also have "\<dots> = ?E 261 (8782334075292817 / 2 ^ 36)"
    by (rule period_step [where mi = 6591814225387505 and ki = 44 and mq = 5886534143234440 and kq = 43
          and mb = 8782334075292817 and kb = 36])
      (simp_all add: rounds_to_def)
  also have "\<dots> = ?E 262 (8736211394033815 / 2 ^ 36)"
    by (rule period_step [where mi = 6557476109551970 and ki = 44 and mq = 5903703201152207 and kq = 43
          and mb = 8736211394033815 and kb = 36])
      (simp_all add: rounds_to_def)
  also have "\<dots> = ?E 263 (8689954188287808 / 2 ^ 36)"
    by (rule period_step [where mi = 6523037840878582 and ki = 44 and mq = 5920922335488901 and kq = 43
          and mb = 8689954188287808 and kb = 36])
      (simp_all add: rounds_to_def)
  also have "\<dots> = ?E 264 (8643562065691708 / 2 ^ 36)"
    by (rule period_step [where mi = 6488499127254897 and ki = 44 and mq = 5938191692300744 and kq = 43
          and mb = 8643562065691708 and kb = 36])
      (simp_all add: rounds_to_def)
  also have "\<dots> = ?E 265 (8597034632738036 / 2 ^ 36)"
    by (rule period_step [where mi = 6453859675716476 and ki = 44 and mq = 5955511418069954 and kq = 43
          and mb = 8597034632738036 and kb = 36])
      (simp_all add: rounds_to_def)
  finally show ?thesis .
qed

lemma scenario_B_year_23:
  "last (entriesFromR rnd (6725375443539941 / 2 ^ 61) 360 (Num 50000)
           (4591220627964096 / 2 ^ 42) 265
           (8597034632738036 / 2 ^ 36)) =
   last (entriesFromR rnd (6725375443539941 / 2 ^ 61) 360 (Num 50000)
           (4591220627964096 / 2 ^ 42) 277
           (8028006415927465 / 2 ^ 36))"
proof -
  let ?E = "\<lambda>i b. last (entriesFromR rnd (6725375443539941 / 2 ^ 61) 360 (Num 50000)
                        (4591220627964096 / 2 ^ 42) i b)"
  have "?E 265 (8597034632738036 / 2 ^ 36) = ?E 266 (8550371494771583 / 2 ^ 36)"
    by (rule period_step [where mi = 6419119192444401 and ki = 44 and mq = 5972881659705992 and kq = 43
          and mb = 8550371494771583 and kb = 36])
      (simp_all add: rounds_to_def)
  also have "\<dots> = ?E 267 (8503572255986061 / 2 ^ 36)"
    by (rule period_step [where mi = 6384277382762782 and ki = 44 and mq = 5990302564546801 and kq = 43
          and mb = 8503572255986061 and kb = 36])
      (simp_all add: rounds_to_def)
  also have "\<dots> = ?E 268 (8456636519420748 / 2 ^ 36)"
    by (rule period_step [where mi = 6349333951136259 and ki = 44 and mq = 6007774280360062 and kq = 43
          and mb = 8456636519420748 and kb = 36])
      (simp_all add: rounds_to_def)
  also have "\<dots> = ?E 269 (8409563886957120 / 2 ^ 36)"
    by (rule period_step [where mi = 6314288601167492 and ki = 44 and mq = 6025296955344446 and kq = 43
          and mb = 8409563886957120 and kb = 36])
      (simp_all add: rounds_to_def)
  also have "\<dots> = ?E 270 (8362353959315473 / 2 ^ 36)"
    by (rule period_step [where mi = 6279141035594650 and ki = 44 and mq = 6042870738130867 and kq = 43
          and mb = 8362353959315473 and kb = 36])
      (simp_all add: rounds_to_def)
  also have "\<dots> = ?E 271 (8315006336051537 / 2 ^ 36)"
    by (rule period_step [where mi = 6243890956288887 and ki = 44 and mq = 6060495777783748 and kq = 43
          and mb = 8315006336051537 and kb = 36])
      (simp_all add: rounds_to_def)
  also have "\<dots> = ?E 272 (8267520615553082 / 2 ^ 36)"
    by (rule period_step [where mi = 6208538064251815 and ki = 44 and mq = 6078172223802284 and kq = 43
          and mb = 8267520615553082 and kb = 36])
      (simp_all add: rounds_to_def)
  also have "\<dots> = ?E 273 (8219896395036506 / 2 ^ 36)"
    by (rule period_step [where mi = 6173082059612968 and ki = 44 and mq = 6095900226121708 and kq = 43
          and mb = 8219896395036506 and kb = 36])
      (simp_all add: rounds_to_def)
  also have "\<dots> = ?E 274 (8172133270543423 / 2 ^ 36)"
    by (rule period_step [where mi = 6137522641627258 and ki = 44 and mq = 6113679935114563 and kq = 43
          and mb = 8172133270543423 and kb = 36])
      (simp_all add: rounds_to_def)
  also have "\<dots> = ?E 275 (8124230836937236 / 2 ^ 36)"
    by (rule period_step [where mi = 6101859508672423 and ki = 44 and mq = 6131511501591980 and kq = 43
          and mb = 8124230836937236 and kb = 36])
      (simp_all add: rounds_to_def)
  also have "\<dots> = ?E 276 (8076188687899697 / 2 ^ 36)"
    by (rule period_step [where mi = 6066092358246470 and ki = 44 and mq = 6149395076804957 and kq = 43
          and mb = 8076188687899697 and kb = 36])
      (simp_all add: rounds_to_def)
  also have "\<dots> = ?E 277 (8028006415927465 / 2 ^ 36)"
    by (rule period_step [where mi = 6030220886965107 and ki = 44 and mq = 6167330812445638 and kq = 43
          and mb = 8028006415927465 and kb = 36])
      (simp_all add: rounds_to_def)
  finally show ?thesis .
qed

lemma scenario_B_year_24:
  "last (entriesFromR rnd (6725375443539941 / 2 ^ 61) 360 (Num 50000)
           (4591220627964096 / 2 ^ 42) 277
           (8028006415927465 / 2 ^ 36)) =
   last (entriesFromR rnd (6725375443539941 / 2 ^ 61) 360 (Num 50000)
           (4591220627964096 / 2 ^ 42) 289
           (7438739599304664 / 2 ^ 36))"
proof -
  let ?E = "\<lambda>i b. last (entriesFromR rnd (6725375443539941 / 2 ^ 61) 360 (Num 50000)
                        (4591220627964096 / 2 ^ 42) i b)"
  have "?E 277 (8028006415927465 / 2 ^ 36) = ?E 278 (7979683612328648 / 2 ^ 36)"
    by (rule period_step [where mi = 5994244790559174 and ki = 44 and mq = 6185318860648605 and kq = 43
          and mb = 7979683612328648 and kb = 36])
      (simp_all add: rounds_to_def)
  also have "\<dots> = ?E 279 (7931219867219334 / 2 ^ 36)"
    by (rule period_step [where mi = 5958163763872057 and ki = 44 and mq = 6203359373992164 and kq = 43
          and mb = 7931219867219334 and kb = 36])
      (simp_all add: rounds_to_def)
  also have "\<dots> = ?E 280 (7882614769520118 / 2 ^ 36)"
    by (rule period_step [where mi = 5921977500857103 and ki = 44 and mq = 6221452505499640 and kq = 43
          and mb = 7882614769520118 and kb = 36])
      (simp_all add: rounds_to_def)
  also have "\<dots> = ?E 281 (7833867906952613 / 2 ^ 36)"
    by (rule period_step [where mi = 5885685694575022 and ki = 44 and mq = 6239598408640681 and kq = 43
          and mb = 7833867906952613 and kb = 36])
      (simp_all add: rounds_to_def)
  also have "\<dots> = ?E 282 (7784978866035952 / 2 ^ 36)"
    by (rule period_step [where mi = 5849288037191285 and ki = 44 and mq = 6257797237332550 and kq = 43
          and mb = 7784978866035952 and kb = 36])
      (simp_all add: rounds_to_def)
  also have "\<dots> = ?E 283 (7735947232083285 / 2 ^ 36)"
    by (rule period_step [where mi = 5812784219973511 and ki = 44 and mq = 6276049145941436 and kq = 43
          and mb = 7735947232083285 and kb = 36])
      (simp_all add: rounds_to_def)
  also have "\<dots> = ?E 284 (7686772589198256 / 2 ^ 36)"
    by (rule period_step [where mi = 5776173933288853 and ki = 44 and mq = 6294354289283766 and kq = 43
          and mb = 7686772589198256 and kb = 36])
      (simp_all add: rounds_to_def)
  also have "\<dots> = ?E 285 (7637454520271479 / 2 ^ 36)"
    by (rule period_step [where mi = 5739456866601365 and ki = 44 and mq = 6312712822627510 and kq = 43
          and mb = 7637454520271479 and kb = 36])
      (simp_all add: rounds_to_def)
  also have "\<dots> = ?E 286 (7587992606976998 / 2 ^ 36)"
    by (rule period_step [where mi = 5702632708469371 and ki = 44 and mq = 6331124901693506 and kq = 43
          and mb = 7587992606976998 and kb = 36])
      (simp_all add: rounds_to_def)
  also have "\<dots> = ?E 287 (7538386429768742 / 2 ^ 36)"
    by (rule period_step [where mi = 5665701146542825 and ki = 44 and mq = 6349590682656780 and kq = 43
          and mb = 7538386429768742 and kb = 36])
      (simp_all add: rounds_to_def)
  also have "\<dots> = ?E 288 (7488635567876962 / 2 ^ 36)"
    by (rule period_step [where mi = 5628661867560661 and ki = 44 and mq = 6368110322147862 and kq = 43
          and mb = 7488635567876962 and kb = 36])
      (simp_all add: rounds_to_def)
  also have "\<dots> = ?E 289 (7438739599304664 / 2 ^ 36)"
    by (rule period_step [where mi = 5591514557348132 and ki = 44 and mq = 6386683977254126 and kq = 43
          and mb = 7438739599304664 and kb = 36])
      (simp_all add: rounds_to_def)
  finally show ?thesis .
qed

lemma scenario_B_year_25:
  "last (entriesFromR rnd (6725375443539941 / 2 ^ 61) 360 (Num 50000)
           (4591220627964096 / 2 ^ 42) 289
           (7438739599304664 / 2 ^ 36)) =
   last (entriesFromR rnd (6725375443539941 / 2 ^ 61) 360 (Num 50000)
           (4591220627964096 / 2 ^ 42) 301
           (6828514357542418 / 2 ^ 36))"
proof -
  let ?E = "\<lambda>i b. last (entriesFromR rnd (6725375443539941 / 2 ^ 61) 360 (Num 50000)
                        (4591220627964096 / 2 ^ 42) i b)"
  have "?E 289 (7438739599304664 / 2 ^ 36) = ?E 290 (7388698100824030 / 2 ^ 36)"
    by (rule period_step [where mi = 5554258900814149 and ki = 44 and mq = 6405311805521118 and kq = 43
          and mb = 7388698100824030 and kb = 36])
      (simp_all add: rounds_to_def)
  also have "\<dots> = ?E 291 (7338510647972828 / 2 ^ 36)"
    by (rule period_step [where mi = 5516894581948609 and ki = 44 and mq = 6423993964953888 and kq = 43
          and mb = 7338510647972828 and kb = 36])
      (simp_all add: rounds_to_def)
  also have "\<dots> = ?E 292 (7288176815050810 / 2 ^ 36)"
    by (rule period_step [where mi = 5479421283819712 and ki = 44 and mq = 6442730614018336 and kq = 43
          and mb = 7288176815050810 and kb = 36])
      (simp_all add: rounds_to_def)
  also have "\<dots> = ?E 293 (7237696175116103 / 2 ^ 36)"
    by (rule period_step [where mi = 5441838688571272 and ki = 44 and mq = 6461521911642556 and kq = 43
          and mb = 7237696175116103 and kb = 36])
      (simp_all add: rounds_to_def)
  also have "\<dots> = ?E 294 (7187068299981586 / 2 ^ 36)"
    by (rule period_step [where mi = 5404146477420024 and ki = 44 and mq = 6480368017218180 and kq = 43
          and mb = 7187068299981586 and kb = 36])
      (simp_all add: rounds_to_def)
  also have "\<dots> = ?E 295 (7136292760211260 / 2 ^ 36)"
    by (rule period_step [where mi = 5366344330652918 and ki = 44 and mq = 6499269090601733 and kq = 43
          and mb = 7136292760211260 and kb = 36])
      (simp_all add: rounds_to_def)
  also have "\<dots> = ?E 296 (7085369125116604 / 2 ^ 36)"
    by (rule period_step [where mi = 5328431927624408 and ki = 44 and mq = 6518225292115988 and kq = 43
          and mb = 7085369125116604 and kb = 36])
      (simp_all add: rounds_to_def)
  also have "\<dots> = ?E 297 (7034296962752922 / 2 ^ 36)"
    by (rule period_step [where mi = 5290408946753731 and ki = 44 and mq = 6537236782551326 and kq = 43
          and mb = 7034296962752922 and kb = 36])
      (simp_all add: rounds_to_def)
  also have "\<dots> = ?E 298 (6983075839915679 / 2 ^ 36)"
    by (rule period_step [where mi = 5252275065522182 and ki = 44 and mq = 6556303723167101 and kq = 43
          and mb = 6983075839915679 and kb = 36])
      (simp_all add: rounds_to_def)
  also have "\<dots> = ?E 299 (6931705322136827 / 2 ^ 36)"
    by (rule period_step [where mi = 5214029960470374 and ki = 44 and mq = 6575426275693005 and kq = 43
          and mb = 6931705322136827 and kb = 36])
      (simp_all add: rounds_to_def)
  also have "\<dots> = ?E 300 (6880184973681120 / 2 ^ 36)"
    by (rule period_step [where mi = 5175673307195498 and ki = 44 and mq = 6594604602330443 and kq = 43
          and mb = 6880184973681120 and kb = 36])
      (simp_all add: rounds_to_def)
  also have "\<dots> = ?E 301 (6828514357542418 / 2 ^ 36)"
    by (rule period_step [where mi = 5137204780348570 and ki = 44 and mq = 6613838865753907 and kq = 43
          and mb = 6828514357542418 and kb = 36])
      (simp_all add: rounds_to_def)
  finally show ?thesis .
qed

lemma scenario_B_year_26:
  "last (entriesFromR rnd (6725375443539941 / 2 ^ 61) 360 (Num 50000)
           (4591220627964096 / 2 ^ 42) 301
           (6828514357542418 / 2 ^ 36)) =
   last (entriesFromR rnd (6725375443539941 / 2 ^ 61) 360 (Num 50000)
           (4591220627964096 / 2 ^ 42) 313
           (6196585263319970 / 2 ^ 36))"
proof -
  let ?E = "\<lambda>i b. last (entriesFromR rnd (6725375443539941 / 2 ^ 61) 360 (Num 50000)
                        (4591220627964096 / 2 ^ 42) i b)"
  have "?E 301 (6828514357542418 / 2 ^ 36) = ?E 302 (6776693035439978 / 2 ^ 36)"
    by (rule period_step [where mi = 5098624053631672 and ki = 44 and mq = 6633129229112356 and kq = 43
          and mb = 6776693035439978 and kb = 36])
      (simp_all add: rounds_to_def)
  also have "\<dots> = ?E 303 (6724720567814739 / 2 ^ 36)"
    by (rule period_step [where mi = 5059930799795184 and ki = 44 and mq = 6652475856030600 and kq = 43
          and mb = 6724720567814739 and kb = 36])
      (simp_all add: rounds_to_def)
  also have "\<dots> = ?E 304 (6672596513825593 / 2 ^ 36)"
    by (rule period_step [where mi = 5021124690635005 and ki = 44 and mq = 6671878910610690 and kq = 43
          and mb = 6672596513825593 and kb = 36])
      (simp_all add: rounds_to_def)
  also have "\<dots> = ?E 305 (6620320431345645 / 2 ^ 36)"
    by (rule period_step [where mi = 4982205396989776 and ki = 44 and mq = 6691338557433304 and kq = 43
          and mb = 6620320431345645 and kb = 36])
      (simp_all add: rounds_to_def)
  also have "\<dots> = ?E 306 (6567891876958464 / 2 ^ 36)"
    by (rule period_step [where mi = 4943172588738082 and ki = 44 and mq = 6710854961559151 and kq = 43
          and mb = 6567891876958464 and kb = 36])
      (simp_all add: rounds_to_def)
  also have "\<dots> = ?E 307 (6515310405954321 / 2 ^ 36)"
    by (rule period_step [where mi = 4904025934795653 and ki = 44 and mq = 6730428288530366 and kq = 43
          and mb = 6515310405954321 and kb = 36])
      (simp_all add: rounds_to_def)
  also have "\<dots> = ?E 308 (6462575572326415 / 2 ^ 36)"
    by (rule period_step [where mi = 4864765103112560 and ki = 44 and mq = 6750058704371912 and kq = 43
          and mb = 6462575572326415 and kb = 36])
      (simp_all add: rounds_to_def)
  also have "\<dots> = ?E 309 (6409686928767095 / 2 ^ 36)"
    by (rule period_step [where mi = 4825389760670390 and ki = 44 and mq = 6769746375592997 and kq = 43
          and mb = 6409686928767095 and kb = 36])
      (simp_all add: rounds_to_def)
  also have "\<dots> = ?E 310 (6356644026664060 / 2 ^ 36)"
    by (rule period_step [where mi = 4785899573479431 and ki = 44 and mq = 6789491469188476 and kq = 43
          and mb = 6356644026664060 and kb = 36])
      (simp_all add: rounds_to_def)
  also have "\<dots> = ?E 311 (6303446416096558 / 2 ^ 36)"
    by (rule period_step [where mi = 4746294206575832 and ki = 44 and mq = 6809294152640276 and kq = 43
          and mb = 6303446416096558 and kb = 36])
      (simp_all add: rounds_to_def)
  also have "\<dots> = ?E 312 (6250093645831567 / 2 ^ 36)"
    by (rule period_step [where mi = 4706573324018764 and ki = 44 and mq = 6829154593918810 and kq = 43
          and mb = 6250093645831567 and kb = 36])
      (simp_all add: rounds_to_def)
  also have "\<dots> = ?E 313 (6196585263319970 / 2 ^ 36)"
    by (rule period_step [where mi = 4666736588887570 and ki = 44 and mq = 6849072961484407 and kq = 43
          and mb = 6196585263319970 and kb = 36])
      (simp_all add: rounds_to_def)
  finally show ?thesis .
qed

lemma scenario_B_year_27:
  "last (entriesFromR rnd (6725375443539941 / 2 ^ 61) 360 (Num 50000)
           (4591220627964096 / 2 ^ 42) 313
           (6196585263319970 / 2 ^ 36)) =
   last (entriesFromR rnd (6725375443539941 / 2 ^ 61) 360 (Num 50000)
           (4591220627964096 / 2 ^ 42) 325
           (5542180376738121 / 2 ^ 36))"
proof -
  let ?E = "\<lambda>i b. last (entriesFromR rnd (6725375443539941 / 2 ^ 61) 360 (Num 50000)
                        (4591220627964096 / 2 ^ 42) i b)"
  have "?E 313 (6196585263319970 / 2 ^ 36) = ?E 314 (6142920814692714 / 2 ^ 36)"
    by (rule period_step [where mi = 4626783663278911 and ki = 44 and mq = 6869049424288736 and kq = 43
          and mb = 6142920814692714 and kb = 36])
      (simp_all add: rounds_to_def)
  also have "\<dots> = ?E 315 (6089099844756962 / 2 ^ 36)"
    by (rule period_step [where mi = 4586714208303893 and ki = 44 and mq = 6889084151776246 and kq = 43
          and mb = 6089099844756962 and kb = 36])
      (simp_all add: rounds_to_def)
  also have "\<dots> = ?E 316 (6035121896992231 / 2 ^ 36)"
    by (rule period_step [where mi = 4546527884085199 and ki = 44 and mq = 6909177313885592 and kq = 43
          and mb = 6035121896992231 and kb = 36])
      (simp_all add: rounds_to_def)
  also have "\<dots> = ?E 317 (5980986513546519 / 2 ^ 36)"
    by (rule period_step [where mi = 4506224349754199 and ki = 44 and mq = 6929329081051092 and kq = 43
          and mb = 5980986513546519 and kb = 36])
      (simp_all add: rounds_to_def)
  also have "\<dots> = ?E 318 (5926693235232424 / 2 ^ 36)"
    by (rule period_step [where mi = 8931606526896135 and ki = 45 and mq = 6949539624204158 and kq = 43
          and mb = 5926693235232424 and kb = 36])
      (simp_all add: rounds_to_def)
  also have "\<dots> = ?E 319 (5872241601523246 / 2 ^ 36)"
    by (rule period_step [where mi = 8850528564613754 and ki = 45 and mq = 6969809114774754 and kq = 43
          and mb = 5872241601523246 and kb = 36])
      (simp_all add: rounds_to_def)
  also have "\<dots> = ?E 320 (5817631150549083 / 2 ^ 36)"
    by (rule period_step [where mi = 8769214124941381 and ki = 45 and mq = 6990137724692847 and kq = 43
          and mb = 5817631150549083 and kb = 36])
      (simp_all add: rounds_to_def)
  also have "\<dots> = ?E 321 (5762861419092912 / 2 ^ 36)"
    by (rule period_step [where mi = 8687662518153298 and ki = 45 and mq = 7010525626389868 and kq = 43
          and mb = 5762861419092912 and kb = 36])
      (simp_all add: rounds_to_def)
  also have "\<dots> = ?E 322 (5707931942586661 / 2 ^ 36)"
    by (rule period_step [where mi = 8605873052512082 and ki = 45 and mq = 7030972992800172 and kq = 43
          and mb = 5707931942586661 and kb = 36])
      (simp_all add: rounds_to_def)
  also have "\<dots> = ?E 323 (5652842255107266 / 2 ^ 36)"
    by (rule period_step [where mi = 8523845034262747 and ki = 45 and mq = 7051479997362505 and kq = 43
          and mb = 5652842255107266 and kb = 36])
      (simp_all add: rounds_to_def)
  also have "\<dots> = ?E 324 (5597591889372723 / 2 ^ 36)"
    by (rule period_step [where mi = 8441577767626851 and ki = 45 and mq = 7072046814021479 and kq = 43
          and mb = 5597591889372723 and kb = 36])
      (simp_all add: rounds_to_def)
  also have "\<dots> = ?E 325 (5542180376738121 / 2 ^ 36)"
    by (rule period_step [where mi = 8359070554796600 and ki = 45 and mq = 7092673617229042 and kq = 43
          and mb = 5542180376738121 and kb = 36])
      (simp_all add: rounds_to_def)
  finally show ?thesis .
qed

lemma scenario_B_year_28:
  "last (entriesFromR rnd (6725375443539941 / 2 ^ 61) 360 (Num 50000)
           (4591220627964096 / 2 ^ 42) 325
           (5542180376738121 / 2 ^ 36)) =
   last (entriesFromR rnd (6725375443539941 / 2 ^ 61) 360 (Num 50000)
           (4591220627964096 / 2 ^ 42) 337
           (4864500302347605 / 2 ^ 36))"
proof -
  let ?E = "\<lambda>i b. last (entriesFromR rnd (6725375443539941 / 2 ^ 61) 360 (Num 50000)
                        (4591220627964096 / 2 ^ 42) i b)"
  have "?E 325 (5542180376738121 / 2 ^ 36) = ?E 326 (5486607247191668 / 2 ^ 36)"
    by (rule period_step [where mi = 8276322695928928 and ki = 45 and mq = 7113360581945960 and kq = 43
          and mb = 5486607247191668 and kb = 36])
      (simp_all add: rounds_to_def)
  also have "\<dots> = ?E 327 (5430872029350705 / 2 ^ 36)"
    by (rule period_step [where mi = 8193333489139558 and ki = 45 and mq = 7134107883643302 and kq = 43
          and mb = 5430872029350705 and kb = 36])
      (simp_all add: rounds_to_def)
  also have "\<dots> = ?E 328 (5374974250457706 / 2 ^ 36)"
    by (rule period_step [where mi = 8110102230497053 and ki = 45 and mq = 7154915698303929 and kq = 43
          and mb = 5374974250457706 and kb = 36])
      (simp_all add: rounds_to_def)
  also have "\<dots> = ?E 329 (5318913436376269 / 2 ^ 36)"
    by (rule period_step [where mi = 8026628214016841 and ki = 45 and mq = 7175784202423982 and kq = 43
          and mb = 5318913436376269 and kb = 36])
      (simp_all add: rounds_to_def)
  also have "\<dots> = ?E 330 (5262689111587094 / 2 ^ 36)"
    by (rule period_step [where mi = 7942910731655229 and ki = 45 and mq = 7196713573014385 and kq = 43
          and mb = 5262689111587094 and kb = 36])
      (simp_all add: rounds_to_def)
  also have "\<dots> = ?E 331 (5206300799183951 / 2 ^ 36)"
    by (rule period_step [where mi = 7858949073303394 and ki = 45 and mq = 7217703987602344 and kq = 43
          and mb = 5206300799183951 and kb = 36])
      (simp_all add: rounds_to_def)
  also have "\<dots> = ?E 332 (5149748020869632 / 2 ^ 36)"
    by (rule period_step [where mi = 7774742526781367 and ki = 45 and mq = 7238755624232850 and kq = 43
          and mb = 5149748020869632 and kb = 36])
      (simp_all add: rounds_to_def)
  also have "\<dots> = ?E 333 (5093030296951896 / 2 ^ 36)"
    by (rule period_step [where mi = 7690290377831984 and ki = 45 and mq = 7259868661470196 and kq = 43
          and mb = 5093030296951896 and kb = 36])
      (simp_all add: rounds_to_def)
  also have "\<dots> = ?E 334 (5036147146339400 / 2 ^ 36)"
    by (rule period_step [where mi = 7605591910114832 and ki = 45 and mq = 7281043278399484 and kq = 43
          and mb = 5036147146339400 and kb = 36])
      (simp_all add: rounds_to_def)
  also have "\<dots> = ?E 335 (4979098086537618 / 2 ^ 36)"
    by (rule period_step [where mi = 7520646405200171 and ki = 45 and mq = 7302279654628149 and kq = 43
          and mb = 4979098086537618 and kb = 36])
      (simp_all add: rounds_to_def)
  also have "\<dots> = ?E 336 (4921882633644747 / 2 ^ 36)"
    by (rule period_step [where mi = 7435453142562843 and ki = 45 and mq = 7323577970287481 and kq = 43
          and mb = 4921882633644747 and kb = 36])
      (simp_all add: rounds_to_def)
  also have "\<dots> = ?E 337 (4864500302347605 / 2 ^ 36)"
    by (rule period_step [where mi = 7350011399576156 and ki = 45 and mq = 7344938406034153 and kq = 43
          and mb = 4864500302347605 and kb = 36])
      (simp_all add: rounds_to_def)
  finally show ?thesis .
qed

lemma scenario_B_year_29:
  "last (entriesFromR rnd (6725375443539941 / 2 ^ 61) 360 (Num 50000)
           (4591220627964096 / 2 ^ 42) 337
           (4864500302347605 / 2 ^ 36)) =
   last (entriesFromR rnd (6725375443539941 / 2 ^ 61) 360 (Num 50000)
           (4591220627964096 / 2 ^ 42) 349
           (8325434425277636 / 2 ^ 37))"
proof -
  let ?E = "\<lambda>i b. last (entriesFromR rnd (6725375443539941 / 2 ^ 61) 360 (Num 50000)
                        (4591220627964096 / 2 ^ 42) i b)"
  have "?E 337 (4864500302347605 / 2 ^ 36) = ?E 338 (4806950605917513 / 2 ^ 36)"
    by (rule period_step [where mi = 7264320451505757 and ki = 45 and mq = 7366361143051753 and kq = 43
          and mb = 4806950605917513 and kb = 36])
      (simp_all add: rounds_to_def)
  also have "\<dots> = ?E 339 (4749233056206167 / 2 ^ 36)"
    by (rule period_step [where mi = 7178379571503486 and ki = 45 and mq = 7387846363052320 and kq = 43
          and mb = 4749233056206167 and kb = 36])
      (simp_all add: rounds_to_def)
  also have "\<dots> = ?E 340 (4691347163641496 / 2 ^ 36)"
    by (rule period_step [where mi = 7092188030601210 and ki = 45 and mq = 7409394248277890 and kq = 43
          and mb = 4691347163641496 and kb = 36])
      (simp_all add: rounds_to_def)
  also have "\<dots> = ?E 341 (4633292437223511 / 2 ^ 36)"
    by (rule period_step [where mi = 7005745097704634 and ki = 45 and mq = 7431004981502034 and kq = 43
          and mb = 4633292437223511 and kb = 36])
      (simp_all add: rounds_to_def)
  also have "\<dots> = ?E 342 (4575068384520141 / 2 ^ 36)"
    by (rule period_step [where mi = 6919050039587110 and ki = 45 and mq = 7452678746031414 and kq = 43
          and mb = 4575068384520141 and kb = 36])
      (simp_all add: rounds_to_def)
  also have "\<dots> = ?E 343 (4516674511663052 / 2 ^ 36)"
    by (rule period_step [where mi = 6832102120883411 and ki = 45 and mq = 7474415725707339 and kq = 43
          and mb = 4516674511663052 and kb = 36])
      (simp_all add: rounds_to_def)
  also have "\<dots> = ?E 344 (8916220646686927 / 2 ^ 37)"
    by (rule period_step [where mi = 6744900604083491 and ki = 45 and mq = 7496216104907319 and kq = 43
          and mb = 8916220646686927 and kb = 37])
      (simp_all add: rounds_to_def)
  also have "\<dots> = ?E 345 (8798750645615886 / 2 ^ 37)"
    by (rule period_step [where mi = 6657444749526239 and ki = 45 and mq = 7518080068546632 and kq = 43
          and mb = 8798750645615886 and kb = 37])
      (simp_all add: rounds_to_def)
  also have "\<dots> = ?E 346 (8680938023708388 / 2 ^ 37)"
    by (rule period_step [where mi = 6569733815393195 and ki = 45 and mq = 7540007802079893 and kq = 43
          and mb = 8680938023708388 and kb = 37])
      (simp_all add: rounds_to_def)
  also have "\<dots> = ?E 347 (8562781781653659 / 2 ^ 37)"
    by (rule period_step [where mi = 6481767057702263 and ki = 45 and mq = 7561999491502626 and kq = 43
          and mb = 8562781781653659 and kb = 37])
      (simp_all add: rounds_to_def)
  also have "\<dots> = ?E 348 (8444280917226271 / 2 ^ 37)"
    by (rule period_step [where mi = 6393543730301399 and ki = 45 and mq = 7584055323352842 and kq = 43
          and mb = 8444280917226271 and kb = 37])
      (simp_all add: rounds_to_def)
  also have "\<dots> = ?E 349 (8325434425277636 / 2 ^ 37)"
    by (rule period_step [where mi = 6305063084862283 and ki = 45 and mq = 7606175484712621 and kq = 43
          and mb = 8325434425277636 and kb = 37])
      (simp_all add: rounds_to_def)
  finally show ?thesis .
qed

lemma scenario_B_year_30:
  "last (entriesFromR rnd (6725375443539941 / 2 ^ 61) 360 (Num 50000)
           (4591220627964096 / 2 ^ 42) 349
           (8325434425277636 / 2 ^ 37)) =
   last (entriesFromR rnd (6725375443539941 / 2 ^ 61) 360 (Num 50000)
           (4591220627964096 / 2 ^ 42) 360
           (6995021173135727 / 2 ^ 37))"
proof -
  let ?E = "\<lambda>i b. last (entriesFromR rnd (6725375443539941 / 2 ^ 61) 360 (Num 50000)
                        (4591220627964096 / 2 ^ 42) i b)"
  have "?E 349 (8325434425277636 / 2 ^ 37) = ?E 350 (8206241297727484 / 2 ^ 37)"
    by (rule period_step [where mi = 6216324370873968 and ki = 45 and mq = 7628360163209700 and kq = 43
          and mb = 8206241297727484 and kb = 37])
      (simp_all add: rounds_to_def)
  also have "\<dots> = ?E 351 (8086700523555311 / 2 ^ 37)"
    by (rule period_step [where mi = 6127326835636522 and ki = 45 and mq = 7650609547019062 and kq = 43
          and mb = 8086700523555311 and kb = 37])
      (simp_all add: rounds_to_def)
  also have "\<dots> = ?E 352 (7966811088791803 / 2 ^ 37)"
    by (rule period_step [where mi = 6038069724254632 and ki = 45 and mq = 7672923824864534 and kq = 43
          and mb = 7966811088791803 and kb = 37])
      (simp_all add: rounds_to_def)
  also have "\<dots> = ?E 353 (7846571976510234 / 2 ^ 37)"
    by (rule period_step [where mi = 5948552279631213 and ki = 45 and mq = 7695303186020389 and kq = 43
          and mb = 7846571976510234 and kb = 37])
      (simp_all add: rounds_to_def)
  also have "\<dots> = ?E 354 (7725982166817844 / 2 ^ 37)"
    by (rule period_step [where mi = 5858773742460975 and ki = 45 and mq = 7717747820312948 and kq = 43
          and mb = 7725982166817844 and kb = 37])
      (simp_all add: rounds_to_def)
  also have "\<dots> = ?E 355 (7605040636847185 / 2 ^ 37)"
    by (rule period_step [where mi = 5768733351223990 and ki = 45 and mq = 7740257918122194 and kq = 43
          and mb = 7605040636847185 and kb = 37])
      (simp_all add: rounds_to_def)
  also have "\<dots> = ?E 356 (7483746360747445 / 2 ^ 37)"
    by (rule period_step [where mi = 5678430342179232 and ki = 45 and mq = 7762833670383384 and kq = 43
          and mb = 7483746360747445 and kb = 37])
      (simp_all add: rounds_to_def)
  also have "\<dots> = ?E 357 (7362098309675747 / 2 ^ 37)"
    by (rule period_step [where mi = 5587863949358093 and ki = 45 and mq = 7785475268588669 and kq = 43
          and mb = 7362098309675747 and kb = 37])
      (simp_all add: rounds_to_def)
  also have "\<dots> = ?E 358 (7240095451788423 / 2 ^ 37)"
    by (rule period_step [where mi = 5497033404557891 and ki = 45 and mq = 7808182904788719 and kq = 43
          and mb = 7240095451788423 and kb = 37])
      (simp_all add: rounds_to_def)
  also have "\<dots> = ?E 359 (7117736752232261 / 2 ^ 37)"
    by (rule period_step [where mi = 5405937937335356 and ki = 45 and mq = 7830956771594353 and kq = 43
          and mb = 7117736752232261 and kb = 37])
      (simp_all add: rounds_to_def)
  also have "\<dots> = ?E 360 (6995021173135727 / 2 ^ 37)"
    by (rule period_step [where mi = 5314576775000088 and ki = 45 and mq = 7853797062178170 and kq = 43
          and mb = 6995021173135727 and kb = 37])
      (simp_all add: rounds_to_def)
  finally show ?thesis .
qed

lemma scenario_B_periods:
  "last (entriesFromR rnd (6725375443539941 / 2 ^ 61) 360 (Num 50000)
           (4591220627964096 / 2 ^ 42) 1
           250000) =
   last (entriesFromR rnd (6725375443539941 / 2 ^ 61) 360 (Num 50000)
           (4591220627964096 / 2 ^ 42) 360
           (6995021173135727 / 2 ^ 37))"
  by (simp only:
      scenario_B_year_1 scenario_B_year_2 scenario_B_year_3 scenario_B_year_4
      scenario_B_year_5 scenario_B_year_6 scenario_B_year_7 scenario_B_year_8
      scenario_B_year_9 scenario_B_year_10 scenario_B_year_11 scenario_B_year_12
      scenario_B_year_13 scenario_B_year_14 scenario_B_year_15 scenario_B_year_16
      scenario_B_year_17 scenario_B_year_18 scenario_B_year_19 scenario_B_year_20
      scenario_B_year_21 scenario_B_year_22 scenario_B_year_23 scenario_B_year_24
      scenario_B_year_25 scenario_B_year_26 scenario_B_year_27 scenario_B_year_28
      scenario_B_year_29 scenario_B_year_30)

lemma scenario_B_last_period:
  "month (last (entriesFromR rnd (6725375443539941 / 2 ^ 61) 360 (Num 50000) (4591220627964096 / 2 ^ 42) 360
           (6995021173135727 / 2 ^ 37))) = 360 \<and>
   remainingBalance (last (entriesFromR rnd (6725375443539941 / 2 ^ 61) 360 (Num 50000) (4591220627964096 / 2 ^ 42) 360
           (6995021173135727 / 2 ^ 37))) = toFixed2 (6871947673600162 / 2 ^ 37)"
  by (rule last_period [where mi = 5222949142608010 and ki = 45 and mq = 7876703970276190 and kq = 43
          and mb = 6871947673600162 and kb = 37])
    (simp_all add: rounds_to_def)

lemma scenario_B_schedule:
  "schedule (amortizationR rnd ''250000'' ''3.5'' ''30'' ''50000'' m False) =
     entriesFromR rnd (6725375443539941 / 2 ^ 61) 360 (Num 50000) (4591220627964096 / 2 ^ 42) 1 250000"
proof -
  have p: "(0::real) < 250000" "(0::real) < 6725375443539941 / 2 ^ 61" "(0::int) < 30" by simp_all
  have n: "(30::int) * 12 = 360" by simp
  show ?thesis
    by (simp only: amortizationR_accepted(1) [OF scenario_principal scenario_rate parseInt_30 p]
        n scenario_balloon scenario_B_payment finalMonthlyRepayment_off)
qed

section \<open>The claims\<close>

text \<open>
  Below, input is called accepted when it passes the guard of line 29: \<^verbatim>\<open>parseFloat\<close>
  reads a positive number \<open>P\<close> from the principal and a positive number \<open>pct\<close> from the
  rate, and \<^verbatim>\<open>parseInt\<close> reads a positive integer \<open>y\<close> from the term. The periodic rate is
  then \<open>pct / 100 / 12\<close> and the number of periods \<open>y * 12\<close>. All other input is called
  rejected.
\<close>

subsection \<open>C2: the result for rejected input\<close>

text \<open>
  C2, as the code has it. When the principal, the rate or the term does not parse to a
  number, or parses to a number that is not positive (so in particular for a principal of
  0, a rate of 0 or a term of 0), the callback returns the object of line 30: an empty
  schedule, total interest 0, total payment 0 and computed payment 0. The model is a
  total function, and none of the operations of the callback throws.
\<close>

theorem rejected_input_empty_result:
  assumes "parseFloat la = NaN \<or> (\<exists>P\<le>0. parseFloat la = Num P)
         \<or> parseFloat ir = NaN \<or> (\<exists>pct\<le>0. parseFloat ir = Num pct)
         \<or> parseInt tm = None \<or> (\<exists>y\<le>0. parseInt tm = Some y)"
  shows "amortization la ir tm bp m ov =
           \<lparr>schedule = [], totalInterest = 0, totalPayment = 0, calculatedMthRepayment = 0\<rparr>"
proof -
  have "(\<forall>P. parseFloat la = Num P \<longrightarrow> P \<le> 0) \<or> (\<forall>pct. parseFloat ir = Num pct \<longrightarrow> pct \<le> 0)
        \<or> (\<forall>y. parseInt tm = Some y \<longrightarrow> y \<le> 0)"
    using assms by auto
  then show ?thesis
    by (simp add: amortization_invalid noResult_def)
qed

theorem rejected_input_empty_result_witness:
  "parseFloat ''0'' = Num 0 \<and>
   amortization ''0'' ''3.5'' ''30'' ''50000'' NaN False =
     \<lparr>schedule = [], totalInterest = 0, totalPayment = 0, calculatedMthRepayment = 0\<rparr> \<and>
   parseInt ''0'' = Some 0 \<and>
   amortization ''250000'' ''3.5'' ''0'' ''0'' NaN False =
     \<lparr>schedule = [], totalInterest = 0, totalPayment = 0, calculatedMthRepayment = 0\<rparr>"
proof -
  have 1: "parseFloat ''0'' = Num 0" by (rule parseFloat_0)
  have 2: "parseInt ''0'' = Some 0" by (simp add: parse_defs)
  show ?thesis
    using rejected_input_empty_result [of "''0''" "''3.5''" "''30''" "''50000''" NaN False]
      rejected_input_empty_result [of "''250000''" "''3.5''" "''0''" "''0''" NaN False] 1 2
    by simp
qed

text \<open>
  C2 as stated also counts a negative balloon as invalid input. The guard of line 29 does
  not mention the balloon: with a balloon of \<open>-5\<close> and otherwise valid fields the schedule
  is not empty.
\<close>

theorem negative_balloon_not_rejected:
  "parseFloat ''-5'' = Num (- 5) \<and>
   schedule (amortization ''100'' ''1200'' ''1'' ''-5'' NaN False) \<noteq> [] \<and>
   amortization ''100'' ''1200'' ''1'' ''-5'' NaN False \<noteq>
     \<lparr>schedule = [], totalInterest = 0, totalPayment = 0, calculatedMthRepayment = 0\<rparr>"
proof -
  have "schedule (amortization ''100'' ''1200'' ''1'' ''-5'' NaN False) \<noteq> []"
    by (rule schedule_accepted_nonempty [OF parseFloat_100 parseFloat_1200 parseInt_1]) simp_all
  then show ?thesis using parseFloat_minus5 by auto
qed

subsection \<open>C6: what the guard accepts\<close>

text \<open>
  C6, as the code has it. A schedule is produced exactly when the three numbers that
  the guard of line 29 tests are positive numbers: the principal that \<^verbatim>\<open>parseFloat\<close>
  reads (line 24), the periodic rate, which is what \<^verbatim>\<open>parseFloat\<close> reads from the rate
  field divided by 100 and then by 12 (line 25), and the number of periods, which is
  what \<^verbatim>\<open>parseInt\<close> reads from the term field times 12 (line 26). The test is on the
  periodic rate and not on the percentage, so a percentage whose quotient by 1200 is
  no longer a positive number is rejected. The balloon plays no part in it.
\<close>

theorem guard_accepts_iff:
  "(schedule (amortization la ir tm bp m ov) \<noteq> []) =
     ((\<exists>P>0. parseFloat la = Num P) \<and>
      (\<exists>r>0. num_div (num_div (parseFloat ir) 100) 12 = Num r) \<and>
      (\<exists>n>0. map_option (\<lambda>k. k * 12) (parseInt tm) = Some n))"
proof -
  have r: "(\<exists>r>0. num_div (num_div (parseFloat ir) 100) 12 = Num r) =
           (\<exists>pct>0. parseFloat ir = Num pct)"
  proof (cases "parseFloat ir")
    case NaN
    then show ?thesis by simp
  next
    case (Num pct)
    have "(\<exists>r>0. Num (pct / 100 / 12) = Num r) = (0 < pct / 100 / 12)"
      by (simp only: number.inject) blast
    also have "\<dots> = (0 < pct)" by simp
    also have "\<dots> = (\<exists>q>0. Num pct = Num q)"
      by (simp only: number.inject) blast
    finally show ?thesis using Num by (simp only: num_div.simps)
  qed
  have n: "(\<exists>n>0. map_option (\<lambda>k. k * 12) (parseInt tm) = Some n) =
           (\<exists>y>0. parseInt tm = Some y)"
    by (cases "parseInt tm") simp_all
  have "(schedule (amortization la ir tm bp m ov) \<noteq> []) =
     ((\<exists>P>0. parseFloat la = Num P) \<and> (\<exists>pct>0. parseFloat ir = Num pct)
      \<and> (\<exists>y>0. parseInt tm = Some y))"
  proof
    assume ne: "schedule (amortization la ir tm bp m ov) \<noteq> []"
    show "(\<exists>P>0. parseFloat la = Num P) \<and> (\<exists>pct>0. parseFloat ir = Num pct)
        \<and> (\<exists>y>0. parseInt tm = Some y)"
    proof (rule ccontr)
      assume "\<not> ?thesis"
      then have "(\<forall>P. parseFloat la = Num P \<longrightarrow> P \<le> 0) \<or> (\<forall>pct. parseFloat ir = Num pct \<longrightarrow> pct \<le> 0)
          \<or> (\<forall>y. parseInt tm = Some y \<longrightarrow> y \<le> 0)"
        by (meson not_le)
      then have "amortization la ir tm bp m ov = noResult" by (rule amortization_invalid)
      with ne show False by (simp add: noResult_def)
    qed
  next
    assume "(\<exists>P>0. parseFloat la = Num P) \<and> (\<exists>pct>0. parseFloat ir = Num pct)
        \<and> (\<exists>y>0. parseInt tm = Some y)"
    then obtain P pct y where "parseFloat la = Num P" "parseFloat ir = Num pct" "parseInt tm = Some y"
      "0 < P" "0 < pct" "0 < y" by auto
    then show "schedule (amortization la ir tm bp m ov) \<noteq> []"
      by (rule schedule_accepted_nonempty)
  qed
  then show ?thesis by (simp only: r n)
qed

theorem guard_accepts_iff_witness:
  "num_div (num_div (parseFloat ''3.5'') 100) 12 = Num (7 / 2400) \<and>
   map_option (\<lambda>k. k * 12) (parseInt ''30'') = Some 360 \<and>
   schedule (amortization ''250000'' ''3.5'' ''30'' ''0'' NaN False) \<noteq> [] \<and>
   map_option (\<lambda>k. k * 12) (parseInt []) = None \<and>
   schedule (amortization ''250000'' ''3.5'' [] ''0'' NaN False) = []"
proof -
  have r: "num_div (num_div (parseFloat ''3.5'') 100) 12 = Num (7 / 2400)"
    by (simp add: parseFloat_3p5)
  have n: "map_option (\<lambda>k. k * 12) (parseInt ''30'') = Some 360"
    by (simp add: parseInt_30)
  have 1: "(\<exists>P>0. parseFloat ''250000'' = Num P) \<and>
      (\<exists>r>0. num_div (num_div (parseFloat ''3.5'') 100) 12 = Num r) \<and>
      (\<exists>n>0. map_option (\<lambda>k. k * 12) (parseInt ''30'') = Some n)"
    unfolding parseFloat_250000 r n
    by (intro conjI exI [of _ 250000] exI [of _ "7 / 2400"] exI [of _ 360]) simp_all
  have e: "map_option (\<lambda>k. k * 12) (parseInt []) = None" by (simp add: parse_defs)
  then have 2: "\<not> (\<exists>n>0. map_option (\<lambda>k. k * 12) (parseInt []) = Some n)" by simp
  show ?thesis
    using guard_accepts_iff [of "''250000''" "''3.5''" "''30''" "''0''" NaN False]
      guard_accepts_iff [of "''250000''" "''3.5''" "[]" "''0''" NaN False] 1 2 r n e
    by blast
qed

text \<open>
  C6 as stated rejects a term that is not an integer and a negative balloon. The term
  \<^verbatim>\<open>2.5\<close> is read by \<^verbatim>\<open>parseInt\<close> as 2, the balloon \<open>-5\<close> is not looked at, and a schedule
  is produced.
\<close>

theorem fractional_term_negative_balloon_accepted:
  "parseFloat ''2.5'' = Num (5 / 2) \<and> parseInt ''2.5'' = Some 2 \<and>
   parseFloat ''-5'' = Num (- 5) \<and>
   schedule (amortization ''100'' ''1200'' ''2.5'' ''-5'' NaN False) \<noteq> []"
proof -
  have "schedule (amortization ''100'' ''1200'' ''2.5'' ''-5'' NaN False) \<noteq> []"
    by (rule schedule_accepted_nonempty [OF parseFloat_100 parseFloat_1200 parseInt_2p5]) simp_all
  then show ?thesis using parseFloat_2p5 parseInt_2p5 parseFloat_minus5 by simp
qed

subsection \<open>C4: the computed payment\<close>

text \<open>
  C4. For accepted input, with \<open>r = (annualRatePercent / 100) / 12\<close> and
  \<open>n = termYears * 12\<close>, the computed payment returned by the callback is the base
  formula of the specification when the balloon is 0 and the balloon formula of the
  specification when the balloon is a positive \<open>B\<close>. The equality is one of exact
  arithmetic: the code groups the products and quotients differently from the formulas.
\<close>

theorem computed_payment_formula:
  assumes "parseFloat la = Num P" "parseFloat ir = Num pct" "parseInt tm = Some y"
    and "0 < P" "0 < pct" "0 < y"
  shows "(parseFloat bp = Num 0 \<longrightarrow>
            calculatedMthRepayment (amortization la ir tm bp m ov) =
              basePayment P (pct / 100 / 12) (nat (y * 12))) \<and>
         (\<forall>B>0. parseFloat bp = Num B \<longrightarrow>
            calculatedMthRepayment (amortization la ir tm bp m ov) =
              balloonAdjustedPayment P B (pct / 100 / 12) (nat (y * 12)))"
proof -
  have n: "0 < y * 12" using assms(6) by simp
  show ?thesis
    using pmt_no_balloon [OF n, of "Num 0" P "pct / 100 / 12"]
      pmt_balloon [OF n, of _ P "pct / 100 / 12"]
    by (auto simp: amortization_accepted [OF assms])
qed

theorem computed_payment_formula_witness:
  "calculatedMthRepayment (amortization ''100'' ''1200'' ''1'' ''0'' NaN False) =
     basePayment 100 1 12 \<and>
   calculatedMthRepayment (amortization ''100'' ''1200'' ''1'' ''50'' NaN False) =
     balloonAdjustedPayment 100 50 1 12 \<and>
   basePayment 100 1 12 = 81920 / 819 \<and>
   balloonAdjustedPayment 100 50 1 12 = 81910 / 819"
proof -
  have b: "basePayment 100 1 12 = 81920 / 819"
    by (simp add: basePayment_def)
  have a: "balloonAdjustedPayment 100 50 1 12 = 81910 / 819"
    by (simp add: balloonAdjustedPayment_def power_int_minus)
  show ?thesis
    using computed_payment_formula [OF parseFloat_100 parseFloat_1200 parseInt_1, of "''0''" NaN False]
      computed_payment_formula [OF parseFloat_100 parseFloat_1200 parseInt_1, of "''50''" NaN False]
      parseFloat_0 parseFloat_50 a b
    by simp
qed

subsection \<open>C5: the payment the schedule is generated with\<close>

text \<open>
  C5. For accepted input, with \<open>r = (annualRatePercent / 100) / 12\<close> and
  \<open>n = termYears * 12\<close>: the computed payment that is returned is the formula value of
  the specification, the balloon formula when the balloon is a positive \<open>B\<close> and the
  base formula otherwise. When the override flag is set and the monthly repayment is a
  positive number, the schedule is the one the loop produces with that repayment;
  otherwise it is the one the loop produces with the computed payment that is returned.
  The computed payment is the same whatever the override flag and the monthly repayment
  are.
\<close>

theorem override_selects_payment:
  assumes "parseFloat la = Num P" "parseFloat ir = Num pct" "parseInt tm = Some y"
    and "0 < P" "0 < pct" "0 < y"
  shows "(\<forall>B>0. parseFloat bp = Num B \<longrightarrow>
            calculatedMthRepayment (amortization la ir tm bp m ov) =
              balloonAdjustedPayment P B (pct / 100 / 12) (nat (y * 12))) \<and>
         (\<not> (\<exists>B>0. parseFloat bp = Num B) \<longrightarrow>
            calculatedMthRepayment (amortization la ir tm bp m ov) =
              basePayment P (pct / 100 / 12) (nat (y * 12))) \<and>
         (\<forall>x>0. ov \<and> m = Num x \<longrightarrow>
            schedule (amortization la ir tm bp m ov) =
              entriesFrom (pct / 100 / 12) (y * 12) (parseFloat bp) x 1 P) \<and>
         (\<not> (ov \<and> (\<exists>x>0. m = Num x)) \<longrightarrow>
            schedule (amortization la ir tm bp m ov) =
              entriesFrom (pct / 100 / 12) (y * 12) (parseFloat bp)
                (calculatedMthRepayment (amortization la ir tm bp m ov)) 1 P) \<and>
         calculatedMthRepayment (amortization la ir tm bp m' ov') =
           calculatedMthRepayment (amortization la ir tm bp m ov)"
proof -
  have n: "0 < y * 12" using assms(6) by simp
  have f1: "pmt P (pct / 100 / 12) (y * 12) (parseFloat bp) =
            balloonAdjustedPayment P B (pct / 100 / 12) (nat (y * 12))"
    if "0 < B" "parseFloat bp = Num B" for B
    using pmt_balloon [OF n that(1), of P "pct / 100 / 12"] that(2) by simp
  have f2: "pmt P (pct / 100 / 12) (y * 12) (parseFloat bp) =
            basePayment P (pct / 100 / 12) (nat (y * 12))"
    if "\<not> (\<exists>B>0. parseFloat bp = Num B)"
  proof -
    from that have "parseFloat bp = NaN \<or> (\<exists>c\<le>0. parseFloat bp = Num c)"
      by (cases "parseFloat bp") (auto simp: not_less)
    then show ?thesis by (rule pmt_no_balloon [OF n])
  qed
  have c: "calculatedMthRepayment (amortization la ir tm bp m'' ov'') =
           pmt P (pct / 100 / 12) (y * 12) (parseFloat bp)" for m'' ov''
    by (simp add: amortization_accepted [OF assms])
  have s1: "schedule (amortization la ir tm bp m ov) =
              entriesFrom (pct / 100 / 12) (y * 12) (parseFloat bp) x 1 P"
    if "0 < x" "ov \<and> m = Num x" for x
    using that by (simp add: amortization_accepted [OF assms] finalMonthlyRepayment_def)
  have s2: "schedule (amortization la ir tm bp m ov) =
              entriesFrom (pct / 100 / 12) (y * 12) (parseFloat bp)
                (calculatedMthRepayment (amortization la ir tm bp m ov)) 1 P"
    if "\<not> (ov \<and> (\<exists>x>0. m = Num x))"
    using that
    by (auto simp: amortization_accepted [OF assms] finalMonthlyRepayment_def split: number.splits)
  show ?thesis
    using f1 f2 s1 s2 unfolding c [of m ov] c [of m' ov'] by blast
qed

theorem override_selects_payment_witness:
  "schedule (amortization ''100'' ''1200'' ''1'' ''0'' (Num 150) True) =
     entriesFrom 1 12 (Num 0) 150 1 100 \<and>
   schedule (amortization ''100'' ''1200'' ''1'' ''0'' (Num 150) False) =
     entriesFrom 1 12 (Num 0) (81920 / 819) 1 100 \<and>
   calculatedMthRepayment (amortization ''100'' ''1200'' ''1'' ''0'' (Num 150) True) =
     81920 / 819 \<and>
   calculatedMthRepayment (amortization ''100'' ''1200'' ''1'' ''50'' (Num 150) True) =
     81910 / 819 \<and>
   map remainingBalance (entriesFrom 1 12 (Num 0) 150 1 100) = [50, 0]"
proof -
  have e: "map remainingBalance (entriesFrom 1 12 (Num 0) 150 1 100) = [50, 0]"
    by (simp add: entriesFrom_unfold step_defs)
  have b: "basePayment 100 1 12 = 81920 / 819"
    by (simp add: basePayment_def)
  have a: "balloonAdjustedPayment 100 50 1 12 = 81910 / 819"
    by (simp add: balloonAdjustedPayment_def power_int_minus)
  have nb: "\<not> (\<exists>B>0. parseFloat ''0'' = Num B)" by (simp add: parseFloat_0)
  have ov: "\<not> (False \<and> (\<exists>x>0. Num 150 = Num x))" by simp
  note t1 = override_selects_payment [OF parseFloat_100 parseFloat_1200 parseInt_1,
        of "''0''" "Num 150" True "Num 150" True]
  note t2 = override_selects_payment [OF parseFloat_100 parseFloat_1200 parseInt_1,
        of "''0''" "Num 150" False "Num 150" False]
  note t3 = override_selects_payment [OF parseFloat_100 parseFloat_1200 parseInt_1,
        of "''50''" "Num 150" True "Num 150" True]
  have c1: "calculatedMthRepayment (amortization ''100'' ''1200'' ''1'' ''0'' (Num 150) True) =
     81920 / 819" using t1 nb b by simp
  have c2: "calculatedMthRepayment (amortization ''100'' ''1200'' ''1'' ''0'' (Num 150) False) =
     81920 / 819" using t2 nb b by simp
  have c3: "calculatedMthRepayment (amortization ''100'' ''1200'' ''1'' ''50'' (Num 150) True) =
     81910 / 819" using t3 parseFloat_50 a by simp
  have s1: "schedule (amortization ''100'' ''1200'' ''1'' ''0'' (Num 150) True) =
     entriesFrom 1 12 (Num 0) 150 1 100" using t1 by (simp add: parseFloat_0)
  have s2: "schedule (amortization ''100'' ''1200'' ''1'' ''0'' (Num 150) False) =
     entriesFrom 1 12 (Num 0) (81920 / 819) 1 100" using t2 ov c2 by (simp add: parseFloat_0)
  from c1 c3 s1 s2 e show ?thesis by simp
qed

subsection \<open>C8: the total payment\<close>

text \<open>
  C8, as the code has it. On accepted input the total payment returned is the principal
  plus the total interest returned, and the total interest is the sum, over the periods
  of the schedule, of the interest of the period (the balance at its start times the
  periodic rate, not rounded). On rejected input the total payment and the total interest
  are both 0.
\<close>

theorem totalPayment_principal_plus_interest:
  "(parseFloat la = Num P \<and> parseFloat ir = Num pct \<and> parseInt tm = Some y \<and>
    0 < P \<and> 0 < pct \<and> 0 < y \<longrightarrow>
      totalPayment (amortization la ir tm bp m ov) =
        P + totalInterest (amortization la ir tm bp m ov) \<and>
      totalInterest (amortization la ir tm bp m ov) =
        (\<Sum>k<length (schedule (amortization la ir tm bp m ov)).
           (payDown (pct / 100 / 12)
              (finalMonthlyRepayment ov m (pmt P (pct / 100 / 12) (y * 12) (parseFloat bp))) ^^ k) P
             * (pct / 100 / 12))) \<and>
   (parseFloat la = NaN \<or> (\<exists>P\<le>0. parseFloat la = Num P)
      \<or> parseFloat ir = NaN \<or> (\<exists>pct\<le>0. parseFloat ir = Num pct)
      \<or> parseInt tm = None \<or> (\<exists>y\<le>0. parseInt tm = Some y) \<longrightarrow>
      totalPayment (amortization la ir tm bp m ov) = 0 \<and>
      totalInterest (amortization la ir tm bp m ov) = 0)"
proof -
  have 1: "totalPayment (amortization la ir tm bp m ov) =
        P + totalInterest (amortization la ir tm bp m ov) \<and>
      totalInterest (amortization la ir tm bp m ov) =
        (\<Sum>k<length (schedule (amortization la ir tm bp m ov)).
           (payDown (pct / 100 / 12)
              (finalMonthlyRepayment ov m (pmt P (pct / 100 / 12) (y * 12) (parseFloat bp))) ^^ k) P
             * (pct / 100 / 12))"
    if v: "parseFloat la = Num P" "parseFloat ir = Num pct" "parseInt tm = Some y"
      "0 < P" "0 < pct" "0 < y"
    by (simp add: amortization_accepted [OF v] interestFrom_sum)
  have 2: "totalPayment (amortization la ir tm bp m ov) = 0 \<and>
      totalInterest (amortization la ir tm bp m ov) = 0"
    if "parseFloat la = NaN \<or> (\<exists>P\<le>0. parseFloat la = Num P)
      \<or> parseFloat ir = NaN \<or> (\<exists>pct\<le>0. parseFloat ir = Num pct)
      \<or> parseInt tm = None \<or> (\<exists>y\<le>0. parseInt tm = Some y)"
  proof -
    from that have "(\<forall>P. parseFloat la = Num P \<longrightarrow> P \<le> 0) \<or> (\<forall>pct. parseFloat ir = Num pct \<longrightarrow> pct \<le> 0)
        \<or> (\<forall>y. parseInt tm = Some y \<longrightarrow> y \<le> 0)"
      by auto
    then have "amortization la ir tm bp m ov = noResult" by (rule amortization_invalid)
    then show ?thesis by (simp add: noResult_def)
  qed
  from 1 2 show ?thesis by blast
qed

theorem totalPayment_principal_plus_interest_witness:
  "totalPayment (amortization ''100'' ''1200'' ''1'' ''0'' (Num 150) True) =
     100 + totalInterest (amortization ''100'' ''1200'' ''1'' ''0'' (Num 150) True) \<and>
   totalInterest (amortization ''100'' ''1200'' ''1'' ''0'' (Num 150) True) = 150 \<and>
   totalPayment (amortization ''100'' ''0'' ''1'' ''0'' (Num 150) True) = 0 \<and>
   totalInterest (amortization ''100'' ''0'' ''1'' ''0'' (Num 150) True) = 0"
proof -
  have v: "parseFloat ''100'' = Num 100 \<and> parseFloat ''1200'' = Num 1200 \<and>
      parseInt ''1'' = Some 1 \<and> (0::real) < 100 \<and> (0::real) < 1200 \<and> (0::int) < 1"
    by (simp add: parseFloat_100 parseFloat_1200 parseInt_1)
  have l: "length (schedule (amortization ''100'' ''1200'' ''1'' ''0'' (Num 150) True)) = 2"
    by (simp add: amortization_accepted [OF parseFloat_100 parseFloat_1200 parseInt_1]
        finalMonthlyRepayment_def entriesFrom_unfold step_defs parseFloat_0)
  have s: "(\<Sum>k<2. (payDown 1 150 ^^ k) 100 * 1) = (150::real)"
    by (simp add: lessThan_Suc numeral_2_eq_2 payDown_def principalOf_def)
  have r: "\<exists>pct\<le>0. parseFloat ''0'' = Num pct"
    by (simp add: parseFloat_0)
  show ?thesis
    using totalPayment_principal_plus_interest
        [of "''100''" 100 "''1200''" 1200 "''1''" 1 "''0''" "Num 150" True]
      totalPayment_principal_plus_interest
        [of "''100''" 100 "''0''" 1200 "''1''" 1 "''0''" "Num 150" True] v l s r
    by (simp add: finalMonthlyRepayment_def)
qed

text \<open>
  C8 as stated covers rejected input as well. With a principal of 100 and a rate of 0
  the input is rejected and the total payment is 0, which is not the principal plus the
  total interest.
\<close>

theorem totalPayment_zero_on_rejected_input:
  "parseFloat ''100'' = Num 100 \<and>
   totalInterest (amortization ''100'' ''0'' ''1'' ''0'' NaN False) = 0 \<and>
   totalPayment (amortization ''100'' ''0'' ''1'' ''0'' NaN False) \<noteq>
     100 + totalInterest (amortization ''100'' ''0'' ''1'' ''0'' NaN False)"
proof -
  have "amortization ''100'' ''0'' ''1'' ''0'' NaN False = noResult"
    by (rule amortization_invalid) (simp add: parseFloat_0)
  then show ?thesis by (simp add: noResult_def parseFloat_100)
qed

subsection \<open>C10: a balloon that does not parse\<close>



subsection \<open>C3: the balloon in the final period\<close>

text \<open>
  C3, as the code has it. For accepted input with a balloon \<open>B > 0\<close> whose schedule
  reaches the final period \<open>n\<close>: let \<open>pre\<close> be the balance after the payment of period
  \<open>n\<close>. When \<open>pre\<close> is not greater than \<open>B\<close>, the balloon is subtracted and the entry
  records \<open>pre - B\<close>; when \<open>pre\<close> is greater than \<open>B\<close>, nothing is subtracted and the
  entry records \<open>pre\<close> (the branch of line 62, which the code leaves empty).
\<close>

theorem final_period_balloon:
  assumes "parseFloat la = Num P" "parseFloat ir = Num pct" "parseInt tm = Some y"
    and "0 < P" "0 < pct" "0 < y"
    and "parseFloat bp = Num B" "0 < B"
    and "month (last (schedule (amortization la ir tm bp m ov))) = y * 12"
  shows "remainingBalance (last (schedule (amortization la ir tm bp m ov))) =
           (let pre = (payDown (pct / 100 / 12)
                         (finalMonthlyRepayment ov m (pmt P (pct / 100 / 12) (y * 12) (Num B)))
                       ^^ nat (y * 12)) P
            in toFixed2 (if pre > B then pre else pre - B))"
proof -
  let ?r = "pct / 100 / 12" and ?n = "y * 12"
  let ?p = "finalMonthlyRepayment ov m (pmt P ?r ?n (Num B))"
  let ?es = "entriesFrom ?r ?n (Num B) ?p 1 P"
  have s: "schedule (amortization la ir tm bp m ov) = ?es"
    by (simp add: amortization_accepted [OF assms(1-6)] assms(7))
  have ne: "?es \<noteq> []" using assms(4,6) by (intro entriesFrom_nonempty) simp_all
  have "month (last ?es) = 1 + int (length ?es) - 1" by (rule entriesFrom_last_month [OF ne])
  then have len: "length ?es = nat (?n + 1 - 1)" using assms(9) s by simp
  have "remainingBalance (last ?es) =
        toFixed2 (balloonBranch ?n ?n (Num B) ((payDown ?r ?p ^^ nat (?n + 1 - 1)) P))"
    using assms(6) by (intro entriesFrom_last_balance len) simp
  then show ?thesis
    using assms(8) by (simp add: s Let_def balloonBranch_def)
qed

theorem final_period_balloon_witness:
  "month (last (schedule (amortization ''100'' ''1200'' ''1'' ''500'' (Num 100) True))) = 12 \<and>
   (payDown 1 100 ^^ 12) 100 = 100 \<and>
   remainingBalance (last (schedule (amortization ''100'' ''1200'' ''1'' ''500'' (Num 100) True)))
     = - 400"
proof -
  let ?s = "schedule (amortization ''100'' ''1200'' ''1'' ''500'' (Num 100) True)"
  have m: "month (last ?s) = 1 * 12"
    by (simp add: amortization_accepted [OF parseFloat_100 parseFloat_1200 parseInt_1]
        parseFloat_500 finalMonthlyRepayment_def entriesFrom_unfold step_defs)
  have f: "(payDown 1 100 ^^ 12) 100 = 100"
    by (rule funpow_fixed) (simp add: payDown_def principalOf_def)
  show ?thesis
    using final_period_balloon [OF parseFloat_100 parseFloat_1200 parseInt_1 _ _ _ parseFloat_500 _ m]
      m f
    by (simp add: finalMonthlyRepayment_def toFixed2_def)
qed

text \<open>
  C3 as stated has the balloon subtracted in every final period. With a principal of
  100, a periodic rate of 1, a balloon of 50 and an override payment of 100, each
  payment covers the interest only: the balance is 100 after the payment of period 12,
  which is more than the balloon, and the entry of period 12 records 100, not 50.
\<close>

theorem final_period_balloon_not_subtracted:
  "parseFloat ''50'' = Num 50 \<and>
   map month (schedule (amortization ''100'' ''1200'' ''1'' ''50'' (Num 100) True)) =
     [1, 2, 3, 4, 5, 6, 7, 8, 9, 10, 11, 12] \<and>
   map principal (schedule (amortization ''100'' ''1200'' ''1'' ''50'' (Num 100) True)) =
     [0, 0, 0, 0, 0, 0, 0, 0, 0, 0, 0, 0] \<and>
   map remainingBalance (schedule (amortization ''100'' ''1200'' ''1'' ''50'' (Num 100) True)) =
     [100, 100, 100, 100, 100, 100, 100, 100, 100, 100, 100, 100]"
  by (simp add: amortization_accepted [OF parseFloat_100 parseFloat_1200 parseInt_1]
      parseFloat_50 finalMonthlyRepayment_def entriesFrom_unfold step_defs)

subsection \<open>C1: the course of the remaining balance\<close>

text \<open>
  C1, as the code has it. For accepted input: when the payment the schedule is generated
  with covers the interest of the first period (it is at least the principal times the
  periodic rate), the recorded remaining balance is non-increasing from each entry to the
  next. Whatever the payment is, a recorded remaining balance is negative only in the
  entry of the final period \<open>n\<close> and only when there is a positive balloon that exceeds
  the balance left after the payment of that period, which is the principal paid down
  \<open>n\<close> times.
\<close>

theorem balance_nonincreasing_nonnegative:
  assumes "parseFloat la = Num P" "parseFloat ir = Num pct" "parseInt tm = Some y"
    and "0 < P" "0 < pct" "0 < y"
  shows "(P * (pct / 100 / 12)
            \<le> finalMonthlyRepayment ov m (pmt P (pct / 100 / 12) (y * 12) (parseFloat bp)) \<longrightarrow>
          sorted_wrt (\<ge>) (map remainingBalance (schedule (amortization la ir tm bp m ov)))) \<and>
         (\<forall>e \<in> set (schedule (amortization la ir tm bp m ov)).
            remainingBalance e < 0 \<longrightarrow>
              month e = y * 12 \<and>
              (\<exists>B>0. parseFloat bp = Num B \<and>
                 (payDown (pct / 100 / 12)
                    (finalMonthlyRepayment ov m (pmt P (pct / 100 / 12) (y * 12) (parseFloat bp)))
                  ^^ nat (y * 12)) P < B))"
proof -
  let ?r = "pct / 100 / 12" and ?n = "y * 12" and ?B = "parseFloat bp"
  let ?p = "finalMonthlyRepayment ov m (pmt P ?r ?n ?B)"
  have s: "schedule (amortization la ir tm bp m ov) = entriesFrom ?r ?n ?B ?p 1 P"
    by (simp add: amortization_accepted [OF assms])
  have r: "0 \<le> ?r" and P: "0 \<le> P" using assms(4,5) by simp_all
  have 1: "sorted_wrt (\<ge>) (map remainingBalance (entriesFrom ?r ?n ?B ?p 1 P))" if "P * ?r \<le> ?p"
    using entries_nonincreasing [OF r P that] by simp
  have 2: "month e = ?n \<and> (\<exists>B>0. ?B = Num B \<and> (payDown ?r ?p ^^ nat ?n) P < B)"
    if "e \<in> set (entriesFrom ?r ?n ?B ?p 1 P)" "remainingBalance e < 0" for e
    using entries_negative_final_balloon [OF that] by simp
  show ?thesis unfolding s using 1 2 by blast
qed

theorem balance_nonincreasing_nonnegative_witness:
  "(100::real) * (1200 / 100 / 12) \<le> 150 \<and>
   sorted_wrt (\<ge>) (map remainingBalance
     (schedule (amortization ''100'' ''1200'' ''1'' ''0'' (Num 150) True))) \<and>
   map remainingBalance (schedule (amortization ''100'' ''1200'' ''1'' ''0'' (Num 150) True)) =
     [50, 0] \<and>
   last (schedule (amortization ''100'' ''1200'' ''1'' ''500'' (Num 100) True))
     \<in> set (schedule (amortization ''100'' ''1200'' ''1'' ''500'' (Num 100) True)) \<and>
   remainingBalance (last (schedule (amortization ''100'' ''1200'' ''1'' ''500'' (Num 100) True)))
     < 0 \<and>
   month (last (schedule (amortization ''100'' ''1200'' ''1'' ''500'' (Num 100) True))) = 12 \<and>
   (payDown 1 100 ^^ 12) 100 = 100 \<and> (100::real) < 500"
proof -
  let ?s = "schedule (amortization ''100'' ''1200'' ''1'' ''500'' (Num 100) True)"
  have ne: "?s \<noteq> []"
    by (rule schedule_accepted_nonempty [OF parseFloat_100 parseFloat_1200 parseInt_1]) simp_all
  then have mem: "last ?s \<in> set ?s" by simp
  have neg: "remainingBalance (last ?s) < 0"
    by (simp add: amortization_accepted [OF parseFloat_100 parseFloat_1200 parseInt_1]
        parseFloat_500 finalMonthlyRepayment_def entriesFrom_unfold step_defs)
  have p: "finalMonthlyRepayment True (Num 150) x = 150" for x
    by (simp add: finalMonthlyRepayment_def)
  have f: "(payDown 1 100 ^^ 12) 100 = 100"
    by (rule funpow_fixed) (simp add: payDown_def principalOf_def)
  have e: "map remainingBalance (schedule (amortization ''100'' ''1200'' ''1'' ''0'' (Num 150) True))
      = [50, 0]"
    by (simp add: amortization_accepted [OF parseFloat_100 parseFloat_1200 parseInt_1]
        parseFloat_0 finalMonthlyRepayment_def entriesFrom_unfold step_defs)
  show ?thesis
    using balance_nonincreasing_nonnegative [OF parseFloat_100 parseFloat_1200 parseInt_1,
        of True "Num 150" "''0''"]
      balance_nonincreasing_nonnegative [OF parseFloat_100 parseFloat_1200 parseInt_1,
        of True "Num 100" "''500''"] mem neg e f
    by (simp add: p parseFloat_0)
qed

text \<open>
  C1 as stated holds for every effective payment. With a principal of 100, a periodic
  rate of 1 and an override payment of 50, the payment is less than the interest and the
  balance grows from 150 to 250 over the first two entries. With an override payment of
  100 and a balloon of 500, the balance stays at 100 and the entry of the final period
  records \<open>100 - 500 = -400\<close>.
\<close>

theorem balance_can_increase_and_go_negative:
  "map remainingBalance
     (take 2 (schedule (amortization ''100'' ''1200'' ''1'' ''0'' (Num 50) True))) = [150, 250] \<and>
   remainingBalance (last (schedule (amortization ''100'' ''1200'' ''1'' ''500'' (Num 100) True)))
     = - 400"
  by (simp add: amortization_accepted [OF parseFloat_100 parseFloat_1200 parseInt_1]
      parseFloat_0 parseFloat_500 finalMonthlyRepayment_def entriesFrom_unfold step_defs)

subsection \<open>C9: the yearly aggregation\<close>

text \<open>
  C9. For a schedule whose entries carry the months 1, 2, ... in order (every schedule
  the amortization callback returns does, by \<open>schedule_months\<close>) and a term of \<open>T\<close> years,
  the chart data are the summaries of the specification for the years 1 to \<open>T\<close>: year
  \<open>y\<close> sums the principal and the interest recorded in the entries with month in
  \<open>[(y - 1) * 12 + 1, y * 12]\<close>, and the list stops at the first year without an entry or
  after year \<open>T\<close>. There is one summary per elapsed year: their number is the smaller of
  \<open>T\<close> and the number of years the schedule reaches into, and they are named 1, 2, ...
  in order.
\<close>

theorem chartData_yearly_summaries:
  assumes "map month s = map int [1..<Suc (length s)]"
  shows "chartData s (Num (real T)) = yearlySummaries s [1..<Suc T] \<and>
         length (chartData s (Num (real T))) = min T ((length s + 11) div 12) \<and>
         map name (chartData s (Num (real T))) = [1..<Suc (length (chartData s (Num (real T))))]"
proof (cases "s = []")
  case True
  have "yearlySummaries [] ys = []" for ys by (cases ys) simp_all
  then show ?thesis using True by (simp add: chartData_def)
next
  case False
  then have c: "chartData s (Num (real T)) = chartLoop s (Num (real T)) 0 []"
    by (simp add: chartData_def)
  show ?thesis
    unfolding c
    using chartLoop_yearlySummaries [OF assms, of T 0] chartLoop_length [of s T 0]
      chartLoop_names [of s "Num (real T)" 0]
    by simp
qed

theorem chartData_yearly_summaries_witness:
  "map month (schedule (amortization ''100'' ''1200'' ''1'' ''0'' (Num 150) True)) = [1, 2] \<and>
   chartData (schedule (amortization ''100'' ''1200'' ''1'' ''0'' (Num 150) True)) (Num 1) =
     yearlySummaries (schedule (amortization ''100'' ''1200'' ''1'' ''0'' (Num 150) True)) [1] \<and>
   yearlySummaries (schedule (amortization ''100'' ''1200'' ''1'' ''0'' (Num 150) True)) [1] =
     [\<lparr>name = 1, Principal = 100, Interest = 150\<rparr>]"
proof -
  let ?s = "schedule (amortization ''100'' ''1200'' ''1'' ''0'' (Num 150) True)"
  have s: "?s = [\<lparr>month = 1, interest = 100, principal = 50, payment = 150, remainingBalance = 50\<rparr>,
                 \<lparr>month = 2, interest = 50, principal = 50, payment = 100, remainingBalance = 0\<rparr>]"
    by (simp add: amortization_accepted [OF parseFloat_100 parseFloat_1200 parseInt_1]
        parseFloat_0 finalMonthlyRepayment_def entriesFrom_unfold step_defs)
  have y: "yearlySummaries ?s [1] = [\<lparr>name = 1, Principal = 100, Interest = 150\<rparr>]"
    unfolding s by (simp add: inYear_def)
  have m: "map month ?s = map int [1..<Suc (length ?s)]" by (rule schedule_months)
  show ?thesis
    using chartData_yearly_summaries [OF m, of 1] y by (simp add: s)
qed

subsection \<open>C7: scenario B\<close>

text \<open>
  C7, as the program computes it. For the fields 250000, 3.5, 30 and 50000 with the
  override switched off (whatever the monthly repayment is), in double precision: the
  computed payment is strictly less than the computed payment for the balloon 0, which
  is the first half of C7; the last entry of the schedule is the one of month 360, and
  the remaining balance it records is 50000.00 and not 0, so the second half of C7
  fails. In exact arithmetic the same callback records 0 (lemma \<open>scenario_B_exact\<close>).
\<close>

theorem scenario_B_double_precision:
  "calculatedMthRepayment (amortizationR rnd ''250000'' ''3.5'' ''30'' ''50000'' m False)
     < calculatedMthRepayment (amortizationR rnd ''250000'' ''3.5'' ''30'' ''0'' m False) \<and>
   month (last (schedule
     (amortizationR rnd ''250000'' ''3.5'' ''30'' ''50000'' m False))) = 360 \<and>
   remainingBalance (last (schedule
     (amortizationR rnd ''250000'' ''3.5'' ''30'' ''50000'' m False))) = 50000"
proof -
  have p: "(0::real) < 250000" "(0::real) < 6725375443539941 / 2 ^ 61" "(0::int) < 30" by simp_all
  have n: "(30::int) * 12 = 360" by simp
  have B: "calculatedMthRepayment (amortizationR rnd ''250000'' ''3.5'' ''30'' ''50000'' m False)
      = 4591220627964096 / 2 ^ 42"
    by (simp only: amortizationR_accepted(2) [OF scenario_principal scenario_rate parseInt_30 p]
        n scenario_balloon scenario_B_payment)
  have A: "calculatedMthRepayment (amortizationR rnd ''250000'' ''3.5'' ''30'' ''0'' m False)
      = 4937298556368453 / 2 ^ 42"
    by (simp only: amortizationR_accepted(2) [OF scenario_principal scenario_rate parseInt_30 p]
        n scenario_no_balloon scenario_A_payment)
  have less: "(4591220627964096 / 2 ^ 42 :: real) < 4937298556368453 / 2 ^ 42" by simp
  have t: "toFixed2 (6871947673600162 / 2 ^ 37) = 50000" by (simp add: toFixed2_def)
  show ?thesis
    unfolding A B scenario_B_schedule scenario_B_periods
    using less scenario_B_last_period t by simp
qed

end
